(* ===== verification/PP_Prelude.thy ===== *)
theory PP_Prelude
  imports Main "HOL-Library.Word"
begin

text \<open>
  Shared vocabulary of the development: bytes and byte strings, the conversions between
  C++ \<open>char\<close> strings and bytes, big-endian packing of machine words, and the generic
  facts on words, lists and partial maps that the component theories use.
  Collections: \<open>word_pack\<close> holds the pack/unpack laws of big-endian integers,
  \<open>bytes_simps\<close> the facts on byte strings and their conversion to text,
  \<open>reader_simps\<close> and \<open>writer_simps\<close> the symbolic execution rules of the byte reader and
  the byte writer, and \<open>codec_defs\<close> the definitions a codec proof unfolds.
\<close>

unbundle bit_operations_syntax

named_theorems word_pack
named_theorems bytes_simps
named_theorems reader_simps
named_theorems writer_simps
named_theorems codec_defs

type_synonym byte = "8 word"
type_synonym bytes = "byte list"
type_synonym u16 = "16 word"
type_synonym u32 = "32 word"
type_synonym u64 = "64 word"

subsection \<open>Big-endian packing\<close>

text \<open>The bytes of a word, most significant first, and the words rebuilt from them.\<close>

definition be16 :: "u16 \<Rightarrow> bytes" where
  "be16 v = [ucast (drop_bit 8 v), ucast v]"

definition be32 :: "u32 \<Rightarrow> bytes" where
  "be32 v = [ucast (drop_bit 24 v), ucast (drop_bit 16 v), ucast (drop_bit 8 v), ucast v]"

definition join16 :: "byte \<Rightarrow> byte \<Rightarrow> u16" where
  "join16 a b = push_bit 8 (ucast a) OR ucast b"

definition join32 :: "byte \<Rightarrow> byte \<Rightarrow> byte \<Rightarrow> byte \<Rightarrow> u32" where
  "join32 a b c d = push_bit 24 (ucast a) OR push_bit 16 (ucast b) OR push_bit 8 (ucast c) OR ucast d"

definition join64 :: "byte \<Rightarrow> byte \<Rightarrow> byte \<Rightarrow> byte \<Rightarrow> byte \<Rightarrow> byte \<Rightarrow> byte \<Rightarrow> byte \<Rightarrow> u64" where
  "join64 a b c d e f g h =
     push_bit 56 (ucast a) OR push_bit 48 (ucast b) OR push_bit 40 (ucast c) OR push_bit 32 (ucast d) OR
     push_bit 24 (ucast e) OR push_bit 16 (ucast f) OR push_bit 8 (ucast g) OR ucast h"

lemma byte_bit_bound [simp]: "8 \<le> n \<Longrightarrow> \<not> bit (b :: byte) n"
  using bit_imp_le_length [of b n] by auto

lemma join16_split [simp, word_pack]: "join16 (ucast (drop_bit 8 v)) (ucast v) = v"
  unfolding join16_def by (rule bit_word_eqI) (auto simp: bit_simps)

lemma join16_hi [simp, word_pack]: "ucast (drop_bit 8 (join16 a b)) = a"
  unfolding join16_def by (rule bit_word_eqI) (auto simp: bit_simps)

lemma join16_lo [simp, word_pack]: "ucast (join16 a b) = b"
  unfolding join16_def by (rule bit_word_eqI) (auto simp: bit_simps)

lemma be16_join16 [simp, word_pack]: "be16 (join16 a b) = [a, b]"
  by (simp add: be16_def)

lemma length_be16 [simp]: "length (be16 v) = 2"
  by (simp add: be16_def)

lemma length_be32 [simp]: "length (be32 v) = 4"
  by (simp add: be32_def)

lemma join32_split [simp, word_pack]:
  "join32 (ucast (drop_bit 24 v)) (ucast (drop_bit 16 v)) (ucast (drop_bit 8 v)) (ucast v) = v"
proof (rule bit_word_eqI)
  fix n assume n: "n < LENGTH(32)"
  consider "n < 8" | "8 \<le> n \<and> n < 16" | "16 \<le> n \<and> n < 24" | "24 \<le> n \<and> n < 32"
    using n by force
  then show "bit (join32 (ucast (drop_bit 24 v)) (ucast (drop_bit 16 v)) (ucast (drop_bit 8 v)) (ucast v)) n
      = bit v n"
    unfolding join32_def by cases (auto simp: bit_simps)
qed

lemma be32_join32 [simp, word_pack]: "be32 (join32 a b c d) = [a, b, c, d]"
  unfolding be32_def join32_def by (auto intro!: bit_word_eqI simp: bit_simps)

lemma join16_inject [simp]: "join16 a b = join16 c d \<longleftrightarrow> a = c \<and> b = d"
  by (metis be16_join16 list.inject)

subsection \<open>Characters and bytes\<close>

text \<open>
  A C++ \<open>char\<close> string is a HOL \<open>string\<close>; \<open>reinterpret_cast\<close> between it and
  bytes keeps every value.
\<close>

definition byte_of_char :: "char \<Rightarrow> byte" where
  "byte_of_char c = word_of_nat (of_char c)"

definition char_of_byte :: "byte \<Rightarrow> char" where
  "char_of_byte b = char_of (unat b)"

definition str_bytes :: "string \<Rightarrow> bytes" where
  "str_bytes s = map byte_of_char s"

definition bytes_str :: "bytes \<Rightarrow> string" where
  "bytes_str bs = map char_of_byte bs"

lemma char_of_byte_of_char [simp, bytes_simps]: "char_of_byte (byte_of_char c) = c"
  by (simp add: char_of_byte_def byte_of_char_def unat_of_nat)

lemma byte_of_char_of_byte [simp, bytes_simps]: "byte_of_char (char_of_byte b) = b"
proof -
  have "unat b < 256" using unsigned_less [of b, where ?'a = nat] by simp
  then show ?thesis by (simp add: char_of_byte_def byte_of_char_def)
qed

lemma byte_of_char_inject [simp]: "byte_of_char c = byte_of_char d \<longleftrightarrow> c = d"
  by (metis char_of_byte_of_char)

lemma unat_byte_of_char [simp]: "unat (byte_of_char c) = of_char c"
  by (simp add: byte_of_char_def unat_of_nat)

lemma bytes_str_str_bytes [simp, bytes_simps]: "bytes_str (str_bytes s) = s"
  by (simp add: bytes_str_def str_bytes_def comp_def)

lemma str_bytes_bytes_str [simp, bytes_simps]: "str_bytes (bytes_str bs) = bs"
  by (simp add: bytes_str_def str_bytes_def comp_def)

lemma length_str_bytes [simp]: "length (str_bytes s) = length s"
  by (simp add: str_bytes_def)

lemma length_bytes_str [simp]: "length (bytes_str bs) = length bs"
  by (simp add: bytes_str_def)

lemma str_bytes_Nil [simp]: "str_bytes s = [] \<longleftrightarrow> s = []"
  by (simp add: str_bytes_def)

lemma bytes_str_Nil [simp]: "bytes_str bs = [] \<longleftrightarrow> bs = []"
  by (simp add: bytes_str_def)

lemma str_bytes_of_Nil [simp]: "str_bytes [] = []"
  by (simp add: str_bytes_def)

lemma bytes_str_of_Nil [simp]: "bytes_str [] = []"
  by (simp add: bytes_str_def)

lemma bytes_str_inject [simp]: "bytes_str a = bytes_str b \<longleftrightarrow> a = b"
  by (metis str_bytes_bytes_str)

lemma str_bytes_inject [simp]: "str_bytes s = str_bytes t \<longleftrightarrow> s = t"
  by (metis bytes_str_str_bytes)

text \<open>\<open>std::to_string\<close> of an unsigned integer.\<close>

fun to_string :: "nat \<Rightarrow> string" where
  "to_string n =
     (if n < 10 then [char_of (n + 48)] else to_string (n div 10) @ [char_of (n mod 10 + 48)])"

declare to_string.simps [simp del]

subsection \<open>Bits of small words\<close>

lemma word_small_bit:
  assumes "unat (v :: 'a::len word) < 2 ^ n" "n \<le> k"
  shows "\<not> bit v k"
proof
  assume "bit v k"
  then have "bit (unat v) k" by (simp add: bit_unsigned_iff)
  moreover have "unat v < 2 ^ k" using assms by (meson less_le_trans one_le_numeral power_increasing)
  ultimately show False by (simp add: bit_iff_odd)
qed

lemma byte_indices: "n < 8 \<Longrightarrow> n \<in> {0, 1, 2, 3, 4, 5, 6, 7 :: nat}"
  by (auto simp: numeral_eq_Suc less_Suc_eq)

lemma byte_eq_iff_bits:
  "(a :: byte) = b \<longleftrightarrow> (\<forall>n \<in> {0, 1, 2, 3, 4, 5, 6, 7 :: nat}. bit a n = bit b n)"
proof
  assume *: "\<forall>n \<in> {0, 1, 2, 3, 4, 5, 6, 7 :: nat}. bit a n = bit b n"
  show "a = b" by (rule bit_word_eqI) (rule bspec [OF *], rule byte_indices, simp)
qed simp

subsection \<open>Words and sizes\<close>

text \<open>Casts from \<open>size_t\<close> keep a size that fits the narrower type.\<close>

lemma unat_of_nat_u8: "n < 256 \<Longrightarrow> unat (word_of_nat n :: byte) = n"
  by (simp add: unat_of_nat)

lemma unat_of_nat_u16: "n < 65536 \<Longrightarrow> unat (word_of_nat n :: u16) = n"
  by (simp add: unat_of_nat)

lemma unat_byte_less [simp]: "unat (b :: byte) < 256"
  using unsigned_less [of b, where ?'a = nat] by simp

lemma unat_u16_less [simp]: "unat (v :: u16) < 65536"
  using unsigned_less [of v, where ?'a = nat] by simp

lemma unat_u16_le [simp]: "unat (v :: u16) \<le> 65535"
  using unat_u16_less [of v] by linarith

lemma unat_byte_le [simp]: "unat (b :: byte) \<le> 255"
  using unat_byte_less [of b] by linarith

lemma size_byte_iff: "n = unat (c :: byte) \<longleftrightarrow> n \<le> 255 \<and> c = word_of_nat n"
  using unat_of_nat_u8 [of n] by auto

lemma size_u16_iff: "n = unat (c :: u16) \<longleftrightarrow> n \<le> 65535 \<and> c = word_of_nat n"
  using unat_of_nat_u16 [of n] by auto

lemma word_xor_eq_0_iff [simp]: "a XOR b = 0 \<longleftrightarrow> (a :: 'a::len word) = b"
proof
  assume "a XOR b = 0"
  then have "a XOR (a XOR b) = a" by simp
  then show "a = b" by (simp flip: xor.assoc)
qed simp

subsection \<open>Lists\<close>

lemma take_length_append [simp]: "n = length xs \<Longrightarrow> take n (xs @ ys) = xs"
  by simp

lemma drop_length_append [simp]: "n = length xs \<Longrightarrow> drop n (xs @ ys) = ys"
  by simp

lemma list_eq_cons2: "length xs = 2 \<longleftrightarrow> (\<exists>a b. xs = [a, b])"
  by (auto simp: numeral_2_eq_2 length_Suc_conv)

end
