(* ===== verification/PP_Types.thy ===== *)
theory PP_Types
  imports PP_Prelude
begin

text \<open>
  The vocabulary of include/privacy_pass/core/types.hpp: token types and their sizes, error
  codes, the error record and the result type, keys, and the constant-time comparison of
  src/core/types.cpp. \<open>std::expected<T, Error>\<close> is the sum \<open>Error + 'a\<close>.
  \<open>TokenType\<close> is a C++ enum over \<open>uint16_t\<close> into which the parsers cast any 16-bit
  value, so it is the type of 16-bit words with the enumerators as named values.
\<close>

subsection \<open>Token types\<close>

type_synonym TokenType = u16

definition VOPRF_P384_SHA384 :: TokenType where [simp]: "VOPRF_P384_SHA384 = 0x0001"
definition BLIND_RSA :: TokenType where [simp]: "BLIND_RSA = 0x0002"
definition VOPRF_RISTRETTO255_SHA512 :: TokenType where [simp]: "VOPRF_RISTRETTO255_SHA512 = 0x0005"
definition PARTIALLY_BLIND_RSA :: TokenType where [simp]: "PARTIALLY_BLIND_RSA = 0xDA7A"
definition ARC_P256 :: TokenType where [simp]: "ARC_P256 = 0xE5AC"

record TokenTypeInfo =
  info_type :: TokenType
  authenticator_size :: nat
  key_id_size :: nat
  blinded_element_size :: nat
  publicly_verifiable :: bool

definition for_type :: "TokenType \<Rightarrow> TokenTypeInfo" where
  "for_type t =
     (if t = VOPRF_P384_SHA384 then
        \<lparr>info_type = t, authenticator_size = 48, key_id_size = 32, blinded_element_size = 49, publicly_verifiable = False\<rparr>
      else if t = BLIND_RSA then
        \<lparr>info_type = t, authenticator_size = 256, key_id_size = 32, blinded_element_size = 256, publicly_verifiable = True\<rparr>
      else if t = VOPRF_RISTRETTO255_SHA512 then
        \<lparr>info_type = t, authenticator_size = 64, key_id_size = 32, blinded_element_size = 32, publicly_verifiable = False\<rparr>
      else if t = PARTIALLY_BLIND_RSA then
        \<lparr>info_type = t, authenticator_size = 256, key_id_size = 32, blinded_element_size = 256, publicly_verifiable = True\<rparr>
      else if t = ARC_P256 then
        \<lparr>info_type = t, authenticator_size = 65, key_id_size = 32, blinded_element_size = 65, publicly_verifiable = False\<rparr>
      else
        \<lparr>info_type = t, authenticator_size = 0, key_id_size = 0, blinded_element_size = 0, publicly_verifiable = False\<rparr>)"

definition token_type_name :: "TokenType \<Rightarrow> string" where
  "token_type_name t =
     (if t = VOPRF_P384_SHA384 then ''VOPRF-P384-SHA384''
      else if t = BLIND_RSA then ''Blind-RSA''
      else if t = VOPRF_RISTRETTO255_SHA512 then ''VOPRF-ristretto255-SHA512''
      else if t = PARTIALLY_BLIND_RSA then ''Partially-Blind-RSA''
      else if t = ARC_P256 then ''ARC-P256''
      else ''Unknown'')"

lemma authenticator_size_zero_iff:
  "authenticator_size (for_type t) = 0 \<longleftrightarrow> blinded_element_size (for_type t) = 0"
  by (simp add: for_type_def)

lemma authenticator_size_le: "authenticator_size (for_type t) \<le> 256"
  by (simp add: for_type_def)

lemma blinded_element_size_le: "blinded_element_size (for_type t) \<le> 256"
  by (simp add: for_type_def)

subsection \<open>Error codes and results\<close>

datatype ErrorCode =
    OK
  | BUFFER_TOO_SMALL
  | INVALID_LENGTH
  | MALFORMED_DATA
  | UNEXPECTED_END
  | CRYPTO_ERROR
  | INVALID_KEY
  | INVALID_SIGNATURE
  | BLINDING_FAILED
  | UNBLINDING_FAILED
  | VERIFICATION_FAILED
  | RANDOM_GENERATION_FAILED
  | TOKEN_MISSING
  | TOKEN_INVALID
  | TOKEN_EXPIRED
  | TOKEN_REPLAYED
  | SCOPE_MISMATCH
  | ISSUER_UNKNOWN
  | TOKEN_MALFORMED
  | UNSUPPORTED_TOKEN_TYPE
  | INVALID_CHALLENGE
  | INVALID_HEADER
  | MISSING_PARAMETER
  | INVALID_BASE64

fun error_code_value :: "ErrorCode \<Rightarrow> nat" where
  "error_code_value OK = 0"
| "error_code_value BUFFER_TOO_SMALL = 16"
| "error_code_value INVALID_LENGTH = 17"
| "error_code_value MALFORMED_DATA = 18"
| "error_code_value UNEXPECTED_END = 19"
| "error_code_value CRYPTO_ERROR = 32"
| "error_code_value INVALID_KEY = 33"
| "error_code_value INVALID_SIGNATURE = 34"
| "error_code_value BLINDING_FAILED = 35"
| "error_code_value UNBLINDING_FAILED = 36"
| "error_code_value VERIFICATION_FAILED = 37"
| "error_code_value RANDOM_GENERATION_FAILED = 38"
| "error_code_value TOKEN_MISSING = 256"
| "error_code_value TOKEN_INVALID = 257"
| "error_code_value TOKEN_EXPIRED = 258"
| "error_code_value TOKEN_REPLAYED = 259"
| "error_code_value SCOPE_MISMATCH = 260"
| "error_code_value ISSUER_UNKNOWN = 261"
| "error_code_value TOKEN_MALFORMED = 262"
| "error_code_value UNSUPPORTED_TOKEN_TYPE = 263"
| "error_code_value INVALID_CHALLENGE = 264"
| "error_code_value INVALID_HEADER = 512"
| "error_code_value MISSING_PARAMETER = 513"
| "error_code_value INVALID_BASE64 = 514"

fun error_code_name :: "ErrorCode \<Rightarrow> string" where
  "error_code_name OK = ''OK''"
| "error_code_name BUFFER_TOO_SMALL = ''BUFFER_TOO_SMALL''"
| "error_code_name INVALID_LENGTH = ''INVALID_LENGTH''"
| "error_code_name MALFORMED_DATA = ''MALFORMED_DATA''"
| "error_code_name UNEXPECTED_END = ''UNEXPECTED_END''"
| "error_code_name CRYPTO_ERROR = ''CRYPTO_ERROR''"
| "error_code_name INVALID_KEY = ''INVALID_KEY''"
| "error_code_name INVALID_SIGNATURE = ''INVALID_SIGNATURE''"
| "error_code_name BLINDING_FAILED = ''BLINDING_FAILED''"
| "error_code_name UNBLINDING_FAILED = ''UNBLINDING_FAILED''"
| "error_code_name VERIFICATION_FAILED = ''VERIFICATION_FAILED''"
| "error_code_name RANDOM_GENERATION_FAILED = ''RANDOM_GENERATION_FAILED''"
| "error_code_name TOKEN_MISSING = ''TOKEN_MISSING''"
| "error_code_name TOKEN_INVALID = ''TOKEN_INVALID''"
| "error_code_name TOKEN_EXPIRED = ''TOKEN_EXPIRED''"
| "error_code_name TOKEN_REPLAYED = ''TOKEN_REPLAYED''"
| "error_code_name SCOPE_MISMATCH = ''SCOPE_MISMATCH''"
| "error_code_name ISSUER_UNKNOWN = ''ISSUER_UNKNOWN''"
| "error_code_name TOKEN_MALFORMED = ''TOKEN_MALFORMED''"
| "error_code_name UNSUPPORTED_TOKEN_TYPE = ''UNSUPPORTED_TOKEN_TYPE''"
| "error_code_name INVALID_CHALLENGE = ''INVALID_CHALLENGE''"
| "error_code_name INVALID_HEADER = ''INVALID_HEADER''"
| "error_code_name MISSING_PARAMETER = ''MISSING_PARAMETER''"
| "error_code_name INVALID_BASE64 = ''INVALID_BASE64''"

text \<open>The enumerators compare by their underlying values, as C++ enums do.\<close>

lemma error_code_value_inject: "error_code_value a = error_code_value b \<Longrightarrow> a = b"
  by (cases a; simp; cases b; simp)

instantiation ErrorCode :: linorder
begin

definition less_eq_ErrorCode :: "ErrorCode \<Rightarrow> ErrorCode \<Rightarrow> bool" where
  "less_eq_ErrorCode a b \<longleftrightarrow> error_code_value a \<le> error_code_value b"

definition less_ErrorCode :: "ErrorCode \<Rightarrow> ErrorCode \<Rightarrow> bool" where
  "less_ErrorCode a b \<longleftrightarrow> error_code_value a < error_code_value b"

instance
  by standard (auto simp: less_eq_ErrorCode_def less_ErrorCode_def dest: error_code_value_inject)

end

datatype Error = Error (err_code: ErrorCode) (err_message: string)

definition is_ok :: "Error \<Rightarrow> bool" where
  "is_ok e \<longleftrightarrow> err_code e = OK"

type_synonym 'a result = "Error + 'a"

abbreviation Ok :: "'a \<Rightarrow> 'a result" where "Ok x \<equiv> Inr x"

abbreviation Err :: "ErrorCode \<Rightarrow> string \<Rightarrow> 'a result" where "Err c m \<equiv> Inl (Error c m)"

text \<open>
  The two propagation idioms of the code: \<open>if (!x) return std::unexpected(Error{c, m});\<close>
  for an optional and \<open>if (!x) return std::unexpected(x.error());\<close> for a result.
\<close>

definition require :: "'a option \<Rightarrow> ErrorCode \<Rightarrow> string \<Rightarrow> ('a \<Rightarrow> 'b result) \<Rightarrow> 'b result" where
  "require x c m f = (case x of None \<Rightarrow> Err c m | Some v \<Rightarrow> f v)"

definition try_bind :: "'a result \<Rightarrow> ('a \<Rightarrow> 'b result) \<Rightarrow> 'b result" where
  "try_bind x f = (case x of Inl e \<Rightarrow> Inl e | Inr v \<Rightarrow> f v)"

lemma require_simps [simp]:
  "require None c m f = Err c m" "require (Some v) c m f = f v"
  by (simp_all add: require_def)

lemma require_Ok_iff: "require x c m f = Ok y \<longleftrightarrow> (\<exists>v. x = Some v \<and> f v = Ok y)"
  by (cases x) simp_all

lemma try_bind_simps [simp]:
  "try_bind (Inl e) f = Inl e" "try_bind (Inr v) f = f v"
  by (simp_all add: try_bind_def)

lemma try_bind_Ok_iff: "try_bind x f = Ok y \<longleftrightarrow> (\<exists>v. x = Ok v \<and> f v = Ok y)"
  by (cases x) simp_all

lemma try_bind_Err_iff:
  "try_bind x f = Inl e \<longleftrightarrow> x = Inl e \<or> (\<exists>v. x = Ok v \<and> f v = Inl e)"
  by (cases x) simp_all

lemma require_cong [fundef_cong]:
  "x = x' \<Longrightarrow> (\<And>v. x' = Some v \<Longrightarrow> f v = f' v) \<Longrightarrow> require x c m f = require x' c m f'"
  by (cases x') simp_all

lemma try_bind_cong [fundef_cong]:
  "x = x' \<Longrightarrow> (\<And>v. x' = Ok v \<Longrightarrow> f v = f' v) \<Longrightarrow> try_bind x f = try_bind x' f'"
  by (cases x') simp_all

lemmas result_iffs = require_Ok_iff try_bind_Ok_iff

subsection \<open>Fixed-size arrays\<close>

text \<open>
  \<open>std::array<uint8_t, N>\<close> is a byte string; its length is part of the well-formedness
  predicates below.
\<close>

type_synonym Nonce = bytes
type_synonym ChallengeDigest = bytes
type_synonym TokenKeyId = bytes
type_synonym Hash256 = bytes
type_synonym Hash384 = bytes

definition is_array :: "nat \<Rightarrow> bytes \<Rightarrow> bool" where
  "is_array n a \<longleftrightarrow> length a = n"

subsection \<open>Constant-time comparison\<close>

definition constant_time_equal :: "bytes \<Rightarrow> bytes \<Rightarrow> bool" where
  "constant_time_equal a b =
     (if length a \<noteq> length b then False
      else foldl (\<lambda>diff i. diff OR (a ! i XOR b ! i)) 0 [0..<length a] = 0)"

lemma foldl_or_zero_iff:
  "foldl (\<lambda>d i. d OR f i) (d :: byte) is = 0 \<longleftrightarrow> d = 0 \<and> (\<forall>i \<in> set is. f i = 0)"
  by (induction "is" arbitrary: d) (auto simp: or_eq_0_iff)

lemma constant_time_equal_iff [simp]: "constant_time_equal a b \<longleftrightarrow> a = b"
proof (cases "length a = length b")
  case True
  have "constant_time_equal a b \<longleftrightarrow> (\<forall>i \<in> {0..<length a}. a ! i XOR b ! i = 0)"
    unfolding constant_time_equal_def
    using True foldl_or_zero_iff [of "\<lambda>i. a ! i XOR b ! i" 0 "[0..<length a]"]
    by (simp only: set_upt if_False simp_thms)
  also have "\<dots> \<longleftrightarrow> (\<forall>i < length a. a ! i = b ! i)"
    by (simp add: Ball_def)
  finally show ?thesis using True by (metis nth_equalityI)
next
  case False
  then show ?thesis by (auto simp: constant_time_equal_def)
qed

subsection \<open>Keys\<close>

record PublicKey =
  pk_type :: TokenType
  pk_data :: bytes
  pk_key_id :: TokenKeyId

definition truncated_key_id :: "PublicKey \<Rightarrow> byte" where
  "truncated_key_id k = pk_key_id k ! 31"

end
