(* ===== verification/PP_Hash.thy ===== *)
theory PP_Hash
  imports PP_Types
begin

text \<open>
  Hashing, HMAC, HKDF and random bytes: src/crypto/hash.cpp, src/crypto/random.cpp and the
  HKDF wrappers of src/crypto/compat.hpp (its OpenSSL branch). OpenSSL itself is a
  parameter, a record of the functions the code calls with the C return value and the
  state they leave: digest contexts of type \<open>'md\<close>, key-derivation contexts of type
  \<open>'kdf\<close>, a process-wide generator of type \<open>'rng\<close>. Whether an allocation succeeds is part
  of the parameter too. \<open>evp_documented\<close> is what the OpenSSL manual promises of a digest
  context; under it the one-shot and the incremental hashers compute the same function.
\<close>

datatype EVP_MD = EVP_sha256 | EVP_sha384

datatype hkdf_mode = EXTRACT_ONLY | EXPAND_ONLY

record ('md, 'kdf) hash_api =
  EVP_MD_CTX_new :: "'md option"
  EVP_DigestInit_ex :: "'md \<Rightarrow> EVP_MD \<Rightarrow> int \<times> 'md"
  EVP_DigestUpdate :: "'md \<Rightarrow> bytes \<Rightarrow> int \<times> 'md"
  EVP_DigestFinal_ex :: "'md \<Rightarrow> int \<times> bytes \<times> nat"
  EVP_MD_size :: "EVP_MD \<Rightarrow> nat"
  HMAC_once :: "EVP_MD \<Rightarrow> bytes \<Rightarrow> bytes \<Rightarrow> (bytes \<times> nat) option"
  EVP_PKEY_CTX_new_hkdf :: "'kdf option"
  EVP_PKEY_derive_init :: "'kdf \<Rightarrow> int \<times> 'kdf"
  set_hkdf_md :: "'kdf \<Rightarrow> EVP_MD \<Rightarrow> int \<times> 'kdf"
  set1_hkdf_salt :: "'kdf \<Rightarrow> bytes \<Rightarrow> int \<times> 'kdf"
  set1_hkdf_key :: "'kdf \<Rightarrow> bytes \<Rightarrow> int \<times> 'kdf"
  add1_hkdf_info :: "'kdf \<Rightarrow> bytes \<Rightarrow> int \<times> 'kdf"
  set_hkdf_mode :: "'kdf \<Rightarrow> hkdf_mode \<Rightarrow> int \<times> 'kdf"
  EVP_PKEY_derive :: "'kdf \<Rightarrow> nat \<Rightarrow> int \<times> bytes"

record ('md, 'kdf, 'rng) rand_api = "('md, 'kdf) hash_api" +
  RAND_bytes :: "'rng \<Rightarrow> nat \<Rightarrow> (int \<times> bytes) \<times> 'rng"

definition INT_MAX :: nat where "INT_MAX = 2147483647"

subsection \<open>One-shot hashes\<close>

text \<open>
  The test \<open>op1 != 1 || op2 != 1 || ...\<close> over a context: each call runs on the context the
  one before it left, and the first failure ends the chain.
\<close>

definition and_then :: "int \<times> 'c \<Rightarrow> ('c \<Rightarrow> 'd option) \<Rightarrow> 'd option" where
  "and_then r f = (if fst r \<noteq> 1 then None else f (snd r))"

lemma and_then_simps [simp]:
  "and_then (1, c) f = f c" "k \<noteq> 1 \<Longrightarrow> and_then (k, c) f = None"
  by (simp_all add: and_then_def)

definition digest_once ::
  "('md, 'kdf, 'z) hash_api_scheme \<Rightarrow> EVP_MD \<Rightarrow> nat \<Rightarrow> string \<Rightarrow> bytes \<Rightarrow> bytes result" where
  "digest_once L md n failed data =
     (case EVP_MD_CTX_new L of
        None \<Rightarrow> Err CRYPTO_ERROR ''Failed to create hash context''
      | Some ctx \<Rightarrow>
          (case and_then (EVP_DigestInit_ex L ctx md) (\<lambda>ctx.
                and_then (EVP_DigestUpdate L ctx data) (\<lambda>ctx.
                (case EVP_DigestFinal_ex L ctx of (r, out, len) \<Rightarrow>
                   if r \<noteq> 1 \<or> len \<noteq> n then None else Some out))) of
             None \<Rightarrow> Err CRYPTO_ERROR failed
           | Some out \<Rightarrow> Ok out))"

definition sha256 :: "('md, 'kdf, 'z) hash_api_scheme \<Rightarrow> bytes \<Rightarrow> Hash256 result" where
  "sha256 L data = digest_once L EVP_sha256 32 ''SHA-256 computation failed'' data"

definition sha384 :: "('md, 'kdf, 'z) hash_api_scheme \<Rightarrow> bytes \<Rightarrow> Hash384 result" where
  "sha384 L data = digest_once L EVP_sha384 48 ''SHA-384 computation failed'' data"

subsection \<open>Incremental hashers\<close>

text \<open>
  The state of a hasher is its context, \<open>None\<close> when the allocation failed; the
  constructor ignores the result of the initialisation, and \<open>update\<close> that of the update.
\<close>

definition Sha256Hasher_new :: "('md, 'kdf, 'z) hash_api_scheme \<Rightarrow> 'md option" where
  "Sha256Hasher_new L =
     (case EVP_MD_CTX_new L of None \<Rightarrow> None | Some ctx \<Rightarrow> Some (snd (EVP_DigestInit_ex L ctx EVP_sha256)))"

definition Sha256Hasher_update ::
  "('md, 'kdf, 'z) hash_api_scheme \<Rightarrow> 'md option \<Rightarrow> bytes \<Rightarrow> 'md option" where
  "Sha256Hasher_update L h data =
     (case h of None \<Rightarrow> None | Some ctx \<Rightarrow> Some (snd (EVP_DigestUpdate L ctx data)))"

definition Sha256Hasher_finalize ::
  "('md, 'kdf, 'z) hash_api_scheme \<Rightarrow> 'md option \<Rightarrow> Hash256 result" where
  "Sha256Hasher_finalize L h =
     (case h of
        None \<Rightarrow> Err CRYPTO_ERROR ''Invalid hasher state''
      | Some ctx \<Rightarrow>
          (case EVP_DigestFinal_ex L ctx of (r, out, len) \<Rightarrow>
             if r \<noteq> 1 \<or> len \<noteq> 32 then Err CRYPTO_ERROR ''Finalize failed'' else Ok out))"

definition Sha384Hasher_new :: "('md, 'kdf, 'z) hash_api_scheme \<Rightarrow> 'md option" where
  "Sha384Hasher_new L =
     (case EVP_MD_CTX_new L of None \<Rightarrow> None | Some ctx \<Rightarrow> Some (snd (EVP_DigestInit_ex L ctx EVP_sha384)))"

definition Sha384Hasher_update ::
  "('md, 'kdf, 'z) hash_api_scheme \<Rightarrow> 'md option \<Rightarrow> bytes \<Rightarrow> 'md option" where
  "Sha384Hasher_update L h data =
     (case h of None \<Rightarrow> None | Some ctx \<Rightarrow> Some (snd (EVP_DigestUpdate L ctx data)))"

definition Sha384Hasher_finalize ::
  "('md, 'kdf, 'z) hash_api_scheme \<Rightarrow> 'md option \<Rightarrow> Hash384 result" where
  "Sha384Hasher_finalize L h =
     (case h of
        None \<Rightarrow> Err CRYPTO_ERROR ''Invalid hasher state''
      | Some ctx \<Rightarrow>
          (case EVP_DigestFinal_ex L ctx of (r, out, len) \<Rightarrow>
             if r \<noteq> 1 \<or> len \<noteq> 48 then Err CRYPTO_ERROR ''Finalize failed'' else Ok out))"

subsection \<open>HMAC and HKDF\<close>

definition hmac_sha256 :: "('md, 'kdf, 'z) hash_api_scheme \<Rightarrow> bytes \<Rightarrow> bytes \<Rightarrow> Hash256 result" where
  "hmac_sha256 L key data =
     (if INT_MAX < length key then Err CRYPTO_ERROR ''HMAC key too large''
      else
        (case HMAC_once L EVP_sha256 key data of
           None \<Rightarrow> Err CRYPTO_ERROR ''HMAC-SHA256 failed''
         | Some (out, len) \<Rightarrow>
             if len \<noteq> 32 then Err CRYPTO_ERROR ''HMAC-SHA256 failed'' else Ok out))"

definition hkdf_extract ::
  "('md, 'kdf, 'z) hash_api_scheme \<Rightarrow> EVP_MD \<Rightarrow> bytes \<Rightarrow> bytes \<Rightarrow> bytes result" where
  "hkdf_extract L md salt ikm =
     (let hash_len = EVP_MD_size L md
      in case EVP_PKEY_CTX_new_hkdf L of
           None \<Rightarrow> Err CRYPTO_ERROR ''Failed to create HKDF context''
         | Some ctx \<Rightarrow>
             (case and_then (EVP_PKEY_derive_init L ctx) (\<lambda>ctx.
                   and_then (set_hkdf_md L ctx md) (\<lambda>ctx.
                   and_then (set1_hkdf_salt L ctx salt) (\<lambda>ctx.
                   and_then (set1_hkdf_key L ctx ikm) (\<lambda>ctx.
                   and_then (set_hkdf_mode L ctx EXTRACT_ONLY) (\<lambda>ctx.
                   and_then (EVP_PKEY_derive L ctx hash_len) Some))))) of
                None \<Rightarrow> Err CRYPTO_ERROR ''HKDF-Extract failed''
              | Some prk \<Rightarrow> Ok prk))"

definition hkdf_expand ::
  "('md, 'kdf, 'z) hash_api_scheme \<Rightarrow> EVP_MD \<Rightarrow> bytes \<Rightarrow> bytes \<Rightarrow> nat \<Rightarrow> bytes result" where
  "hkdf_expand L md prk info len =
     (case EVP_PKEY_CTX_new_hkdf L of
        None \<Rightarrow> Err CRYPTO_ERROR ''Failed to create HKDF context''
      | Some ctx \<Rightarrow>
          (case and_then (EVP_PKEY_derive_init L ctx) (\<lambda>ctx.
                and_then (set_hkdf_md L ctx md) (\<lambda>ctx.
                and_then (set1_hkdf_key L ctx prk) (\<lambda>ctx.
                and_then (add1_hkdf_info L ctx info) (\<lambda>ctx.
                and_then (set_hkdf_mode L ctx EXPAND_ONLY) (\<lambda>ctx.
                and_then (EVP_PKEY_derive L ctx len) Some))))) of
             None \<Rightarrow> Err CRYPTO_ERROR ''HKDF-Expand failed''
           | Some okm \<Rightarrow> Ok (take len (okm @ replicate len 0))))"

definition hkdf_extract_sha256 ::
  "('md, 'kdf, 'z) hash_api_scheme \<Rightarrow> bytes \<Rightarrow> bytes \<Rightarrow> bytes result" where
  "hkdf_extract_sha256 L salt ikm =
     (if INT_MAX < length salt \<or> INT_MAX < length ikm then Err CRYPTO_ERROR ''HKDF input too large''
      else hkdf_extract L EVP_sha256 salt ikm)"

definition hkdf_expand_sha256 ::
  "('md, 'kdf, 'z) hash_api_scheme \<Rightarrow> bytes \<Rightarrow> bytes \<Rightarrow> nat \<Rightarrow> bytes result" where
  "hkdf_expand_sha256 L prk info len =
     (if INT_MAX < length prk \<or> INT_MAX < length info then Err CRYPTO_ERROR ''HKDF input too large''
      else hkdf_expand L EVP_sha256 prk info len)"

subsection \<open>Random bytes\<close>

definition random_bytes ::
  "('md, 'kdf, 'rng, 'z) rand_api_scheme \<Rightarrow> nat \<Rightarrow> 'rng \<Rightarrow> bytes result \<times> 'rng" where
  "random_bytes L count rng =
     (if INT_MAX < count then (Err RANDOM_GENERATION_FAILED ''Requested random size too large'', rng)
      else
        (case RAND_bytes L rng count of ((r, out), rng') \<Rightarrow>
           (if r \<noteq> 1 then Err RANDOM_GENERATION_FAILED ''Failed to generate random bytes'' else Ok out,
            rng')))"

text \<open>The buffer after the call is returned beside the result.\<close>

definition random_fill ::
  "('md, 'kdf, 'rng, 'z) rand_api_scheme \<Rightarrow> bytes \<Rightarrow> 'rng \<Rightarrow> (unit result \<times> bytes) \<times> 'rng" where
  "random_fill L buffer rng =
     (if INT_MAX < length buffer then
        ((Err RANDOM_GENERATION_FAILED ''Buffer size too large'', buffer), rng)
      else
        (case RAND_bytes L rng (length buffer) of ((r, out), rng') \<Rightarrow>
           ((if r \<noteq> 1 then Err RANDOM_GENERATION_FAILED ''Failed to fill buffer with random bytes''
             else Ok (), out), rng')))"

definition random_nonce ::
  "('md, 'kdf, 'rng, 'z) rand_api_scheme \<Rightarrow> 'rng \<Rightarrow> Nonce result \<times> 'rng" where
  "random_nonce L rng =
     (case RAND_bytes L rng 32 of ((r, out), rng') \<Rightarrow>
        (if r \<noteq> 1 then Err RANDOM_GENERATION_FAILED ''Failed to generate random nonce'' else Ok out,
         rng'))"

text \<open>The eight bytes are read as a little-endian integer, the order of the supported targets.\<close>

definition random_u64 ::
  "('md, 'kdf, 'rng, 'z) rand_api_scheme \<Rightarrow> 'rng \<Rightarrow> u64 result \<times> 'rng" where
  "random_u64 L rng =
     (case RAND_bytes L rng 8 of ((r, b), rng') \<Rightarrow>
        (if r \<noteq> 1 then Err RANDOM_GENERATION_FAILED ''Failed to generate random uint64''
         else Ok (join64 (b ! 7) (b ! 6) (b ! 5) (b ! 4) (b ! 3) (b ! 2) (b ! 1) (b ! 0)),
         rng'))"

subsection \<open>Documented behaviour\<close>

fun md_len :: "EVP_MD \<Rightarrow> nat" where
  "md_len EVP_sha256 = 32"
| "md_len EVP_sha384 = 48"

text \<open>
  \<open>absorbs L md ctx data\<close>: \<open>ctx\<close> was initialised for \<open>md\<close> and then fed \<open>data\<close>, in any
  number of pieces.
\<close>

inductive absorbs :: "('md, 'kdf, 'z) hash_api_scheme \<Rightarrow> EVP_MD \<Rightarrow> 'md \<Rightarrow> bytes \<Rightarrow> bool"
  for L :: "('md, 'kdf, 'z) hash_api_scheme" and md :: EVP_MD where
  absorbs_init: "EVP_MD_CTX_new L = Some ctx \<Longrightarrow> absorbs L md (snd (EVP_DigestInit_ex L ctx md)) []"
| absorbs_update:
    "absorbs L md ctx data \<Longrightarrow> absorbs L md (snd (EVP_DigestUpdate L ctx xs)) (data @ xs)"

definition evp_documented ::
  "('md, 'kdf, 'z) hash_api_scheme \<Rightarrow> (EVP_MD \<Rightarrow> bytes \<Rightarrow> bytes) \<Rightarrow> bool" where
  "evp_documented L H \<longleftrightarrow>
     (\<exists>ctx. EVP_MD_CTX_new L = Some ctx) \<and>
     (\<forall>md ctx. EVP_MD_CTX_new L = Some ctx \<longrightarrow> fst (EVP_DigestInit_ex L ctx md) = 1) \<and>
     (\<forall>md ctx data xs. absorbs L md ctx data \<longrightarrow> fst (EVP_DigestUpdate L ctx xs) = 1) \<and>
     (\<forall>md ctx data. absorbs L md ctx data \<longrightarrow> EVP_DigestFinal_ex L ctx = (1, H md data, md_len md)) \<and>
     (\<forall>md data. length (H md data) = md_len md)"

lemma documented_update:
  "evp_documented L H \<Longrightarrow> absorbs L md ctx data \<Longrightarrow> fst (EVP_DigestUpdate L ctx xs) = 1"
  unfolding evp_documented_def by blast

lemma documented_final:
  "evp_documented L H \<Longrightarrow> absorbs L md ctx data \<Longrightarrow>
     EVP_DigestFinal_ex L ctx = (1, H md data, md_len md)"
  unfolding evp_documented_def by blast

lemma digest_once_documented:
  assumes "evp_documented L H"
  shows "digest_once L md (md_len md) failed data = Ok (H md data)"
proof -
  from assms obtain ctx where ctx: "EVP_MD_CTX_new L = Some ctx"
    and i: "fst (EVP_DigestInit_ex L ctx md) = 1" by (auto simp: evp_documented_def)
  obtain c1 where c1: "EVP_DigestInit_ex L ctx md = (1, c1)" using i by (metis prod.collapse)
  have a1: "absorbs L md c1 []" using absorbs_init [OF ctx, of md] by (simp add: c1)
  then have "fst (EVP_DigestUpdate L c1 data) = 1" by (rule documented_update [OF assms])
  then obtain c2 where c2: "EVP_DigestUpdate L c1 data = (1, c2)" by (metis prod.collapse)
  have "absorbs L md c2 data" using absorbs_update [OF a1, of data] by (simp add: c2)
  then have "EVP_DigestFinal_ex L c2 = (1, H md data, md_len md)"
    by (rule documented_final [OF assms])
  then show ?thesis by (simp add: digest_once_def ctx c1 c2)
qed

lemma sha256_documented: "evp_documented L H \<Longrightarrow> sha256 L data = Ok (H EVP_sha256 data)"
  using digest_once_documented [of L H EVP_sha256] by (simp add: sha256_def)

lemma sha384_documented: "evp_documented L H \<Longrightarrow> sha384 L data = Ok (H EVP_sha384 data)"
  using digest_once_documented [of L H EVP_sha384] by (simp add: sha384_def)

lemma documented_len: "evp_documented L H \<Longrightarrow> length (H md data) = md_len md"
  by (simp add: evp_documented_def)

text \<open>A hasher that was fed a list of pieces holds a context that absorbed their concatenation.\<close>

lemma hasher_absorbs:
  assumes "EVP_MD_CTX_new L = Some ctx"
  shows "\<exists>c. foldl (\<lambda>h piece. case h of None \<Rightarrow> None | Some ctx \<Rightarrow> Some (snd (EVP_DigestUpdate L ctx piece)))
           (Some (snd (EVP_DigestInit_ex L ctx md))) pieces = Some c \<and> absorbs L md c (concat pieces)"
proof (induction pieces rule: rev_induct)
  case Nil
  show ?case using absorbs_init [OF assms, of md] by simp
next
  case (snoc p ps)
  then show ?case using absorbs_update by fastforce
qed

lemma Sha256Hasher_foldl:
  assumes doc: "evp_documented L H"
  shows "Sha256Hasher_finalize L (foldl (Sha256Hasher_update L) (Sha256Hasher_new L) pieces)
    = Ok (H EVP_sha256 (concat pieces))"
proof -
  from doc obtain ctx where ctx: "EVP_MD_CTX_new L = Some ctx" by (auto simp: evp_documented_def)
  from hasher_absorbs [OF ctx, of EVP_sha256 pieces] obtain c where
    "foldl (Sha256Hasher_update L) (Sha256Hasher_new L) pieces = Some c"
    and "absorbs L EVP_sha256 c (concat pieces)"
    by (auto simp: Sha256Hasher_new_def ctx Sha256Hasher_update_def [abs_def])
  then show ?thesis using documented_final [OF doc] by (simp add: Sha256Hasher_finalize_def)
qed

lemma Sha384Hasher_foldl:
  assumes doc: "evp_documented L H"
  shows "Sha384Hasher_finalize L (foldl (Sha384Hasher_update L) (Sha384Hasher_new L) pieces)
    = Ok (H EVP_sha384 (concat pieces))"
proof -
  from doc obtain ctx where ctx: "EVP_MD_CTX_new L = Some ctx" by (auto simp: evp_documented_def)
  from hasher_absorbs [OF ctx, of EVP_sha384 pieces] obtain c where
    "foldl (Sha384Hasher_update L) (Sha384Hasher_new L) pieces = Some c"
    and "absorbs L EVP_sha384 c (concat pieces)"
    by (auto simp: Sha384Hasher_new_def ctx Sha384Hasher_update_def [abs_def])
  then show ?thesis using documented_final [OF doc] by (simp add: Sha384Hasher_finalize_def)
qed

end
