(* ===== verification/PP_Byte_Reader.thy ===== *)
theory PP_Byte_Reader
  imports PP_Types
begin

text \<open>
  \<open>ByteReader\<close> of include/privacy_pass/core/serialization.hpp: a view of the input and a
  position. Every read returns the value (or \<open>None\<close> at the end of the data) and the reader
  after it. A reader whose position is within the data is \<open>reader_at pre post\<close>: \<open>pre\<close> is
  consumed and \<open>post\<close> is left; the rules below execute and invert a read in that form.
  Sizes are \<open>size_t\<close> values far below \<open>2 ^ 64\<close> and are \<open>nat\<close>; the subtraction in
  \<open>remaining\<close> is the one place where that matters, and \<open>reader_ok\<close> rules out that it
  wraps.
\<close>

record ByteReader =
  rd_data :: bytes
  rd_pos :: nat

definition ByteReader_new :: "bytes \<Rightarrow> ByteReader" where
  "ByteReader_new data = \<lparr>rd_data = data, rd_pos = 0\<rparr>"

definition remaining :: "ByteReader \<Rightarrow> nat" where
  "remaining r = length (rd_data r) - rd_pos r"

definition reader_empty :: "ByteReader \<Rightarrow> bool" where
  "reader_empty r \<longleftrightarrow> length (rd_data r) \<le> rd_pos r"

definition remaining_data :: "ByteReader \<Rightarrow> bytes" where
  "remaining_data r = drop (rd_pos r) (rd_data r)"

definition read_u8 :: "ByteReader \<Rightarrow> byte option \<times> ByteReader" where
  "read_u8 r =
     (if remaining r < 1 then (None, r)
      else (Some (rd_data r ! rd_pos r), r\<lparr>rd_pos := rd_pos r + 1\<rparr>))"

definition read_u16 :: "ByteReader \<Rightarrow> u16 option \<times> ByteReader" where
  "read_u16 r =
     (if remaining r < 2 then (None, r)
      else (Some (join16 (rd_data r ! rd_pos r) (rd_data r ! (rd_pos r + 1))),
            r\<lparr>rd_pos := rd_pos r + 2\<rparr>))"

definition read_u32 :: "ByteReader \<Rightarrow> u32 option \<times> ByteReader" where
  "read_u32 r =
     (if remaining r < 4 then (None, r)
      else (Some (join32 (rd_data r ! rd_pos r) (rd_data r ! (rd_pos r + 1))
                    (rd_data r ! (rd_pos r + 2)) (rd_data r ! (rd_pos r + 3))),
            r\<lparr>rd_pos := rd_pos r + 4\<rparr>))"

definition read_varint :: "ByteReader \<Rightarrow> u64 option \<times> ByteReader" where
  "read_varint r =
     (if remaining r < 1 then (None, r)
      else
        (let first = rd_data r ! rd_pos r;
             prefix = drop_bit 6 first;
             b = (\<lambda>i. rd_data r ! (rd_pos r + i))
         in if prefix = 0 then
              (Some (ucast (first AND 0x3F)), r\<lparr>rd_pos := rd_pos r + 1\<rparr>)
            else if prefix = 1 then
              (if remaining r < 2 then (None, r)
               else (Some (ucast (join16 (first AND 0x3F) (b 1))), r\<lparr>rd_pos := rd_pos r + 2\<rparr>))
            else if prefix = 2 then
              (if remaining r < 4 then (None, r)
               else (Some (ucast (join32 (first AND 0x3F) (b 1) (b 2) (b 3))),
                     r\<lparr>rd_pos := rd_pos r + 4\<rparr>))
            else if prefix = 3 then
              (if remaining r < 8 then (None, r)
               else (Some (join64 (first AND 0x3F) (b 1) (b 2) (b 3) (b 4) (b 5) (b 6) (b 7)),
                     r\<lparr>rd_pos := rd_pos r + 8\<rparr>))
            else (None, r)))"

definition read_bytes :: "nat \<Rightarrow> ByteReader \<Rightarrow> bytes option \<times> ByteReader" where
  "read_bytes count r =
     (if remaining r < count then (None, r)
      else (Some (take count (drop (rd_pos r) (rd_data r))), r\<lparr>rd_pos := rd_pos r + count\<rparr>))"

definition read_bytes_u8 :: "ByteReader \<Rightarrow> bytes option \<times> ByteReader" where
  "read_bytes_u8 r =
     (case read_u8 r of
        (None, r') \<Rightarrow> (None, r')
      | (Some len, r') \<Rightarrow> read_bytes (unat len) r')"

definition read_bytes_u16 :: "ByteReader \<Rightarrow> bytes option \<times> ByteReader" where
  "read_bytes_u16 r =
     (case read_u16 r of
        (None, r') \<Rightarrow> (None, r')
      | (Some len, r') \<Rightarrow> read_bytes (unat len) r')"

definition read_array :: "nat \<Rightarrow> ByteReader \<Rightarrow> bytes option \<times> ByteReader" where
  "read_array n r = read_bytes n r"

definition peek_u8 :: "ByteReader \<Rightarrow> byte option" where
  "peek_u8 r = (if remaining r < 1 then None else Some (rd_data r ! rd_pos r))"

definition reader_skip :: "nat \<Rightarrow> ByteReader \<Rightarrow> bool \<times> ByteReader" where
  "reader_skip count r =
     (if remaining r < count then (False, r) else (True, r\<lparr>rd_pos := rd_pos r + count\<rparr>))"

definition reader_reset :: "ByteReader \<Rightarrow> ByteReader" where
  "reader_reset r = r\<lparr>rd_pos := 0\<rparr>"

text \<open>
  The statement pair \<open>auto v = reader.op(); if (!v) return std::unexpected(Error{c, m});\<close>.
\<close>

definition reading ::
  "(ByteReader \<Rightarrow> 'a option \<times> ByteReader) \<Rightarrow> ErrorCode \<Rightarrow> string
     \<Rightarrow> ('a \<Rightarrow> ByteReader \<Rightarrow> 'b result) \<Rightarrow> ByteReader \<Rightarrow> 'b result" where
  "reading op c m f r =
     (case op r of (None, r') \<Rightarrow> Err c m | (Some v, r') \<Rightarrow> f v r')"

lemma reading_cong [fundef_cong]:
  "op r = op' r' \<Longrightarrow> (\<And>v s. op' r' = (Some v, s) \<Longrightarrow> f v s = f' v s)
     \<Longrightarrow> reading op c m f r = reading op' c m f' r'"
  by (auto simp: reading_def split: prod.splits option.splits)

subsection \<open>The reader invariant and the split form\<close>

definition reader_ok :: "ByteReader \<Rightarrow> bool" where
  "reader_ok r \<longleftrightarrow> rd_pos r \<le> length (rd_data r)"

definition reader_at :: "bytes \<Rightarrow> bytes \<Rightarrow> ByteReader" where
  "reader_at pre post = \<lparr>rd_data = pre @ post, rd_pos = length pre\<rparr>"

lemma reader_new_at [reader_simps]: "ByteReader_new data = reader_at [] data"
  by (simp add: ByteReader_new_def reader_at_def)

lemma reader_ok_at [simp]: "reader_ok (reader_at pre post)"
  by (simp add: reader_ok_def reader_at_def)

lemma reader_ok_iff_at: "reader_ok r \<longleftrightarrow> (\<exists>pre post. r = reader_at pre post)"
proof
  assume ok: "reader_ok r"
  have "r = reader_at (take (rd_pos r) (rd_data r)) (drop (rd_pos r) (rd_data r))"
    using ok by (cases r) (simp add: reader_ok_def reader_at_def)
  then show "\<exists>pre post. r = reader_at pre post" by blast
qed auto

lemma reader_ok_cases:
  assumes "reader_ok r"
  obtains pre post where "r = reader_at pre post"
  using assms by (auto simp: reader_ok_iff_at)

lemma remaining_at [reader_simps]: "remaining (reader_at pre post) = length post"
  by (simp add: remaining_def reader_at_def)

lemma reader_empty_at [reader_simps]: "reader_empty (reader_at pre post) \<longleftrightarrow> post = []"
  by (auto simp: reader_empty_def reader_at_def)

lemma remaining_data_at [reader_simps]: "remaining_data (reader_at pre post) = post"
  by (simp add: remaining_data_def reader_at_def)

lemma read_u8_at [reader_simps]:
  "read_u8 (reader_at pre post) =
     (case post of [] \<Rightarrow> (None, reader_at pre post) | b # bs \<Rightarrow> (Some b, reader_at (pre @ [b]) bs))"
  by (auto simp: read_u8_def remaining_def reader_at_def split: list.splits)

lemma read_bytes_at:
  "read_bytes n (reader_at pre post) =
     (if length post < n then (None, reader_at pre post)
      else (Some (take n post), reader_at (pre @ take n post) (drop n post)))"
  by (auto simp: read_bytes_def remaining_def reader_at_def)

lemma read_bytes_at_append [reader_simps]:
  "n = length xs \<Longrightarrow> read_bytes n (reader_at pre (xs @ ys)) = (Some xs, reader_at (pre @ xs) ys)"
  by (simp add: read_bytes_at)

lemma read_u16_at:
  "read_u16 (reader_at pre post) =
     (if length post < 2 then (None, reader_at pre post)
      else (Some (join16 (post ! 0) (post ! 1)), reader_at (pre @ take 2 post) (drop 2 post)))"
  by (auto simp: read_u16_def remaining_def reader_at_def nth_append)

lemma read_u16_at_be16 [reader_simps]:
  "read_u16 (reader_at pre (be16 v @ ys)) = (Some v, reader_at (pre @ be16 v) ys)"
  by (simp add: read_u16_at be16_def)

lemma read_u32_at:
  "read_u32 (reader_at pre post) =
     (if length post < 4 then (None, reader_at pre post)
      else (Some (join32 (post ! 0) (post ! 1) (post ! 2) (post ! 3)),
            reader_at (pre @ take 4 post) (drop 4 post)))"
  by (auto simp: read_u32_def remaining_def reader_at_def nth_append)

lemma read_u32_at_be32 [reader_simps]:
  "read_u32 (reader_at pre (be32 v @ ys)) = (Some v, reader_at (pre @ be32 v) ys)"
  by (simp add: read_u32_at be32_def)

subsection \<open>Executing and inverting a sequence of reads\<close>

lemma reading_u8_Cons [reader_simps]:
  "reading read_u8 c m f (reader_at pre (b # bs)) = f b (reader_at (pre @ [b]) bs)"
  by (simp add: reading_def reader_simps)

lemma reading_u8_Nil [reader_simps]: "reading read_u8 c m f (reader_at pre []) = Err c m"
  by (simp add: reading_def reader_simps)

lemma reading_u16_be16 [reader_simps]:
  "reading read_u16 c m f (reader_at pre (be16 v @ ys)) = f v (reader_at (pre @ be16 v) ys)"
  by (simp add: reading_def reader_simps)

lemma reading_u16_short [reader_simps]:
  "length post < 2 \<Longrightarrow> reading read_u16 c m f (reader_at pre post) = Err c m"
  by (simp add: reading_def read_u16_at)

lemma reading_bytes_append [reader_simps]:
  "n = length xs \<Longrightarrow>
   reading (read_bytes n) c m f (reader_at pre (xs @ ys)) = f xs (reader_at (pre @ xs) ys)"
  by (simp add: reading_def reader_simps)

lemma reading_bytes_all [reader_simps]:
  "n = length xs \<Longrightarrow> reading (read_bytes n) c m f (reader_at pre xs) = f xs (reader_at (pre @ xs) [])"
  using reading_bytes_append [of n xs c m f pre "[]"] by simp

lemma reading_bytes_short [reader_simps]:
  "length post < n \<Longrightarrow> reading (read_bytes n) c m f (reader_at pre post) = Err c m"
  by (simp add: reading_def read_bytes_at)

lemma reading_array [reader_simps]: "reading (read_array n) = reading (read_bytes n)"
  by (simp add: reading_def read_array_def fun_eq_iff)

lemma reading_u8_Ok_iff:
  "reading read_u8 c m f (reader_at pre post) = Ok y \<longleftrightarrow>
     (\<exists>b bs. post = b # bs \<and> f b (reader_at (pre @ [b]) bs) = Ok y)"
  by (cases post) (simp_all add: reader_simps)

lemma reading_u16_Ok_iff:
  "reading read_u16 c m f (reader_at pre post) = Ok y \<longleftrightarrow>
     (\<exists>v bs. post = be16 v @ bs \<and> f v (reader_at (pre @ be16 v) bs) = Ok y)" (is "?L \<longleftrightarrow> ?R")
proof
  assume L: ?L
  show ?R
  proof (cases "length post < 2")
    case True
    with L show ?thesis by (simp add: reader_simps)
  next
    case False
    then obtain a b bs where p: "post = a # b # bs"
      by (cases post; cases "tl post") auto
    have "post = be16 (join16 a b) @ bs" by (simp add: p)
    with L show ?thesis by (metis reading_u16_be16)
  qed
next
  assume ?R
  then show ?L by (auto simp: reader_simps)
qed

lemma reading_bytes_Ok_iff:
  "reading (read_bytes n) c m f (reader_at pre post) = Ok y \<longleftrightarrow>
     (\<exists>xs bs. post = xs @ bs \<and> length xs = n \<and> f xs (reader_at (pre @ xs) bs) = Ok y)" (is "?L \<longleftrightarrow> ?R")
proof
  assume L: ?L
  then have "\<not> length post < n" by (auto simp: reader_simps)
  with L have "f (take n post) (reader_at (pre @ take n post) (drop n post)) = Ok y"
    by (simp add: reading_def read_bytes_at)
  then show ?R using \<open>\<not> length post < n\<close>
    by (intro exI [of _ "take n post"] exI [of _ "drop n post"]) simp
next
  assume ?R
  then show ?L by (auto simp: reader_simps)
qed

lemmas reading_Ok_iffs = reading_u8_Ok_iff reading_u16_Ok_iff reading_bytes_Ok_iff

end
