(* ===== verification/PP_Varint.thy ===== *)
theory PP_Varint
  imports PP_Byte_Reader
begin

text \<open>
  The variable-length integers of include/privacy_pass/core/serialization.hpp.
  \<open>varint_bytes\<close> is the byte string that \<open>ByteWriter::write_varint\<close> emits (the writer
  theory proves that it does); the lemmas here show that \<open>ByteReader::read_varint\<close>, run on
  it, gives back the low 62 bits of the value, and how long it is. Values of 62 bits and
  fewer round-trip; a larger value loses its top two bits.
\<close>

definition varint_size :: "u64 \<Rightarrow> nat" where
  "varint_size value =
     (if value \<le> 0x3F then 1
      else if value \<le> 0x3FFF then 2
      else if value \<le> 0x3FFFFFFF then 4
      else 8)"

definition varint_bytes :: "u64 \<Rightarrow> bytes" where
  "varint_bytes value =
     (if value \<le> 0x3F then [ucast value]
      else if value \<le> 0x3FFF then [ucast (0x40 OR drop_bit 8 value), ucast value]
      else if value \<le> 0x3FFFFFFF then
        [ucast (0x80 OR drop_bit 24 value), ucast (drop_bit 16 value),
         ucast (drop_bit 8 value), ucast value]
      else
        [ucast (0xC0 OR drop_bit 56 value), ucast (drop_bit 48 value),
         ucast (drop_bit 40 value), ucast (drop_bit 32 value),
         ucast (drop_bit 24 value), ucast (drop_bit 16 value),
         ucast (drop_bit 8 value), ucast value])"

lemma length_varint_bytes: "length (varint_bytes v) = varint_size v"
  by (simp add: varint_bytes_def varint_size_def)

lemma varint_bytes_not_Nil [simp]: "varint_bytes v \<noteq> []"
  by (simp add: varint_bytes_def)

subsection \<open>The prefix bits and the payload bits\<close>

lemma varint_prefix:
  "drop_bit 6 (ucast (0x40 OR (v :: u64)) :: byte) = 1 OR drop_bit 6 (ucast v)"
  "drop_bit 6 (ucast (0x80 OR (v :: u64)) :: byte) = 2 OR drop_bit 6 (ucast v)"
  "drop_bit 6 (ucast (0xC0 OR (v :: u64)) :: byte) = 3"
  by (simp_all add: byte_eq_iff_bits bit_simps)

lemma varint_first:
  "(ucast (0x40 OR (v :: u64)) :: byte) AND 0x3F = ucast v AND 0x3F"
  "(ucast (0x80 OR (v :: u64)) :: byte) AND 0x3F = ucast v AND 0x3F"
  "(ucast (0xC0 OR (v :: u64)) :: byte) AND 0x3F = ucast v AND 0x3F"
  by (simp_all add: byte_eq_iff_bits bit_simps)

lemma mask6: "(0x3F :: byte) = mask 6"
  by (simp add: mask_eq_exp_minus_1)

lemma varint_top_zero:
  "unat (v :: u64) < 2 ^ (n + 6) \<Longrightarrow> drop_bit 6 (ucast (drop_bit n v) :: byte) = 0"
  by (rule bit_word_eqI) (auto simp: bit_simps word_small_bit)

lemma varint_join1:
  assumes "unat (v :: u64) < 2 ^ 6"
  shows "ucast (ucast v AND 0x3F :: byte) = v"
proof (rule bit_word_eqI)
  fix n :: nat
  show "bit (ucast (ucast v AND 0x3F :: byte) :: u64) n = bit v n"
    using word_small_bit [OF assms, of n] by (cases "6 \<le> n") (auto simp: bit_simps mask6)
qed

lemma varint_join2:
  assumes "unat (v :: u64) < 2 ^ 14"
  shows "ucast (join16 (ucast (drop_bit 8 v) AND 0x3F) (ucast v)) = v" (is "?l = _")
proof (rule bit_word_eqI)
  fix n :: nat
  consider "n < 8" | "8 \<le> n \<and> n < 14" | "14 \<le> n" by linarith
  then show "bit ?l n = bit v n"
    unfolding join16_def using word_small_bit [OF assms, of n]
    by cases (simp_all add: bit_simps mask6 less_diff_conv2)
qed

lemma varint_join4:
  assumes "unat (v :: u64) < 2 ^ 30"
  shows "ucast (join32 (ucast (drop_bit 24 v) AND 0x3F) (ucast (drop_bit 16 v))
           (ucast (drop_bit 8 v)) (ucast v)) = v" (is "?l = _")
proof (rule bit_word_eqI)
  fix n :: nat
  consider "n < 8" | "8 \<le> n \<and> n < 16" | "16 \<le> n \<and> n < 24" | "24 \<le> n \<and> n < 30" | "30 \<le> n"
    by linarith
  then show "bit ?l n = bit v n"
    unfolding join32_def using word_small_bit [OF assms, of n]
    by cases (simp_all add: bit_simps mask6 less_diff_conv2)
qed

lemma varint_join8:
  "join64 (ucast (drop_bit 56 v) AND 0x3F) (ucast (drop_bit 48 v)) (ucast (drop_bit 40 v))
     (ucast (drop_bit 32 v)) (ucast (drop_bit 24 v)) (ucast (drop_bit 16 v))
     (ucast (drop_bit 8 v)) (ucast v) = take_bit 62 v" (is "?l = _")
proof (rule bit_word_eqI)
  fix n assume n: "n < LENGTH(64)"
  consider "n < 8" | "8 \<le> n \<and> n < 16" | "16 \<le> n \<and> n < 24" | "24 \<le> n \<and> n < 32"
    | "32 \<le> n \<and> n < 40" | "40 \<le> n \<and> n < 48" | "48 \<le> n \<and> n < 56" | "56 \<le> n \<and> n < 62" | "62 \<le> n"
    by linarith
  then show "bit ?l n = bit (take_bit 62 v) n"
    unfolding join64_def using n
    by cases (simp_all add: bit_simps mask6 less_diff_conv2)
qed

subsection \<open>Reading back what was written\<close>

lemma take_bit_62_id: "unat (v :: u64) < 2 ^ 62 \<Longrightarrow> take_bit 62 v = v"
  using word_small_bit [of v 62] by (auto intro!: bit_word_eqI simp: bit_simps) (meson not_le)

lemma varint_range:
  "(v :: u64) \<le> 0x3F \<Longrightarrow> unat v < 2 ^ 6"
  "(v :: u64) \<le> 0x3FFF \<Longrightarrow> unat v < 2 ^ 14"
  "(v :: u64) \<le> 0x3FFFFFFF \<Longrightarrow> unat v < 2 ^ 30"
  by (simp_all add: word_le_nat_alt)

lemma read_varint_at_Cons:
  "read_varint (reader_at pre (first # bs)) =
     (let p = drop_bit 6 first; f = first AND 0x3F in
      if p = 0 then (Some (ucast f), reader_at (pre @ [first]) bs)
      else if p = 1 then
        (if length bs < 1 then (None, reader_at pre (first # bs))
         else (Some (ucast (join16 f (bs ! 0))), reader_at (pre @ first # take 1 bs) (drop 1 bs)))
      else if p = 2 then
        (if length bs < 3 then (None, reader_at pre (first # bs))
         else (Some (ucast (join32 f (bs ! 0) (bs ! 1) (bs ! 2))),
               reader_at (pre @ first # take 3 bs) (drop 3 bs)))
      else if p = 3 then
        (if length bs < 7 then (None, reader_at pre (first # bs))
         else (Some (join64 f (bs ! 0) (bs ! 1) (bs ! 2) (bs ! 3) (bs ! 4) (bs ! 5) (bs ! 6)),
               reader_at (pre @ first # take 7 bs) (drop 7 bs)))
      else (None, reader_at pre (first # bs)))"
  by (cases bs) (simp_all add: read_varint_def remaining_def reader_at_def Let_def nth_append nth_Cons')

lemma read_varint_varint_bytes [reader_simps]:
  "read_varint (reader_at pre (varint_bytes v @ ys)) =
     (Some (take_bit 62 v), reader_at (pre @ varint_bytes v) ys)"
proof -
  consider "v \<le> 0x3F" | "\<not> v \<le> 0x3F" "v \<le> 0x3FFF" | "\<not> v \<le> 0x3F" "\<not> v \<le> 0x3FFF" "v \<le> 0x3FFFFFFF"
    | "\<not> v \<le> 0x3F" "\<not> v \<le> 0x3FFF" "\<not> v \<le> 0x3FFFFFFF" by blast
  then show ?thesis
  proof cases
    case 1
    then have r: "unat v < 2 ^ 6" by (rule varint_range)
    then have "take_bit 62 v = v" by (intro take_bit_62_id) simp
    with 1 r show ?thesis
      using varint_top_zero [of v 0] varint_join1 [OF r]
      by (simp add: varint_bytes_def read_varint_at_Cons Let_def)
  next
    case 2
    then have r: "unat v < 2 ^ 14" by (intro varint_range)
    then have "take_bit 62 v = v" by (intro take_bit_62_id) simp
    with 2 r show ?thesis
      using varint_top_zero [of v 8] varint_join2 [OF r]
      by (simp add: varint_bytes_def read_varint_at_Cons Let_def varint_prefix varint_first)
  next
    case 3
    then have r: "unat v < 2 ^ 30" by (intro varint_range)
    then have "take_bit 62 v = v" by (intro take_bit_62_id) simp
    with 3 r show ?thesis
      using varint_top_zero [of v 24] varint_join4 [OF r]
      by (simp add: varint_bytes_def read_varint_at_Cons Let_def varint_prefix varint_first)
  next
    case 4
    then show ?thesis
      by (simp add: varint_bytes_def read_varint_at_Cons Let_def varint_prefix varint_first varint_join8)
  qed
qed

lemma reading_varint_varint_bytes [reader_simps]:
  "reading read_varint c m f (reader_at pre (varint_bytes v @ ys)) =
     f (take_bit 62 v) (reader_at (pre @ varint_bytes v) ys)"
  by (simp add: reading_def read_varint_varint_bytes)

end
