(* ===== verification/PP_Byte_Writer.thy ===== *)
theory PP_Byte_Writer
  imports PP_Varint
begin

text \<open>
  \<open>ByteWriter\<close> of include/privacy_pass/core/serialization.hpp in both of its modes: a
  growing vector of its own, or a caller's buffer of fixed size with a position and an
  overflow flag. Every write returns its \<open>bool\<close> and the writer after it. \<open>writer_of xs\<close> is
  the vector-mode writer that holds \<open>xs\<close>; the \<open>writer_simps\<close> rules execute writes on it.
  The last part shows that the buffer mode refines the vector mode: same bytes whenever
  they fit, the overflow flag exactly when they do not, and never a store past the buffer.
\<close>

record ByteWriter =
  w_data :: bytes
  w_external :: bytes
  w_pos :: nat
  w_use_external :: bool
  w_overflow :: bool

definition ByteWriter_new :: ByteWriter where
  "ByteWriter_new =
     \<lparr>w_data = [], w_external = [], w_pos = 0, w_use_external = False, w_overflow = False\<rparr>"

definition ByteWriter_external :: "bytes \<Rightarrow> ByteWriter" where
  "ByteWriter_external buffer =
     \<lparr>w_data = [], w_external = buffer, w_pos = 0, w_use_external = True, w_overflow = False\<rparr>"

definition writer_size :: "ByteWriter \<Rightarrow> nat" where
  "writer_size w = (if w_use_external w then w_pos w else length (w_data w))"

definition writer_view :: "ByteWriter \<Rightarrow> bytes" where
  "writer_view w = (if w_use_external w then take (w_pos w) (w_external w) else w_data w)"

definition has_overflow :: "ByteWriter \<Rightarrow> bool" where
  "has_overflow w = w_overflow w"

definition writer_take :: "ByteWriter \<Rightarrow> bytes" where
  "writer_take w = (if w_use_external w then take (w_pos w) (w_external w) else w_data w)"

definition write_u8 :: "byte \<Rightarrow> ByteWriter \<Rightarrow> bool \<times> ByteWriter" where
  "write_u8 value w =
     (if w_use_external w then
        (if length (w_external w) \<le> w_pos w then (False, w\<lparr>w_overflow := True\<rparr>)
         else (True, w\<lparr>w_external := (w_external w)[w_pos w := value], w_pos := w_pos w + 1\<rparr>))
      else (True, w\<lparr>w_data := w_data w @ [value]\<rparr>))"

definition write_u16 :: "u16 \<Rightarrow> ByteWriter \<Rightarrow> bool \<times> ByteWriter" where
  "write_u16 value w =
     (if w_use_external w then
        (if length (w_external w) < w_pos w + 2 then (False, w\<lparr>w_overflow := True\<rparr>)
         else (True, w\<lparr>w_external := (w_external w)[w_pos w := ucast (drop_bit 8 value),
                                                     w_pos w + 1 := ucast value],
                       w_pos := w_pos w + 2\<rparr>))
      else (True, w\<lparr>w_data := w_data w @ [ucast (drop_bit 8 value)] @ [ucast value]\<rparr>))"

definition write_u32 :: "u32 \<Rightarrow> ByteWriter \<Rightarrow> bool \<times> ByteWriter" where
  "write_u32 value w =
     (if w_use_external w then
        (if length (w_external w) < w_pos w + 4 then (False, w\<lparr>w_overflow := True\<rparr>)
         else (True, w\<lparr>w_external := (w_external w)[w_pos w := ucast (drop_bit 24 value),
                                                     w_pos w + 1 := ucast (drop_bit 16 value),
                                                     w_pos w + 2 := ucast (drop_bit 8 value),
                                                     w_pos w + 3 := ucast value],
                       w_pos := w_pos w + 4\<rparr>))
      else (True, w\<lparr>w_data := w_data w @ [ucast (drop_bit 24 value)] @ [ucast (drop_bit 16 value)]
                               @ [ucast (drop_bit 8 value)] @ [ucast value]\<rparr>))"

text \<open>The short-circuit \<open>&&\<close> between two writes.\<close>

definition and_write ::
  "(ByteWriter \<Rightarrow> bool \<times> ByteWriter) \<Rightarrow> (ByteWriter \<Rightarrow> bool \<times> ByteWriter)
     \<Rightarrow> ByteWriter \<Rightarrow> bool \<times> ByteWriter" where
  "and_write f g w = (case f w of (False, w') \<Rightarrow> (False, w') | (True, w') \<Rightarrow> g w')"

definition write_varint :: "u64 \<Rightarrow> ByteWriter \<Rightarrow> bool \<times> ByteWriter" where
  "write_varint value =
     (if value \<le> 0x3F then write_u8 (ucast value)
      else if value \<le> 0x3FFF then
        and_write (write_u8 (ucast (0x40 OR drop_bit 8 value)))
          (write_u8 (ucast value))
      else if value \<le> 0x3FFFFFFF then
        and_write (write_u8 (ucast (0x80 OR drop_bit 24 value)))
          (and_write (write_u8 (ucast (drop_bit 16 value)))
            (and_write (write_u8 (ucast (drop_bit 8 value)))
              (write_u8 (ucast value))))
      else
        and_write (write_u8 (ucast (0xC0 OR drop_bit 56 value)))
          (and_write (write_u8 (ucast (drop_bit 48 value)))
            (and_write (write_u8 (ucast (drop_bit 40 value)))
              (and_write (write_u8 (ucast (drop_bit 32 value)))
                (and_write (write_u8 (ucast (drop_bit 24 value)))
                  (and_write (write_u8 (ucast (drop_bit 16 value)))
                    (and_write (write_u8 (ucast (drop_bit 8 value)))
                      (write_u8 (ucast value)))))))))"

definition write_bytes :: "bytes \<Rightarrow> ByteWriter \<Rightarrow> bool \<times> ByteWriter" where
  "write_bytes bs w =
     (if w_use_external w then
        (if length (w_external w) < w_pos w + length bs then (False, w\<lparr>w_overflow := True\<rparr>)
         else (True, w\<lparr>w_external := take (w_pos w) (w_external w) @ bs
                                       @ drop (w_pos w + length bs) (w_external w),
                       w_pos := w_pos w + length bs\<rparr>))
      else (True, w\<lparr>w_data := w_data w @ bs\<rparr>))"

definition write_bytes_u8 :: "bytes \<Rightarrow> ByteWriter \<Rightarrow> bool \<times> ByteWriter" where
  "write_bytes_u8 bs w =
     (if 255 < length bs then (False, w)
      else and_write (write_u8 (word_of_nat (length bs))) (write_bytes bs) w)"

definition write_bytes_u16 :: "bytes \<Rightarrow> ByteWriter \<Rightarrow> bool \<times> ByteWriter" where
  "write_bytes_u16 bs w =
     (if 65535 < length bs then (False, w)
      else and_write (write_u16 (word_of_nat (length bs))) (write_bytes bs) w)"

definition write_array :: "bytes \<Rightarrow> ByteWriter \<Rightarrow> bool \<times> ByteWriter" where
  "write_array arr = write_bytes arr"

definition writer_clear :: "ByteWriter \<Rightarrow> ByteWriter" where
  "writer_clear w = (if w_use_external w then w\<lparr>w_pos := 0\<rparr> else w\<lparr>w_data := []\<rparr>)"

text \<open>A write whose result the caller discards.\<close>

definition put :: "(ByteWriter \<Rightarrow> bool \<times> ByteWriter) \<Rightarrow> ByteWriter \<Rightarrow> ByteWriter" where
  "put op w = snd (op w)"

subsection \<open>Executing the vector mode\<close>

definition writer_of :: "bytes \<Rightarrow> ByteWriter" where
  "writer_of xs =
     \<lparr>w_data = xs, w_external = [], w_pos = 0, w_use_external = False, w_overflow = False\<rparr>"

lemma writer_new_of [writer_simps]: "ByteWriter_new = writer_of []"
  by (simp add: ByteWriter_new_def writer_of_def)

lemma writer_take_of [writer_simps]: "writer_take (writer_of xs) = xs"
  by (simp add: writer_take_def writer_of_def)

lemma write_u8_of [writer_simps]: "write_u8 b (writer_of xs) = (True, writer_of (xs @ [b]))"
  by (simp add: write_u8_def writer_of_def)

lemma write_u16_of [writer_simps]: "write_u16 v (writer_of xs) = (True, writer_of (xs @ be16 v))"
  by (simp add: write_u16_def writer_of_def be16_def)

lemma write_u32_of [writer_simps]: "write_u32 v (writer_of xs) = (True, writer_of (xs @ be32 v))"
  by (simp add: write_u32_def writer_of_def be32_def)

lemma write_bytes_of [writer_simps]: "write_bytes bs (writer_of xs) = (True, writer_of (xs @ bs))"
  by (simp add: write_bytes_def writer_of_def)

lemma write_array_of [writer_simps]: "write_array bs (writer_of xs) = (True, writer_of (xs @ bs))"
  by (simp add: write_array_def write_bytes_of)

lemma and_write_True: "f w = (True, w') \<Longrightarrow> and_write f g w = g w'"
  by (simp add: and_write_def)

lemma write_varint_of [writer_simps]:
  "write_varint v (writer_of xs) = (True, writer_of (xs @ varint_bytes v))"
  by (simp add: write_varint_def varint_bytes_def and_write_def write_u8_of)

lemma put_of [writer_simps]:
  "put (write_u8 b) (writer_of xs) = writer_of (xs @ [b])"
  "put (write_u16 v) (writer_of xs) = writer_of (xs @ be16 v)"
  "put (write_bytes bs) (writer_of xs) = writer_of (xs @ bs)"
  "put (write_array bs) (writer_of xs) = writer_of (xs @ bs)"
  "put (write_varint n) (writer_of xs) = writer_of (xs @ varint_bytes n)"
  by (simp_all add: put_def writer_simps)

subsection \<open>Every write is a write of its encoding\<close>

text \<open>
  A buffer-mode writer is well formed when its position is inside the buffer. On such a
  writer the word writes store exactly the bytes \<open>write_bytes\<close> would store for the
  big-endian encoding.
\<close>

definition writer_ok :: "ByteWriter \<Rightarrow> bool" where
  "writer_ok w \<longleftrightarrow> (w_use_external w \<longrightarrow> w_pos w \<le> length (w_external w))"

lemma overwrite_as_updates:
  assumes "p + 1 \<le> length xs"
  shows "xs[p := a] = take p xs @ [a] @ drop (p + 1) xs"
  using assms by (simp add: upd_conv_take_nth_drop)

lemma write_u8_as_bytes: "write_u8 v w = write_bytes [v] w"
  by (auto simp: write_u8_def write_bytes_def upd_conv_take_nth_drop)

lemma overwrite2:
  assumes "p + 2 \<le> length xs"
  shows "xs[p := a, p + 1 := b] = take p xs @ [a, b] @ drop (p + 2) xs"
  using assms by (intro nth_equalityI)
    (auto simp: nth_list_update nth_append nth_Cons' min_def, rule arg_cong [where f = "nth xs"], linarith)

lemma overwrite4:
  assumes "p + 4 \<le> length xs"
  shows "xs[p := a, p + 1 := b, p + 2 := c, p + 3 := d] = take p xs @ [a, b, c, d] @ drop (p + 4) xs"
  using assms by (intro nth_equalityI) (auto simp: nth_list_update nth_append nth_Cons' min_def)

lemma write_u16_as_bytes: "write_u16 v w = write_bytes (be16 v) w"
  using overwrite2 [of "w_pos w" "w_external w"]
  by (auto simp: write_u16_def write_bytes_def be16_def)

lemma write_u32_as_bytes: "write_u32 v w = write_bytes (be32 v) w"
  using overwrite4 [of "w_pos w" "w_external w"]
  by (auto simp: write_u32_def write_bytes_def be32_def eval_nat_numeral)

subsection \<open>The buffer mode refines the vector mode\<close>

text \<open>
  \<open>simulates n op\<close>: \<open>op\<close> keeps the relation between a buffer-mode and a vector-mode
  writer, in which either the overflow flag is up and the vector holds more than the
  buffer can, or both hold the same bytes.
\<close>

definition mode_rel :: "nat \<Rightarrow> ByteWriter \<Rightarrow> ByteWriter \<Rightarrow> bool" where
  "mode_rel n e i \<longleftrightarrow>
     w_use_external e \<and> \<not> w_use_external i \<and> length (w_external e) = n \<and> w_pos e \<le> n \<and>
     (if w_overflow e then n < length (w_data i)
      else w_pos e = length (w_data i) \<and> take (w_pos e) (w_external e) = w_data i)"

definition simulates :: "nat \<Rightarrow> (ByteWriter \<Rightarrow> bool \<times> ByteWriter) \<Rightarrow> bool" where
  "simulates n op \<longleftrightarrow>
     (\<forall>e i. mode_rel n e i \<longrightarrow> mode_rel n (snd (op e)) (snd (op i)))"

text \<open>An operation that in vector mode always succeeds, and in buffer mode fails only by overflow.\<close>

definition faithful :: "nat \<Rightarrow> (ByteWriter \<Rightarrow> bool \<times> ByteWriter) \<Rightarrow> bool" where
  "faithful n op \<longleftrightarrow> simulates n op \<and>
     (\<forall>e i. mode_rel n e i \<longrightarrow> fst (op i) \<and> length (w_data i) \<le> length (w_data (snd (op i)))
        \<and> (fst (op e) \<or> w_overflow (snd (op e))))"

lemma faithful_write_bytes: "faithful n (write_bytes bs)"
  by (auto simp: faithful_def simulates_def mode_rel_def write_bytes_def)

lemma faithful_write_u8: "faithful n (write_u8 v)"
  using faithful_write_bytes [of n "[v]"] by (simp add: faithful_def simulates_def write_u8_as_bytes)

lemma faithful_write_u16: "faithful n (write_u16 v)"
  using faithful_write_bytes [of n "be16 v"] by (simp add: faithful_def simulates_def write_u16_as_bytes)

lemma faithful_write_u32: "faithful n (write_u32 v)"
  using faithful_write_bytes [of n "be32 v"] by (simp add: faithful_def simulates_def write_u32_as_bytes)

lemma faithful_and_write:
  assumes f: "faithful n f" and g: "faithful n g"
  shows "faithful n (and_write f g)"
proof -
  have step: "mode_rel n (snd (and_write f g e)) (snd (and_write f g i))
      \<and> fst (and_write f g i) \<and> length (w_data i) \<le> length (w_data (snd (and_write f g i)))
      \<and> (fst (and_write f g e) \<or> w_overflow (snd (and_write f g e)))" if r: "mode_rel n e i" for e i
  proof -
    obtain be e' where fe: "f e = (be, e')" by (cases "f e")
    obtain bi i' where fi: "f i = (bi, i')" by (cases "f i")
    have r': "mode_rel n e' i'" and bi: "bi" and grow: "length (w_data i) \<le> length (w_data i')"
      and ovf: "be \<or> w_overflow e'"
      using f r unfolding faithful_def simulates_def by (metis fe fi fst_conv snd_conv)+
    obtain ci i2 where gi: "g i' = (ci, i2)" by (cases "g i'")
    have r2: "mode_rel n (snd (g e')) i2" and ci: "ci" and grow2: "length (w_data i') \<le> length (w_data i2)"
      and ovf2: "fst (g e') \<or> w_overflow (snd (g e'))"
      using g r' unfolding faithful_def simulates_def by (metis gi fst_conv snd_conv)+
    show ?thesis
    proof (cases be)
      case True
      then show ?thesis using fe fi gi bi ci r2 grow grow2 ovf2 by (simp add: and_write_def)
    next
      case False
      then have "w_overflow e'" using ovf by simp
      then have "mode_rel n e' i2" using r' r2 grow2 by (auto simp: mode_rel_def)
      then show ?thesis using False fe fi gi bi ci grow grow2 \<open>w_overflow e'\<close> by (simp add: and_write_def)
    qed
  qed
  then show ?thesis by (auto simp: faithful_def simulates_def)
qed

lemma faithful_write_varint: "faithful n (write_varint v)"
  by (simp add: write_varint_def faithful_and_write faithful_write_u8)

text \<open>A sequence of writes, each of whose results the caller may ignore.\<close>

datatype write_op =
    WU8 byte | WU16 u16 | WU32 u32 | WVarint u64 | WBytes bytes | WBytesU8 bytes | WBytesU16 bytes

fun apply_op :: "write_op \<Rightarrow> ByteWriter \<Rightarrow> bool \<times> ByteWriter" where
  "apply_op (WU8 v) = write_u8 v"
| "apply_op (WU16 v) = write_u16 v"
| "apply_op (WU32 v) = write_u32 v"
| "apply_op (WVarint v) = write_varint v"
| "apply_op (WBytes bs) = write_bytes bs"
| "apply_op (WBytesU8 bs) = write_bytes_u8 bs"
| "apply_op (WBytesU16 bs) = write_bytes_u16 bs"

fun run_ops :: "write_op list \<Rightarrow> ByteWriter \<Rightarrow> ByteWriter" where
  "run_ops [] w = w"
| "run_ops (op # ops) w = run_ops ops (put (apply_op op) w)"

lemma faithful_simulates: "faithful n op \<Longrightarrow> simulates n op"
  by (simp add: faithful_def)

lemma simulates_apply_op: "simulates n (apply_op op)"
proof (cases op)
  case (WBytesU8 bs)
  have "simulates n (and_write (write_u8 (word_of_nat (length bs))) (write_bytes bs))"
    by (intro faithful_simulates faithful_and_write faithful_write_u8 faithful_write_bytes)
  then show ?thesis using WBytesU8 by (auto simp: simulates_def write_bytes_u8_def)
next
  case (WBytesU16 bs)
  have "simulates n (and_write (write_u16 (word_of_nat (length bs))) (write_bytes bs))"
    by (intro faithful_simulates faithful_and_write faithful_write_u16 faithful_write_bytes)
  then show ?thesis using WBytesU16 by (auto simp: simulates_def write_bytes_u16_def)
qed (auto intro: faithful_simulates faithful_write_u8 faithful_write_u16 faithful_write_u32
      faithful_write_varint faithful_write_bytes)

lemma mode_rel_run_ops: "mode_rel n e i \<Longrightarrow> mode_rel n (run_ops ops e) (run_ops ops i)"
proof (induction ops arbitrary: e i)
  case (Cons op ops)
  have "mode_rel n (put (apply_op op) e) (put (apply_op op) i)"
    using Cons.prems simulates_apply_op [of n op] by (simp add: simulates_def put_def)
  then show ?case by (simp add: Cons.IH)
qed simp

lemma mode_rel_start: "mode_rel (length buffer) (ByteWriter_external buffer) ByteWriter_new"
  by (simp add: mode_rel_def ByteWriter_external_def ByteWriter_new_def)

end
