(* ===== verification/PP_Base64url.thy ===== *)
theory PP_Base64url
  imports PP_Types
begin

text \<open>
  \<open>base64url::encode\<close>, \<open>encode_padded\<close> and \<open>decode\<close> of src/core/serialization.cpp. The
  loops consume the input list where the code advances an index. The decoder keeps its bit
  buffer as a 32-bit word whose upper bits are shifted out, as in the code; the lemmas show
  that whatever they hold never reaches the output. Every encoding decodes to its input,
  with none, one or two padding characters appended.
\<close>

definition ENCODE_TABLE :: string where
  "ENCODE_TABLE = ''ABCDEFGHIJKLMNOPQRSTUVWXYZabcdefghijklmnopqrstuvwxyz0123456789-_''"

definition DECODE_TABLE :: bytes where
  "DECODE_TABLE = [
    255, 255, 255, 255, 255, 255, 255, 255, 255, 255, 255, 255, 255, 255, 255, 255,
    255, 255, 255, 255, 255, 255, 255, 255, 255, 255, 255, 255, 255, 255, 255, 255,
    255, 255, 255, 255, 255, 255, 255, 255, 255, 255, 255, 255, 255,  62, 255, 255,
     52,  53,  54,  55,  56,  57,  58,  59,  60,  61, 255, 255, 255, 255, 255, 255,
    255,   0,   1,   2,   3,   4,   5,   6,   7,   8,   9,  10,  11,  12,  13,  14,
     15,  16,  17,  18,  19,  20,  21,  22,  23,  24,  25, 255, 255, 255, 255,  63,
    255,  26,  27,  28,  29,  30,  31,  32,  33,  34,  35,  36,  37,  38,  39,  40,
     41,  42,  43,  44,  45,  46,  47,  48,  49,  50,  51, 255, 255, 255, 255, 255,
    255, 255, 255, 255, 255, 255, 255, 255, 255, 255, 255, 255, 255, 255, 255, 255,
    255, 255, 255, 255, 255, 255, 255, 255, 255, 255, 255, 255, 255, 255, 255, 255,
    255, 255, 255, 255, 255, 255, 255, 255, 255, 255, 255, 255, 255, 255, 255, 255,
    255, 255, 255, 255, 255, 255, 255, 255, 255, 255, 255, 255, 255, 255, 255, 255,
    255, 255, 255, 255, 255, 255, 255, 255, 255, 255, 255, 255, 255, 255, 255, 255,
    255, 255, 255, 255, 255, 255, 255, 255, 255, 255, 255, 255, 255, 255, 255, 255,
    255, 255, 255, 255, 255, 255, 255, 255, 255, 255, 255, 255, 255, 255, 255, 255,
    255, 255, 255, 255, 255, 255, 255, 255, 255, 255, 255, 255, 255, 255, 255, 255]"

text \<open>\<open>ENCODE_TABLE[(chunk >> s) & 0x3F]\<close>\<close>

definition sextet :: "nat \<Rightarrow> u32 \<Rightarrow> u32" where
  "sextet s chunk = drop_bit s chunk AND 0x3F"

definition enc_char :: "nat \<Rightarrow> u32 \<Rightarrow> char" where
  "enc_char s chunk = ENCODE_TABLE ! unat (sextet s chunk)"

fun b64_encode :: "bytes \<Rightarrow> string" where
  "b64_encode (a # b # c # rest) =
     (let chunk = push_bit 16 (ucast a) OR push_bit 8 (ucast b) OR ucast c
      in [enc_char 18 chunk] @ [enc_char 12 chunk] @ [enc_char 6 chunk] @ [enc_char 0 chunk]
         @ b64_encode rest)"
| "b64_encode [] = []"
| "b64_encode [a] =
     (let chunk = push_bit 16 (ucast a)
      in [enc_char 18 chunk] @ [enc_char 12 chunk])"
| "b64_encode [a, b] =
     (let chunk = push_bit 16 (ucast a) OR push_bit 8 (ucast b)
      in [enc_char 18 chunk] @ [enc_char 12 chunk] @ [enc_char 6 chunk])"

text \<open>The padding loop of \<open>encode_padded\<close>; it stops at the next multiple of four.\<close>

function pad_loop :: "string \<Rightarrow> string" where
  "pad_loop s = (if length s mod 4 \<noteq> 0 then pad_loop (s @ ''='') else s)"
  by pat_completeness auto
termination
proof (relation "measure (\<lambda>s. if length s mod 4 = 0 then 0 else 4 - length s mod 4)", simp)
  fix s :: string
  assume "length s mod 4 \<noteq> 0"
  moreover have "length s mod 4 < 4" by simp
  ultimately show "(s @ ''='', s) \<in> measure (\<lambda>s. if length s mod 4 = 0 then 0 else 4 - length s mod 4)"
    by (simp add: mod_Suc) linarith
qed

declare pad_loop.simps [simp del]

definition b64_encode_padded :: "bytes \<Rightarrow> string" where
  "b64_encode_padded data = pad_loop (b64_encode data)"

function strip_padding :: "string \<Rightarrow> nat \<Rightarrow> string \<times> nat" where
  "strip_padding s padding =
     (if s \<noteq> [] \<and> last s = CHR ''='' then strip_padding (butlast s) (padding + 1) else (s, padding))"
  by pat_completeness auto
termination
  by (relation "measure (\<lambda>(s, _). length s)") auto

declare strip_padding.simps [simp del]

fun decode_loop :: "string \<Rightarrow> u32 \<Rightarrow> nat \<Rightarrow> bytes \<Rightarrow> bytes result" where
  "decode_loop [] buffer bits result = Ok result"
| "decode_loop (c # cs) buffer bits result =
     (let val = DECODE_TABLE ! unat (byte_of_char c)
      in if val = 255 then Err INVALID_BASE64 ''Invalid base64url character''
         else
           (let buffer = push_bit 6 buffer OR ucast val;
                bits = bits + 6
            in if 8 \<le> bits then
                 (let bits = bits - 8
                  in decode_loop cs buffer bits (result @ [ucast (drop_bit bits buffer AND 0xFF)]))
               else decode_loop cs buffer bits result))"

definition b64_decode :: "string \<Rightarrow> bytes result" where
  "b64_decode encoded =
     (if encoded = [] then Ok []
      else
        (case strip_padding encoded 0 of (encoded, padding) \<Rightarrow>
           if 2 < padding \<or> CHR ''='' \<in> set encoded \<or> length encoded mod 4 = 1 then
             Err INVALID_BASE64 ''Invalid base64url padding''
           else if encoded = [] then Ok []
           else decode_loop encoded 0 0 []))"

subsection \<open>The two tables are inverse\<close>

lemma tables_inverse_map:
  "map (\<lambda>c. DECODE_TABLE ! of_char c) ENCODE_TABLE = map word_of_nat [0..<64]"
  by (simp add: ENCODE_TABLE_def DECODE_TABLE_def upt_rec)

lemma length_ENCODE_TABLE: "length ENCODE_TABLE = 64"
  by (simp add: ENCODE_TABLE_def)

lemma tables_inverse: "i < 64 \<Longrightarrow> DECODE_TABLE ! of_char (ENCODE_TABLE ! i) = word_of_nat i"
  using arg_cong [OF tables_inverse_map, of "\<lambda>xs. xs ! i"] by (simp add: length_ENCODE_TABLE)

lemma unat_sextet: "unat (sextet s chunk) < 64"
proof -
  have "sextet s chunk \<le> 0x3F" by (simp add: sextet_def word_and_le1)
  then show ?thesis by (simp add: word_le_nat_alt)
qed

lemma decode_enc_char:
  "DECODE_TABLE ! of_char (enc_char s chunk) = ucast (sextet s chunk)"
proof -
  have "DECODE_TABLE ! of_char (ENCODE_TABLE ! unat (sextet s chunk)) = word_of_nat (unat (sextet s chunk))"
    by (rule tables_inverse) (rule unat_sextet)
  then show ?thesis by (simp add: enc_char_def)
qed

lemma ucast_sextet_not_255: "(ucast (sextet s chunk) :: byte) \<noteq> 255"
proof
  assume a: "(ucast (sextet s chunk) :: byte) = 255"
  have "unat (ucast (sextet s chunk) :: byte) < 64"
    using unat_sextet [of s chunk] by (simp add: unsigned_ucast_eq take_bit_nat_eq_self)
  with a show False by simp
qed
lemma mask6_u32: "(0x3F :: u32) = mask 6"
  by (simp add: mask_eq_exp_minus_1)
lemma mask8_u32: "(0xFF :: u32) = mask 8"
  by (simp add: mask_eq_exp_minus_1)

lemma sextet_bit [bit_simps]: "bit (sextet s chunk) n \<longleftrightarrow> n < 6 \<and> bit chunk (s + n)"
  by (auto simp: sextet_def bit_simps mask6_u32 dest: bit_imp_le_length)

subsection \<open>The bit buffer\<close>

text \<open>One step of the decoder on an encoded sextet, and the byte it emits.\<close>

definition feed :: "u32 \<Rightarrow> nat \<Rightarrow> u32 \<Rightarrow> u32" where
  "feed buf s chunk = push_bit 6 buf OR ucast (ucast (sextet s chunk) :: byte)"

definition out_byte :: "nat \<Rightarrow> u32 \<Rightarrow> byte" where
  "out_byte k buf = ucast (drop_bit k buf AND 0xFF)"

lemma feed_out:
 "out_byte 4 (feed (feed buf 18 chunk) 12 chunk) = ucast (drop_bit 16 chunk)"
 "out_byte 2 (feed (feed (feed buf 18 chunk) 12 chunk) 6 chunk) = ucast (drop_bit 8 chunk)"
 "out_byte 0 (feed (feed (feed (feed buf 18 chunk) 12 chunk) 6 chunk) 0 chunk) = ucast chunk"
  by (simp_all add: byte_eq_iff_bits bit_simps mask8_u32 out_byte_def feed_def)

lemma decode_loop_step: "decode_loop (enc_char s chunk # cs) buf bits res = 
  (if 2 \<le> bits then decode_loop cs (feed buf s chunk) (bits - 2) (res @ [out_byte (bits - 2) (feed buf s chunk)]) 
   else decode_loop cs (feed buf s chunk) (bits + 6) res)"
  by (simp add: decode_enc_char ucast_sextet_not_255 feed_def out_byte_def Let_def)

lemma decode_loop_quad:
  "\<exists>buf'. decode_loop (enc_char 18 chunk # enc_char 12 chunk # enc_char 6 chunk # enc_char 0 chunk # cs) buf 0 res
     = decode_loop cs buf' 0 (res @ [ucast (drop_bit 16 chunk), ucast (drop_bit 8 chunk), ucast chunk])"
  unfolding decode_loop_step by (auto simp: feed_out)

lemma chunk_bytes:
   "ucast (drop_bit 16 (push_bit 16 (ucast a) OR push_bit 8 (ucast b) OR (ucast c :: u32))) = (a::byte)"
   "ucast (drop_bit 8 (push_bit 16 (ucast a) OR push_bit 8 (ucast b) OR (ucast c :: u32))) = (b::byte)"
   "ucast (push_bit 16 (ucast a) OR push_bit 8 (ucast b) OR (ucast c :: u32)) = (c::byte)"
   "ucast (drop_bit 16 (push_bit 16 (ucast a) OR push_bit 8 (ucast b) :: u32)) = (a::byte)"
   "ucast (drop_bit 8 (push_bit 16 (ucast a) OR push_bit 8 (ucast b) :: u32)) = (b::byte)"
   "ucast (drop_bit 16 (push_bit 16 (ucast a) :: u32)) = (a::byte)"
  by (simp_all add: byte_eq_iff_bits bit_simps)

lemma decode_loop_encode: "decode_loop (b64_encode data) buf 0 res = Ok (res @ data)"
proof (induction data arbitrary: buf res rule: b64_encode.induct)
  case (1 a b c rest)
  let ?chunk = "push_bit 16 (ucast a) OR push_bit 8 (ucast b) OR (ucast c :: u32)"
  show ?case using decode_loop_quad [of ?chunk "b64_encode rest" buf res]
    unfolding chunk_bytes by (auto simp: Let_def "1" simp del: decode_loop.simps(2))
next
  case (3 a)
  then show ?case using chunk_bytes(6) [of a] by (simp add: decode_loop_step feed_out Let_def del: decode_loop.simps(2))
next
  case (4 a b)
  then show ?case using chunk_bytes(4,5) [of a b] by (simp add: decode_loop_step feed_out Let_def del: decode_loop.simps(2))
qed simp

subsection \<open>The shape of an encoding\<close>

lemma enc_char_in_table: "enc_char s chunk \<in> set ENCODE_TABLE"
  unfolding enc_char_def by (rule nth_mem) (simp add: length_ENCODE_TABLE unat_sextet)

lemma set_b64_encode: "set (b64_encode data) \<subseteq> set ENCODE_TABLE"
  by (induction data rule: b64_encode.induct) (auto simp: Let_def enc_char_in_table)

lemma table_excludes:
  "CHR ''='' \<notin> set ENCODE_TABLE" "CHR 0x22 \<notin> set ENCODE_TABLE" "CHR 0x5C \<notin> set ENCODE_TABLE"
  "CHR '','' \<notin> set ENCODE_TABLE" "CHR '' '' \<notin> set ENCODE_TABLE"
  by (simp_all add: ENCODE_TABLE_def)

lemma length_b64_encode:
  "length (b64_encode data) =
     4 * (length data div 3) + (if length data mod 3 = 0 then 0 else length data mod 3 + 1)"
proof (induction data rule: b64_encode.induct)
  case (1 a b c rest)
  have "(3 + length rest) div 3 = Suc (length rest div 3)" by simp
  then show ?case using "1" by (simp add: Let_def)
qed (simp_all add: Let_def)

lemma length_b64_encode_mod: "length (b64_encode data) mod 4 \<noteq> 1"
proof -
  have "length data mod 3 < 3" by simp
  then have "length data mod 3 = 0 \<or> length data mod 3 = 1 \<or> length data mod 3 = 2" by linarith
  then show ?thesis by (auto simp: length_b64_encode)
qed

lemma b64_encode_Nil_iff [simp]: "b64_encode data = [] \<longleftrightarrow> data = []"
  by (induction data rule: b64_encode.induct) (auto simp: Let_def)

subsection \<open>Padding\<close>

lemma strip_padding_stop:
  assumes "CHR ''='' \<notin> set s"
  shows "strip_padding s p = (s, p)"
proof -
  have "\<not> (s \<noteq> [] \<and> last s = CHR ''='')" using assms by (metis last_in_set)
  then show ?thesis by (subst strip_padding.simps) (simp only: if_False)
qed

lemma strip_padding_step: "strip_padding (s @ ''='') p = strip_padding s (p + 1)"
  by (subst strip_padding.simps) simp

lemma strip_padding_replicate:
  assumes "CHR ''='' \<notin> set s"
  shows "strip_padding (s @ replicate k (CHR ''='')) p = (s, p + k)"
proof (induction k arbitrary: p)
  case 0
  show ?case using assms by (simp add: strip_padding_stop)
next
  case (Suc k)
  have "s @ replicate (Suc k) (CHR ''='') = (s @ replicate k (CHR ''='')) @ ''=''"
    by (simp add: replicate_append_same)
  then show ?case using Suc by (simp only: strip_padding_step) simp
qed

lemma pad_loop_stop: "length s mod 4 = 0 \<Longrightarrow> pad_loop s = s"
  by (subst pad_loop.simps) simp

lemma pad_loop_step: "length s mod 4 \<noteq> 0 \<Longrightarrow> pad_loop s = pad_loop (s @ ''='')"
  by (subst pad_loop.simps) simp

lemma pad_loop_3: "length s mod 4 = 3 \<Longrightarrow> pad_loop s = s @ ''=''"
  using pad_loop_step [of s] pad_loop_stop [of "s @ ''=''"] by (simp add: mod_Suc)

lemma pad_loop_2: "length s mod 4 = 2 \<Longrightarrow> pad_loop s = s @ ''==''"
  using pad_loop_step [of s] pad_loop_3 [of "s @ ''=''"] by (simp add: mod_Suc)

lemma pad_loop_cases:
  assumes "length s mod 4 \<noteq> 1"
  obtains k where "k \<le> 2" "pad_loop s = s @ replicate k (CHR ''='')" "length (pad_loop s) mod 4 = 0"
proof -
  have "length s mod 4 < 4" by simp
  then consider "length s mod 4 = 0" | "length s mod 4 = 2" | "length s mod 4 = 3"
    using assms by linarith
  then show ?thesis
  proof cases
    case 1
    then show ?thesis using that [of 0] by (simp add: pad_loop_stop)
  next
    case 2
    then show ?thesis using that [of 2] by (simp add: pad_loop_2 numeral_2_eq_2 mod_Suc)
  next
    case 3
    then show ?thesis using that [of 1] by (simp add: pad_loop_3 mod_Suc)
  qed
qed

subsection \<open>Round trips\<close>

lemma encode_no_padding: "CHR ''='' \<notin> set (b64_encode data)"
  using set_b64_encode [of data] table_excludes(1) by blast

lemma decode_encode_padding:
  assumes "k \<le> 2"
  shows "b64_decode (b64_encode data @ replicate k (CHR ''='')) = Ok data"
  using assms length_b64_encode_mod [of data] decode_loop_encode [of data 0 "[]"]
  by (auto simp: b64_decode_def strip_padding_replicate encode_no_padding)

lemma b64_decode_encode [simp]: "b64_decode (b64_encode data) = Ok data"
  using decode_encode_padding [of 0 data] by simp

lemma b64_decode_encode_padded [simp]: "b64_decode (b64_encode_padded data) = Ok data"
proof -
  obtain k where "k \<le> 2" "pad_loop (b64_encode data) = b64_encode data @ replicate k (CHR ''='')"
    using pad_loop_cases [OF length_b64_encode_mod] by metis
  then show ?thesis using decode_encode_padding [of k data] by (simp add: b64_encode_padded_def)
qed

lemma length_b64_encode_padded: "length (b64_encode_padded data) mod 4 = 0"
  unfolding b64_encode_padded_def using pad_loop_cases [OF length_b64_encode_mod] by metis

lemma set_b64_encode_padded: "set (b64_encode_padded data) \<subseteq> set ENCODE_TABLE \<union> {CHR ''=''}"
proof -
  obtain k where "pad_loop (b64_encode data) = b64_encode data @ replicate k (CHR ''='')"
    using pad_loop_cases [OF length_b64_encode_mod] by metis
  then show ?thesis using set_b64_encode [of data] by (auto simp: b64_encode_padded_def)
qed

lemma b64_encode_inject: "b64_encode a = b64_encode b \<longleftrightarrow> a = b"
  by (metis b64_decode_encode sum.inject(2))

subsection \<open>What the decoder accepts\<close>

lemma decode_table_domain:
  "list_all (\<lambda>i. DECODE_TABLE ! i = 255 \<or> char_of i \<in> set ENCODE_TABLE) [0..<256]"
  by code_simp

lemma b64_char_value:
  assumes "DECODE_TABLE ! unat (byte_of_char c) \<noteq> 255"
  shows "c \<in> set ENCODE_TABLE"
proof -
  have "of_char c \<in> set [0..<256::nat]" by simp
  then show ?thesis
    using decode_table_domain assms unfolding list_all_iff by auto
qed

lemma decode_loop_Ok:
  "decode_loop cs buf bits res = Ok bs \<Longrightarrow> bits < 8 \<Longrightarrow>
     set cs \<subseteq> set ENCODE_TABLE \<and> length bs = length res + (bits + 6 * length cs) div 8"
proof (induction cs buf bits res rule: decode_loop.induct)
  case (2 c cs buf bits res)
  show ?case
  proof (cases "DECODE_TABLE ! unat (byte_of_char c) = 255")
    case False
    note c = b64_char_value [OF False]
    show ?thesis
    proof (cases "8 \<le> bits + 6")
      case True
      then show ?thesis using "2.IH"(1) [OF refl False refl refl] "2.prems" False c
        by (simp add: Let_def)
    next
      case f: False
      then show ?thesis using "2.IH"(2) [OF refl False refl refl] "2.prems" False c
        by (simp add: Let_def algebra_simps)
    qed
  qed (use "2.prems" in \<open>simp add: Let_def\<close>)
qed simp

end
