(* ===== verification/PP_Wire_Format.thy ===== *)
theory PP_Wire_Format
  imports PP_Byte_Writer PP_Base64url
begin

text \<open>
  The contract of a wire format, as the protocol objects use it. \<open>wire_format\<close> is what a
  sender and a receiver need: every well-formed object serialises, and what it serialises
  to is read back as the same object. \<open>strict_wire_format\<close> adds that the reader accepts
  nothing else, so that an object has exactly one encoding. The clients' facts are proved
  here once: injectivity, uniqueness, and the transport of an object through the base64url
  text in which it travels in a header, padded or not.
\<close>

locale wire_format =
  fixes ser :: "'a \<Rightarrow> bytes result"
    and des :: "bytes \<Rightarrow> 'a result"
    and wf :: "'a \<Rightarrow> bool"
  assumes ser_total: "wf x \<Longrightarrow> \<exists>bs. ser x = Ok bs"
    and des_ser: "wf x \<Longrightarrow> ser x = Ok bs \<Longrightarrow> des bs = Ok x"
begin

lemma transmits: "wf x \<Longrightarrow> \<exists>bs. ser x = Ok bs \<and> des bs = Ok x"
  using ser_total des_ser by blast

lemma round_trip: "wf x \<Longrightarrow> try_bind (ser x) des = Ok x"
  using transmits by fastforce

lemma ser_inject: "wf x \<Longrightarrow> wf y \<Longrightarrow> ser x = ser y \<Longrightarrow> x = y"
  by (metis transmits sum.inject(2))

lemma text_round_trip:
  "wf x \<Longrightarrow> try_bind (ser x) (\<lambda>bs. try_bind (b64_decode (b64_encode bs)) des) = Ok x"
  using round_trip by simp

lemma padded_text_round_trip:
  "wf x \<Longrightarrow> try_bind (ser x) (\<lambda>bs. try_bind (b64_decode (b64_encode_padded bs)) des) = Ok x"
  using round_trip by simp

end

locale strict_wire_format = wire_format +
  assumes des_canonical: "des bs = Ok x \<Longrightarrow> wf x \<and> ser x = Ok bs"
begin

lemma des_Ok_iff: "des bs = Ok x \<longleftrightarrow> wf x \<and> ser x = Ok bs"
  using des_canonical des_ser by blast

lemma unique_encoding: "des bs = Ok x \<Longrightarrow> des cs = Ok x \<Longrightarrow> bs = cs"
  by (metis des_canonical sum.inject(2))

lemma rejects_extension: "des bs = Ok x \<Longrightarrow> ys \<noteq> [] \<Longrightarrow> des (bs @ ys) \<noteq> Ok x"
  using unique_encoding [of bs x "bs @ ys"] by auto

end

text \<open>A format whose reader ignores what follows the encoding.\<close>

locale tolerant_wire_format = wire_format +
  assumes des_prefix: "des bs = Ok x \<longleftrightarrow> wf x \<and> (\<exists>enc ys. ser x = Ok enc \<and> bs = enc @ ys)"
begin

lemma ignores_rest: "wf x \<Longrightarrow> ser x = Ok enc \<Longrightarrow> des (enc @ ys) = Ok x"
  by (auto simp: des_prefix)

lemma prefix_free: "wf x \<Longrightarrow> wf y \<Longrightarrow> ser x = Ok enc \<Longrightarrow> ser y = Ok (enc @ ys) \<Longrightarrow> x = y"
  by (metis ignores_rest des_ser sum.inject(2))

end

subsection \<open>Parsers of a part of a message\<close>

text \<open>
  \<open>decodes op enc ok\<close>: on a reader within its data, \<open>op\<close> succeeds exactly when the encoding
  of an acceptable value comes next, returns that value and consumes that encoding.
\<close>

definition decodes ::
  "(ByteReader \<Rightarrow> ('a \<times> ByteReader) result) \<Rightarrow> ('a \<Rightarrow> bytes) \<Rightarrow> ('a \<Rightarrow> bool) \<Rightarrow> bool" where
  "decodes op enc ok \<longleftrightarrow>
     (\<forall>pre post x r. op (reader_at pre post) = Ok (x, r) \<longleftrightarrow>
        ok x \<and> (\<exists>ys. post = enc x @ ys \<and> r = reader_at (pre @ enc x) ys))"

lemma decodesI:
  assumes run: "\<And>pre ys x. ok x \<Longrightarrow> op (reader_at pre (enc x @ ys)) = Ok (x, reader_at (pre @ enc x) ys)"
    and inv: "\<And>pre post x r. op (reader_at pre post) = Ok (x, r) \<Longrightarrow> ok x \<and> (\<exists>ys. post = enc x @ ys)"
  shows "decodes op enc ok"
  unfolding decodes_def
proof (intro allI iffI)
  fix pre post x r
  assume *: "op (reader_at pre post) = Ok (x, r)"
  from inv [OF this] obtain ys where ok: "ok x" and post: "post = enc x @ ys" by blast
  have "r = reader_at (pre @ enc x) ys" using * run [OF ok, of pre ys] by (simp add: post)
  then show "ok x \<and> (\<exists>ys. post = enc x @ ys \<and> r = reader_at (pre @ enc x) ys)"
    using ok post by blast
next
  fix pre post x r
  assume "ok x \<and> (\<exists>ys. post = enc x @ ys \<and> r = reader_at (pre @ enc x) ys)"
  then show "op (reader_at pre post) = Ok (x, r)" using run by blast
qed

lemma decodesD:
  "decodes op enc ok \<Longrightarrow> op (reader_at pre post) = Ok (x, r) \<longleftrightarrow>
     ok x \<and> (\<exists>ys. post = enc x @ ys \<and> r = reader_at (pre @ enc x) ys)"
  by (simp add: decodes_def)

text \<open>Two parts in a row.\<close>

lemma decodes_seq_Ok_iff:
  assumes "decodes op enc ok"
  shows "try_bind (op (reader_at pre post)) (\<lambda>(x, r). f x r) = Ok y \<longleftrightarrow>
     (\<exists>x ys. ok x \<and> post = enc x @ ys \<and> f x (reader_at (pre @ enc x) ys) = Ok y)"
  by (auto simp: try_bind_Ok_iff decodesD [OF assms])

end
