(* ===== verification/PP_Token.thy ===== *)
theory PP_Token
  imports PP_Wire_Format
begin

text \<open>
  \<open>Token\<close> and \<open>AuthenticatorInput\<close> of src/core/token.cpp: construction, serialisation,
  deserialisation, the structural check, and the part of a token that its authenticator
  covers. A token's wire format is strict; that of the authenticator input ignores what
  follows its 98 bytes.
\<close>

record AuthenticatorInput =
  ai_token_type :: TokenType
  ai_nonce :: Nonce
  ai_challenge_digest :: ChallengeDigest
  ai_token_key_id :: TokenKeyId

record Token =
  tok_type :: TokenType
  tok_nonce :: Nonce
  tok_challenge_digest :: ChallengeDigest
  tok_key_id :: TokenKeyId
  tok_authenticator :: bytes

definition AuthenticatorInput_serialized_size :: "AuthenticatorInput \<Rightarrow> nat" where
  "AuthenticatorInput_serialized_size a = 2 + 32 + 32 + 32"

definition AuthenticatorInput_serialize :: "AuthenticatorInput \<Rightarrow> bytes result" where
  "AuthenticatorInput_serialize a =
     (let writer = ByteWriter_new;
          writer = put (write_u16 (ai_token_type a)) writer;
          writer = put (write_array (ai_nonce a)) writer;
          writer = put (write_array (ai_challenge_digest a)) writer;
          writer = put (write_array (ai_token_key_id a)) writer
      in Ok (writer_take writer))"

definition AuthenticatorInput_deserialize :: "bytes \<Rightarrow> AuthenticatorInput result" where
  "AuthenticatorInput_deserialize data =
     reading read_u16 UNEXPECTED_END ''Failed to read token_type'' (\<lambda>type.
     reading (read_array 32) UNEXPECTED_END ''Failed to read nonce'' (\<lambda>nonce.
     reading (read_array 32) UNEXPECTED_END ''Failed to read challenge_digest'' (\<lambda>digest.
     reading (read_array 32) UNEXPECTED_END ''Failed to read token_key_id'' (\<lambda>key_id reader.
       Ok \<lparr>ai_token_type = type, ai_nonce = nonce, ai_challenge_digest = digest,
           ai_token_key_id = key_id\<rparr>))))
     (ByteReader_new data)"

definition Token_create ::
  "TokenType \<Rightarrow> Nonce \<Rightarrow> ChallengeDigest \<Rightarrow> TokenKeyId \<Rightarrow> bytes \<Rightarrow> Token" where
  "Token_create type nonce digest key_id auth =
     \<lparr>tok_type = type, tok_nonce = nonce, tok_challenge_digest = digest, tok_key_id = key_id,
      tok_authenticator = auth\<rparr>"

definition Token_serialized_size :: "Token \<Rightarrow> nat" where
  "Token_serialized_size t = 2 + 32 + 32 + 32 + length (tok_authenticator t)"

definition Token_serialize :: "Token \<Rightarrow> bytes result" where
  "Token_serialize t =
     (let writer = ByteWriter_new;
          writer = put (write_u16 (tok_type t)) writer;
          writer = put (write_array (tok_nonce t)) writer;
          writer = put (write_array (tok_challenge_digest t)) writer;
          writer = put (write_array (tok_key_id t)) writer;
          writer = put (write_bytes (tok_authenticator t)) writer
      in Ok (writer_take writer))"

definition is_valid_token_type :: "u16 \<Rightarrow> bool" where
  "is_valid_token_type type \<longleftrightarrow>
     type \<in> {VOPRF_P384_SHA384, BLIND_RSA, VOPRF_RISTRETTO255_SHA512, PARTIALLY_BLIND_RSA, ARC_P256}"

definition Token_deserialize :: "bytes \<Rightarrow> Token result" where
  "Token_deserialize data =
     reading read_u16 UNEXPECTED_END ''Failed to read token_type'' (\<lambda>type reader.
     if \<not> is_valid_token_type type then
       Err UNSUPPORTED_TOKEN_TYPE (''Unknown token type: '' @ to_string (unat type))
     else
     reading (read_array 32) UNEXPECTED_END ''Failed to read nonce'' (\<lambda>nonce.
     reading (read_array 32) UNEXPECTED_END ''Failed to read challenge_digest'' (\<lambda>digest.
     reading (read_array 32) UNEXPECTED_END ''Failed to read token_key_id'' (\<lambda>key_id reader.
     let info = for_type type in
     if authenticator_size info = 0 then
       Err UNSUPPORTED_TOKEN_TYPE ''Token type has no authenticator size defined''
     else if remaining reader < authenticator_size info then
       Err UNEXPECTED_END ''Insufficient data for authenticator''
     else
     reading (read_bytes (authenticator_size info)) UNEXPECTED_END ''Failed to read authenticator''
      (\<lambda>auth reader.
     if \<not> reader_empty reader then Err MALFORMED_DATA ''Trailing Token data''
     else Ok \<lparr>tok_type = type, tok_nonce = nonce, tok_challenge_digest = digest, tok_key_id = key_id,
              tok_authenticator = auth\<rparr>) reader))) reader)
     (ByteReader_new data)"

definition authenticator_input :: "Token \<Rightarrow> AuthenticatorInput" where
  "authenticator_input t =
     \<lparr>ai_token_type = tok_type t, ai_nonce = tok_nonce t,
      ai_challenge_digest = tok_challenge_digest t, ai_token_key_id = tok_key_id t\<rparr>"

definition Token_validate :: "Token \<Rightarrow> unit result" where
  "Token_validate t =
     (let info = for_type (tok_type t)
      in if authenticator_size info = 0 then Err UNSUPPORTED_TOKEN_TYPE ''Unknown token type''
         else if length (tok_authenticator t) \<noteq> authenticator_size info then
           Err TOKEN_MALFORMED ''Invalid authenticator size''
         else Ok ())"

subsection \<open>Encodings\<close>

lemma AuthenticatorInput_serialize_eq:
  "AuthenticatorInput_serialize a =
     Ok (be16 (ai_token_type a) @ ai_nonce a @ ai_challenge_digest a @ ai_token_key_id a)"
  by (simp add: AuthenticatorInput_serialize_def writer_simps Let_def)

lemma Token_serialize_eq:
  "Token_serialize t =
     Ok (be16 (tok_type t) @ tok_nonce t @ tok_challenge_digest t @ tok_key_id t @ tok_authenticator t)"
  by (simp add: Token_serialize_def writer_simps Let_def)

definition ai_wf :: "AuthenticatorInput \<Rightarrow> bool" where
  "ai_wf a \<longleftrightarrow>
     is_array 32 (ai_nonce a) \<and> is_array 32 (ai_challenge_digest a) \<and> is_array 32 (ai_token_key_id a)"

text \<open>The arrays have their C++ sizes and the structural check of \<open>validate\<close> passes.\<close>

definition token_arrays :: "Token \<Rightarrow> bool" where
  "token_arrays t \<longleftrightarrow>
     is_array 32 (tok_nonce t) \<and> is_array 32 (tok_challenge_digest t) \<and> is_array 32 (tok_key_id t)"

definition token_wf :: "Token \<Rightarrow> bool" where
  "token_wf t \<longleftrightarrow> token_arrays t \<and> Token_validate t = Ok ()"

lemma is_valid_token_type_iff: "is_valid_token_type t \<longleftrightarrow> authenticator_size (for_type t) \<noteq> 0"
  by (auto simp: is_valid_token_type_def for_type_def)

lemma token_wf_iff:
  "token_wf t \<longleftrightarrow> token_arrays t \<and> is_valid_token_type (tok_type t)
     \<and> length (tok_authenticator t) = authenticator_size (for_type (tok_type t))"
  by (auto simp: token_wf_def Token_validate_def is_valid_token_type_iff Let_def)

lemma Token_deserialize_serialize:
  assumes "token_wf t" "Token_serialize t = Ok bs"
  shows "Token_deserialize bs = Ok t"
  using assms
  by (auto simp: token_wf_iff token_arrays_def Token_serialize_eq Token_deserialize_def reader_simps
      is_array_def is_valid_token_type_iff Let_def)

lemma Token_deserialize_canonical:
  assumes "Token_deserialize bs = Ok t"
  shows "token_wf t \<and> Token_serialize t = Ok bs"
  using assms
  by (auto simp: token_wf_iff token_arrays_def Token_serialize_eq Token_deserialize_def reader_simps
      reading_Ok_iffs is_array_def is_valid_token_type_iff Let_def split: if_splits)

lemma AuthenticatorInput_deserialize_append:
  assumes "ai_wf a" "AuthenticatorInput_serialize a = Ok bs"
  shows "AuthenticatorInput_deserialize (bs @ ys) = Ok a"
  using assms
  by (auto simp: ai_wf_def AuthenticatorInput_serialize_eq AuthenticatorInput_deserialize_def
      reader_simps is_array_def)

lemma AuthenticatorInput_deserialize_Ok_iff:
  "AuthenticatorInput_deserialize bs = Ok a \<longleftrightarrow>
     ai_wf a \<and> (\<exists>enc ys. AuthenticatorInput_serialize a = Ok enc \<and> bs = enc @ ys)"
proof
  assume "AuthenticatorInput_deserialize bs = Ok a"
  then show "ai_wf a \<and> (\<exists>enc ys. AuthenticatorInput_serialize a = Ok enc \<and> bs = enc @ ys)"
    by (auto simp: ai_wf_def AuthenticatorInput_serialize_eq AuthenticatorInput_deserialize_def
        reader_simps reading_Ok_iffs is_array_def)
qed (auto intro: AuthenticatorInput_deserialize_append)

interpretation token_wire: strict_wire_format Token_serialize Token_deserialize token_wf
  by unfold_locales
    (auto simp: Token_serialize_eq intro: Token_deserialize_serialize dest: Token_deserialize_canonical)

interpretation ai_wire:
  tolerant_wire_format AuthenticatorInput_serialize AuthenticatorInput_deserialize ai_wf
  using AuthenticatorInput_deserialize_append [of _ _ "[]"]
  by unfold_locales (auto simp: AuthenticatorInput_serialize_eq AuthenticatorInput_deserialize_Ok_iff)

subsection \<open>Sizes and the covered part\<close>

lemma Token_serialize_length:
  "token_arrays t \<Longrightarrow> Token_serialize t = Ok bs \<Longrightarrow> length bs = Token_serialized_size t"
  by (auto simp: Token_serialize_eq Token_serialized_size_def token_arrays_def is_array_def)

lemma AuthenticatorInput_serialize_length:
  "ai_wf a \<Longrightarrow> AuthenticatorInput_serialize a = Ok bs \<Longrightarrow> length bs = AuthenticatorInput_serialized_size a"
  by (auto simp: AuthenticatorInput_serialize_eq AuthenticatorInput_serialized_size_def ai_wf_def is_array_def)

lemma ai_wf_authenticator_input [simp]: "ai_wf (authenticator_input t) = token_arrays t"
  by (simp add: ai_wf_def token_arrays_def authenticator_input_def)

lemma Token_serialize_split:
  assumes "Token_serialize t = Ok bs" "AuthenticatorInput_serialize (authenticator_input t) = Ok cs"
  shows "bs = cs @ tok_authenticator t"
  using assms by (auto simp: Token_serialize_eq AuthenticatorInput_serialize_eq authenticator_input_def)

lemma authenticator_input_create [simp]:
  "authenticator_input (Token_create type nonce digest key_id auth) =
     \<lparr>ai_token_type = type, ai_nonce = nonce, ai_challenge_digest = digest, ai_token_key_id = key_id\<rparr>"
  by (simp add: authenticator_input_def Token_create_def)

end
