(* ===== verification/PP_Challenge.thy ===== *)
theory PP_Challenge
  imports PP_Wire_Format PP_Hash
begin

text \<open>
  \<open>TokenChallenge\<close> of src/core/token_challenge.cpp: construction, the comma-separated
  origin list, serialisation, deserialisation and the cached digest. A challenge whose
  origins are non-empty, comma-free and at most 100 round-trips. The reader drops empty
  origins, so several encodings give the same challenge; what it returns is always well
  formed and re-encodes to something it reads back identically.
\<close>

record TokenChallenge =
  tc_type :: TokenType
  tc_issuer_name :: string
  tc_redemption_context :: "ChallengeDigest option"
  tc_origin_info :: "string list"
  tc_cached_digest :: "ChallengeDigest option"

definition TokenChallenge_create ::
  "TokenType \<Rightarrow> string \<Rightarrow> ChallengeDigest option \<Rightarrow> string list \<Rightarrow> TokenChallenge" where
  "TokenChallenge_create type issuer context origins =
     \<lparr>tc_type = type, tc_issuer_name = issuer, tc_redemption_context = context,
      tc_origin_info = origins, tc_cached_digest = None\<rparr>"

fun join_origins :: "string list \<Rightarrow> string \<Rightarrow> nat \<Rightarrow> string" where
  "join_origins [] result i = result"
| "join_origins (x # xs) result i =
     join_origins xs ((if 0 < i then result @ '','' else result) @ x) (i + 1)"

definition origin_info_string :: "TokenChallenge \<Rightarrow> string" where
  "origin_info_string c = join_origins (tc_origin_info c) [] 0"

fun origin_len :: "string list \<Rightarrow> nat \<Rightarrow> nat \<Rightarrow> nat" where
  "origin_len [] len i = len"
| "origin_len (x # xs) len i = origin_len xs ((if 0 < i then len + 1 else len) + length x) (i + 1)"

definition TokenChallenge_serialized_size :: "TokenChallenge \<Rightarrow> nat" where
  "TokenChallenge_serialized_size c =
     (let size = 2;
          size = size + (2 + length (tc_issuer_name c));
          size = size + 1;
          size = (if tc_redemption_context c \<noteq> None then size + 32 else size)
      in size + (2 + origin_len (tc_origin_info c) 0 0))"

definition TokenChallenge_serialize :: "TokenChallenge \<Rightarrow> bytes result" where
  "TokenChallenge_serialize c =
     (if tc_issuer_name c = [] \<or> 0xFFFF < length (tc_issuer_name c) then
        Err INVALID_LENGTH ''issuer_name length must be 1..65535''
      else
        (let origin_str = origin_info_string c
         in if 0xFFFF < length origin_str then
              Err INVALID_LENGTH ''origin_info length must be <= 65535''
            else
              (let writer = ByteWriter_new;
                   writer = put (write_u16 (tc_type c)) writer;
                   writer = put (write_u16 (word_of_nat (length (tc_issuer_name c)))) writer;
                   writer = put (write_bytes (str_bytes (tc_issuer_name c))) writer;
                   writer = (case tc_redemption_context c of
                       Some ctx \<Rightarrow> put (write_array ctx) (put (write_u8 32) writer)
                     | None \<Rightarrow> put (write_u8 0) writer);
                   writer = put (write_u16 (word_of_nat (length origin_str))) writer;
                   writer = (if origin_str \<noteq> [] then put (write_bytes (str_bytes origin_str)) writer
                             else writer)
               in Ok (writer_take writer))))"

definition MAX_ORIGIN_ENTRIES :: nat where "MAX_ORIGIN_ENTRIES = 100"

text \<open>The entry loop; its argument is what is left of the string from \<open>pos\<close> on.\<close>

function parse_origins :: "string \<Rightarrow> string list \<Rightarrow> string list result" where
  "parse_origins s acc =
     (if s = [] then Ok acc
      else if MAX_ORIGIN_ENTRIES \<le> length acc then
        Err MALFORMED_DATA ''Too many origin_info entries (max 100)''
      else
        (let entry = takeWhile (\<lambda>ch. ch \<noteq> CHR '','') s;
             found = dropWhile (\<lambda>ch. ch \<noteq> CHR '','') s;
             acc' = (if entry \<noteq> [] then acc @ [entry] else acc)
         in if found = [] then Ok acc' else parse_origins (tl found) acc'))"
  by pat_completeness auto
termination
proof (relation "measure (\<lambda>(s, _). length s)", simp)
  fix s :: string and acc entry found acc'
  assume found: "found = dropWhile (\<lambda>ch. ch \<noteq> CHR '','') s" "found \<noteq> []"
  have "length found \<le> length s" unfolding found(1) by (rule length_dropWhile_le)
  moreover have "0 < length found" using found(2) by simp
  ultimately have "length (tl found) < length s" by (cases found) auto
  then show "((tl found, acc'), s, acc) \<in> measure (\<lambda>(s, _). length s)" by simp
qed

declare parse_origins.simps [simp del]

text \<open>The two optional parts of the encoding, each with the reader after it.\<close>

definition read_context :: "ByteReader \<Rightarrow> (ChallengeDigest option \<times> ByteReader) result" where
  "read_context =
     reading read_u8 UNEXPECTED_END ''Failed to read redemption_context length'' (\<lambda>context_len reader.
     if context_len \<noteq> 0 \<and> context_len \<noteq> 32 then
       Err INVALID_LENGTH ''redemption_context length must be 0 or 32''
     else if context_len = 32 then
       reading (read_array 32) UNEXPECTED_END ''Failed to read redemption_context''
         (\<lambda>context reader. Ok (Some context, reader)) reader
     else Ok (None, reader))"

definition read_origins :: "ByteReader \<Rightarrow> (string list \<times> ByteReader) result" where
  "read_origins =
     reading read_u16 UNEXPECTED_END ''Failed to read origin_info length'' (\<lambda>origin_len reader.
     if 0 < origin_len then
       reading (read_bytes (unat origin_len)) UNEXPECTED_END ''Failed to read origin_info''
         (\<lambda>origin_bytes reader.
            try_bind (parse_origins (bytes_str origin_bytes) []) (\<lambda>origins. Ok (origins, reader)))
         reader
     else Ok ([], reader))"

definition TokenChallenge_deserialize :: "bytes \<Rightarrow> TokenChallenge result" where
  "TokenChallenge_deserialize data =
     reading read_u16 UNEXPECTED_END ''Failed to read token_type'' (\<lambda>type.
     reading read_u16 UNEXPECTED_END ''Failed to read issuer_name length'' (\<lambda>issuer_len.
     reading (read_bytes (unat issuer_len)) UNEXPECTED_END ''Failed to read issuer_name''
      (\<lambda>issuer_bytes reader.
     if issuer_len = 0 then Err INVALID_LENGTH ''issuer_name must not be empty''
     else
     try_bind (read_context reader) (\<lambda>(context, reader).
     try_bind (read_origins reader) (\<lambda>(origins, reader).
     if \<not> reader_empty reader then Err MALFORMED_DATA ''Trailing TokenChallenge data''
     else Ok \<lparr>tc_type = type, tc_issuer_name = bytes_str issuer_bytes, tc_redemption_context = context,
              tc_origin_info = origins, tc_cached_digest = None\<rparr>)))))
     (ByteReader_new data)"

subsection \<open>The origin list\<close>

definition origin_ok :: "string \<Rightarrow> bool" where
  "origin_ok e \<longleftrightarrow> e \<noteq> [] \<and> CHR '','' \<notin> set e"

text \<open>The joined string, and the list as the loops see it once they have an entry.\<close>

fun commas :: "string list \<Rightarrow> string" where
  "commas [] = []"
| "commas (x # xs) = CHR '','' # x @ commas xs"

lemma join_origins_commas: "0 < i \<Longrightarrow> join_origins xs res i = res @ commas xs"
  by (induction xs arbitrary: res i) auto

lemma origin_info_string_eq: "join_origins xs [] 0 = tl (commas xs)"
  by (cases xs) (simp_all add: join_origins_commas)

lemma origin_len_eq: "origin_len xs n i = n + length (commas xs) - (if i = 0 \<and> xs \<noteq> [] then 1 else 0)"
proof (induction xs arbitrary: n i)
  case (Cons x xs)
  show ?case using Cons.IH [of _ "i + 1"] by auto
qed simp

lemma commas_append [simp]: "commas (xs @ ys) = commas xs @ commas ys"
  by (induction xs) auto

lemma commas_Nil_iff [simp]: "commas xs = [] \<longleftrightarrow> xs = []"
  by (cases xs) auto

lemma takeWhile_entry:
  "CHR '','' \<notin> set e \<Longrightarrow> takeWhile (\<lambda>ch. ch \<noteq> CHR '','') (e @ commas xs) = e"
  "CHR '','' \<notin> set e \<Longrightarrow> dropWhile (\<lambda>ch. ch \<noteq> CHR '','') (e @ commas xs) = commas xs"
  by (induction e) (cases xs; auto)+

lemma parse_origins_Nil [simp]: "parse_origins [] acc = Ok acc"
  by (subst parse_origins.simps) simp

lemma parse_origins_commas:
  "list_all origin_ok xs \<Longrightarrow> length acc + length xs \<le> MAX_ORIGIN_ENTRIES \<Longrightarrow>
     parse_origins (tl (commas xs)) acc = Ok (acc @ xs)"
proof (induction xs arbitrary: acc)
  case (Cons x xs)
  then have x: "x \<noteq> []" "CHR '','' \<notin> set x" by (simp_all add: origin_ok_def)
  show ?case using Cons.prems Cons.IH [of "acc @ [x]"]
    by (subst parse_origins.simps) (simp add: x takeWhile_entry Let_def)
qed simp

text \<open>Whatever the loop accepts is a list of proper entries, and no longer than its input.\<close>

lemma takeWhile_no_comma: "CHR '','' \<notin> set (takeWhile (\<lambda>ch. ch \<noteq> CHR '','') s)"
  by (auto dest: set_takeWhileD)

lemma parse_origins_sound:
  "parse_origins s acc = Ok es \<Longrightarrow> list_all origin_ok acc \<Longrightarrow> length acc \<le> MAX_ORIGIN_ENTRIES \<Longrightarrow>
     list_all origin_ok es \<and> length es \<le> MAX_ORIGIN_ENTRIES
       \<and> length (commas es) \<le> length (commas acc) + length s + (if s = [] then 0 else 1)"
proof (induction s acc rule: parse_origins.induct)
  case (1 s acc)
  let ?entry = "takeWhile (\<lambda>ch. ch \<noteq> CHR '','') s"
  let ?found = "dropWhile (\<lambda>ch. ch \<noteq> CHR '','') s"
  let ?acc = "if ?entry \<noteq> [] then acc @ [?entry] else acc"
  have len: "length s = length ?entry + length ?found"
    by (metis length_append takeWhile_dropWhile_id)
  show ?case
  proof (cases "s = []")
    case True
    then show ?thesis using "1.prems" by simp
  next
    case ne: False
    then have few: "\<not> MAX_ORIGIN_ENTRIES \<le> length acc" using "1.prems"(1)
      by (subst (asm) parse_origins.simps) (simp split: if_splits)
    have "origin_ok ?entry" if "?entry \<noteq> []"
      unfolding origin_ok_def using that takeWhile_no_comma by blast
    then have acc: "list_all origin_ok ?acc" "length ?acc \<le> MAX_ORIGIN_ENTRIES"
        "length (commas ?acc) \<le> length (commas acc) + length ?entry + 1"
      using "1.prems"(2) few by simp_all
    show ?thesis
    proof (cases "?found = []")
      case True
      then have "es = ?acc" using "1.prems"(1) ne few
        by (subst (asm) parse_origins.simps) (simp add: Let_def split: if_splits)
      then show ?thesis using acc ne len by simp
    next
      case False
      have "parse_origins s acc = parse_origins (tl ?found) ?acc"
        by (subst parse_origins.simps) (simp only: Let_def ne few False if_False refl)
      then have "parse_origins (tl ?found) ?acc = Ok es" using "1.prems"(1) by simp
      from "1.IH" [OF ne few refl refl refl False this acc(1,2)] show ?thesis
        using acc(3) len ne False by (cases ?found) (auto split: if_splits)
    qed
  qed
qed

subsection \<open>Encodings\<close>

definition context_bytes :: "ChallengeDigest option \<Rightarrow> bytes" where
  "context_bytes context = (case context of Some ctx \<Rightarrow> 32 # ctx | None \<Rightarrow> [0])"

definition challenge_fits :: "TokenChallenge \<Rightarrow> bool" where
  "challenge_fits c \<longleftrightarrow> tc_issuer_name c \<noteq> [] \<and> length (tc_issuer_name c) \<le> 0xFFFF
     \<and> length (tl (commas (tc_origin_info c))) \<le> 0xFFFF"

definition challenge_wf :: "TokenChallenge \<Rightarrow> bool" where
  "challenge_wf c \<longleftrightarrow> challenge_fits c
     \<and> (\<forall>ctx. tc_redemption_context c = Some ctx \<longrightarrow> is_array 32 ctx)
     \<and> list_all origin_ok (tc_origin_info c) \<and> length (tc_origin_info c) \<le> MAX_ORIGIN_ENTRIES"

definition challenge_bytes :: "TokenChallenge \<Rightarrow> bytes" where
  "challenge_bytes c =
     be16 (tc_type c) @ be16 (word_of_nat (length (tc_issuer_name c))) @ str_bytes (tc_issuer_name c)
       @ context_bytes (tc_redemption_context c)
       @ be16 (word_of_nat (length (tl (commas (tc_origin_info c)))))
       @ str_bytes (tl (commas (tc_origin_info c)))"

lemma TokenChallenge_serialize_eq:
  "challenge_fits c \<Longrightarrow> TokenChallenge_serialize c = Ok (challenge_bytes c)"
  by (auto simp: TokenChallenge_serialize_def challenge_fits_def challenge_bytes_def context_bytes_def
      origin_info_string_def origin_info_string_eq writer_simps Let_def split: option.splits)

lemma TokenChallenge_serialize_Ok_iff:
  "TokenChallenge_serialize c = Ok bs \<longleftrightarrow> challenge_fits c \<and> bs = challenge_bytes c"
proof
  assume *: "TokenChallenge_serialize c = Ok bs"
  then have "challenge_fits c"
    by (auto simp: TokenChallenge_serialize_def challenge_fits_def origin_info_string_def
        origin_info_string_eq Let_def split: if_splits)
  with * show "challenge_fits c \<and> bs = challenge_bytes c" by (simp add: TokenChallenge_serialize_eq)
qed (simp add: TokenChallenge_serialize_eq)


lemma read_context_append:
  assumes "\<And>ctx. context = Some ctx \<Longrightarrow> length ctx = 32"
  shows "read_context (reader_at pre (context_bytes context @ ys))
    = Ok (context, reader_at (pre @ context_bytes context) ys)"
  using assms by (cases "context") (simp_all add: read_context_def context_bytes_def reader_simps)

lemma read_context_Ok:
  assumes "read_context (reader_at pre post) = Ok (context, r)"
  shows "\<exists>ys. post = context_bytes context @ ys \<and> r = reader_at (pre @ context_bytes context) ys
    \<and> (\<forall>ctx. context = Some ctx \<longrightarrow> length ctx = 32)"
  using assms
  by (auto simp: read_context_def context_bytes_def reader_simps reading_Ok_iffs split: if_splits)

lemma read_origins_commas:
  assumes "list_all origin_ok es" "length es \<le> MAX_ORIGIN_ENTRIES" "length (tl (commas es)) \<le> 0xFFFF"
  shows "read_origins (reader_at pre (be16 (word_of_nat (length (tl (commas es))))
      @ str_bytes (tl (commas es)) @ ys))
    = Ok (es, reader_at (pre @ be16 (word_of_nat (length (tl (commas es)))) @ str_bytes (tl (commas es))) ys)"
proof -
  define os where "os = tl (commas es)"
  have p: "parse_origins os [] = Ok es"
    using parse_origins_commas [of es "[]"] assms by (simp add: os_def)
  have u: "unat (word_of_nat (length os) :: u16) = length os"
    using assms(3) by (simp add: os_def unat_of_nat_u16)
  have "(0 :: u16) < word_of_nat (length os) \<longleftrightarrow> os \<noteq> []"
    by (simp add: word_less_nat_alt u del: unat_of_nat)
  then show ?thesis using p u
    unfolding os_def [symmetric] by (cases "os = []") (simp_all add: read_origins_def reader_simps)
qed

lemma read_origins_Ok:
  assumes "read_origins (reader_at pre post) = Ok (es, r)"
  shows "\<exists>xs ys. post = xs @ ys \<and> r = reader_at (pre @ xs) ys
    \<and> list_all origin_ok es \<and> length es \<le> MAX_ORIGIN_ENTRIES \<and> length (tl (commas es)) \<le> 0xFFFF"
proof -
  from assms obtain v bs where post: "post = be16 v @ bs"
    and r: "(if 0 < v then reading (read_bytes (unat v)) UNEXPECTED_END ''Failed to read origin_info''
         (\<lambda>origin_bytes reader.
            try_bind (parse_origins (bytes_str origin_bytes) []) (\<lambda>origins. Ok (origins, reader)))
         (reader_at (pre @ be16 v) bs) else Ok ([], reader_at (pre @ be16 v) bs)) = Ok (es, r)"
    unfolding read_origins_def reading_u16_Ok_iff by blast
  show ?thesis
  proof (cases "0 < v")
    case True
    with r obtain xs cs where "bs = xs @ cs" and lx: "length xs = unat v"
      and
      "parse_origins (bytes_str xs) [] = Ok es" "r = reader_at (pre @ be16 v @ xs) cs"
      by (auto simp: reading_bytes_Ok_iff result_iffs)
    moreover from this parse_origins_sound [of "bytes_str xs" "[]" es]
    have "list_all origin_ok es \<and> length es \<le> MAX_ORIGIN_ENTRIES
      \<and> length (commas es) \<le> length xs + (if bytes_str xs = [] then 0 else 1)" by simp
    moreover from this have "length (tl (commas es)) \<le> unat v" using lx by (auto split: if_splits)
    then have "length (tl (commas es)) \<le> 0xFFFF" using unat_u16_less [of v] by linarith
    ultimately show ?thesis using post
      by (rule_tac x = "be16 v @ xs" in exI, rule_tac x = cs in exI) auto
  next
    case False
    with r post show ?thesis by (rule_tac x = "be16 v" in exI, rule_tac x = bs in exI) simp
  qed
qed

lemma TokenChallenge_deserialize_serialize:
  assumes "challenge_wf c"
  shows "TokenChallenge_deserialize (challenge_bytes c) = Ok (c\<lparr>tc_cached_digest := None\<rparr>)"
proof -
  have i: "unat (word_of_nat (length (tc_issuer_name c)) :: u16) = length (tc_issuer_name c)"
    using assms by (intro unat_of_nat_u16) (simp add: challenge_wf_def challenge_fits_def)
  have i0: "(word_of_nat (length (tc_issuer_name c)) :: u16) \<noteq> 0"
    using assms by (metis i challenge_wf_def challenge_fits_def length_0_conv unat_0)
  have ctx: "\<And>ctx. tc_redemption_context c = Some ctx \<Longrightarrow> length ctx = 32"
    using assms by (simp add: challenge_wf_def is_array_def)
  have o: "list_all origin_ok (tc_origin_info c)" "length (tc_origin_info c) \<le> MAX_ORIGIN_ENTRIES"
    "length (tl (commas (tc_origin_info c))) \<le> 0xFFFF"
    using assms by (simp_all add: challenge_wf_def challenge_fits_def)
  show ?thesis using read_context_append [OF ctx] read_origins_commas [OF o, where ys = "[]"] i i0
    unfolding TokenChallenge_deserialize_def challenge_bytes_def
    by (simp add: reader_simps del: of_nat_eq_0_iff)
qed

lemma TokenChallenge_deserialize_wf:
  assumes "TokenChallenge_deserialize bs = Ok c"
  shows "challenge_wf c \<and> tc_cached_digest c = None"
proof -
  from assms obtain ty and il :: u16 and xs p1 y1 ctx r2 os r3 where
    xs: "il \<noteq> 0" "length xs = unat il"
    and rc: "read_context (reader_at p1 y1) = Ok (ctx, r2)"
    and ro: "read_origins r2 = Ok (os, r3)"
    and c: "c = \<lparr>tc_type = ty, tc_issuer_name = bytes_str xs, tc_redemption_context = ctx,
              tc_origin_info = os, tc_cached_digest = None\<rparr>"
    unfolding TokenChallenge_deserialize_def reader_simps reading_Ok_iffs
    by (auto simp: result_iffs split: if_splits)
  from read_context_Ok [OF rc] obtain pre ys where r2: "r2 = reader_at pre ys" and ctx: "\<forall>x. ctx = Some x \<longrightarrow> length x = 32"
    by blast
  have "list_all origin_ok os \<and> length os \<le> MAX_ORIGIN_ENTRIES \<and> length (tl (commas os)) \<le> 0xFFFF"
    using read_origins_Ok [OF ro [unfolded r2]] by blast
  moreover have "xs \<noteq> []" using xs by (metis length_0_conv unsigned_eq_0_iff)
  ultimately show ?thesis using ctx xs
    by (simp add: c challenge_wf_def challenge_fits_def is_array_def bytes_str_def)
qed

text \<open>A challenge that came off the wire re-encodes to something it is read back from.\<close>

lemma TokenChallenge_reencodes:
  assumes "TokenChallenge_deserialize bs = Ok c"
  shows "\<exists>cs. TokenChallenge_serialize c = Ok cs \<and> TokenChallenge_deserialize cs = Ok c"
  using TokenChallenge_deserialize_wf [OF assms] TokenChallenge_deserialize_serialize [of c]
  by (auto simp: TokenChallenge_serialize_Ok_iff challenge_wf_def)

interpretation challenge_wire: wire_format TokenChallenge_serialize TokenChallenge_deserialize
  "\<lambda>c. challenge_wf c \<and> tc_cached_digest c = None"
  by unfold_locales
    (auto simp: TokenChallenge_serialize_Ok_iff TokenChallenge_deserialize_serialize challenge_wf_def)

lemma TokenChallenge_serialize_length:
  assumes "challenge_fits c" "\<And>ctx. tc_redemption_context c = Some ctx \<Longrightarrow> is_array 32 ctx"
  shows "length (challenge_bytes c) = TokenChallenge_serialized_size c"
  using assms
  by (cases "tc_redemption_context c")
    (auto simp: challenge_bytes_def TokenChallenge_serialized_size_def context_bytes_def Let_def
      origin_len_eq is_array_def)

subsection \<open>The digest\<close>

text \<open>The result and the challenge after the call, whose mutable cache may have been filled.\<close>

definition TokenChallenge_digest ::
  "('md, 'kdf, 'z) hash_api_scheme \<Rightarrow> TokenChallenge \<Rightarrow> ChallengeDigest result \<times> TokenChallenge" where
  "TokenChallenge_digest L c =
     (case tc_cached_digest c of
        Some d \<Rightarrow> (Ok d, c)
      | None \<Rightarrow>
          (case TokenChallenge_serialize c of
             Inl e \<Rightarrow> (Inl e, c)
           | Inr serialized \<Rightarrow>
               (case sha256 L serialized of
                  Inl e \<Rightarrow> (Inl e, c)
                | Inr hash \<Rightarrow> (Ok hash, c\<lparr>tc_cached_digest := Some hash\<rparr>))))"

lemma TokenChallenge_digest_uncached:
  "tc_cached_digest c = None \<Longrightarrow>
     fst (TokenChallenge_digest L c) = try_bind (TokenChallenge_serialize c) (sha256 L)"
  by (simp add: TokenChallenge_digest_def try_bind_def split: sum.splits)

lemma TokenChallenge_digest_again:
  "TokenChallenge_digest L c = (Ok d, c') \<Longrightarrow>
     TokenChallenge_digest L c' = (Ok d, c') \<and> c'\<lparr>tc_cached_digest := tc_cached_digest c\<rparr> = c"
  by (auto simp: TokenChallenge_digest_def split: option.splits sum.splits)

lemma TokenChallenge_digest_documented:
  assumes "evp_documented L H" "challenge_fits c" "tc_cached_digest c = None"
  shows "TokenChallenge_digest L c =
     (Ok (H EVP_sha256 (challenge_bytes c)), c\<lparr>tc_cached_digest := Some (H EVP_sha256 (challenge_bytes c))\<rparr>)"
  using assms
  by (simp add: TokenChallenge_digest_def TokenChallenge_serialize_eq sha256_documented)

text \<open>The cache is not invalidated: a field changed after the first call is not covered.\<close>

lemma TokenChallenge_digest_stale:
  "tc_cached_digest c = Some d \<Longrightarrow>
     fst (TokenChallenge_digest L (c\<lparr>tc_issuer_name := name, tc_origin_info := origins\<rparr>)) = Ok d"
  by (simp add: TokenChallenge_digest_def)

end
