(* ===== verification/PP_Sample.thy ===== *)
theory PP_Sample
  imports PP_Hash PP_Token PP_Challenge
begin

text \<open>
  Concrete values for the witnesses: one digest implementation that behaves as
  \<open>evp_documented\<close> says, and a token and a challenge that satisfy the well-formedness
  predicates. They show that the hypotheses of the properties can hold; no property is
  about them.
\<close>

definition sample_digest :: "EVP_MD \<Rightarrow> bytes \<Rightarrow> bytes" where
  "sample_digest md data = take (md_len md) (data @ replicate (md_len md) 0)"

text \<open>A context holds the algorithm it was initialised for and the bytes fed so far.\<close>

definition sample_hash :: "(EVP_MD \<times> bytes, unit) hash_api" where
  "sample_hash =
     \<lparr>EVP_MD_CTX_new = Some (EVP_sha256, []),
      EVP_DigestInit_ex = (\<lambda>ctx md. (1, (md, []))),
      EVP_DigestUpdate = (\<lambda>ctx xs. (1, (fst ctx, snd ctx @ xs))),
      EVP_DigestFinal_ex = (\<lambda>ctx. (1, sample_digest (fst ctx) (snd ctx), md_len (fst ctx))),
      EVP_MD_size = md_len,
      HMAC_once = (\<lambda>md key data. Some (sample_digest md (key @ data), md_len md)),
      EVP_PKEY_CTX_new_hkdf = None,
      EVP_PKEY_derive_init = (\<lambda>ctx. (1, ctx)), set_hkdf_md = (\<lambda>ctx md. (1, ctx)),
      set1_hkdf_salt = (\<lambda>ctx salt. (1, ctx)), set1_hkdf_key = (\<lambda>ctx key. (1, ctx)),
      add1_hkdf_info = (\<lambda>ctx info. (1, ctx)), set_hkdf_mode = (\<lambda>ctx mode. (1, ctx)),
      EVP_PKEY_derive = (\<lambda>ctx n. (1, replicate n 0))\<rparr>"

lemma sample_hash_sel [simp]:
  "EVP_MD_CTX_new sample_hash = Some (EVP_sha256, [])"
  "EVP_DigestInit_ex sample_hash ctx md = (1, (md, []))"
  "EVP_DigestUpdate sample_hash ctx xs = (1, (fst ctx, snd ctx @ xs))"
  "EVP_DigestFinal_ex sample_hash ctx = (1, sample_digest (fst ctx) (snd ctx), md_len (fst ctx))"
  by (simp_all add: sample_hash_def)

lemma length_sample_digest [simp]: "length (sample_digest md data) = md_len md"
  by (simp add: sample_digest_def)

text \<open>Every library whose digest functions are these is documented to compute \<open>sample_digest\<close>.\<close>

lemma sample_digest_documented:
  assumes "EVP_MD_CTX_new L = Some (EVP_sha256, [])"
    and "\<And>ctx md. EVP_DigestInit_ex L ctx md = (1, (md, []))"
    and "\<And>ctx xs. EVP_DigestUpdate L ctx xs = (1, (fst ctx, snd ctx @ xs))"
    and "\<And>ctx. EVP_DigestFinal_ex L ctx = (1, sample_digest (fst ctx) (snd ctx), md_len (fst ctx))"
  shows "evp_documented L sample_digest"
proof -
  have "absorbs L md ctx data \<Longrightarrow> ctx = (md, data)" for md ctx data
    by (induction rule: absorbs.induct) (auto simp: assms)
  then show ?thesis by (auto simp: evp_documented_def assms)
qed

lemma sample_hash_documented: "evp_documented sample_hash sample_digest"
  by (rule sample_digest_documented) simp_all

definition sample_token :: Token where
  "sample_token =
     \<lparr>tok_type = BLIND_RSA, tok_nonce = replicate 32 7, tok_challenge_digest = replicate 32 8,
      tok_key_id = replicate 32 9, tok_authenticator = replicate 256 1\<rparr>"

lemma sample_token_wf: "token_wf sample_token"
  by (simp add: token_wf_iff token_arrays_def is_array_def sample_token_def is_valid_token_type_def
      for_type_def)

definition sample_challenge :: TokenChallenge where
  "sample_challenge =
     \<lparr>tc_type = BLIND_RSA, tc_issuer_name = ''issuer.example'',
      tc_redemption_context = Some (replicate 32 5), tc_origin_info = [''a.example'', ''b.example''],
      tc_cached_digest = None\<rparr>"

lemma sample_challenge_wf: "challenge_wf sample_challenge" "tc_cached_digest sample_challenge = None"
  by (simp_all add: challenge_wf_def challenge_fits_def sample_challenge_def origin_ok_def is_array_def
      MAX_ORIGIN_ENTRIES_def)

end
