(* ===== verification/PP_Nonce_Store.thy ===== *)
theory PP_Nonce_Store
  imports PP_Types
begin

text \<open>
  The contract of a replay store, which two components of the code provide: the bucketed
  \<open>ReplayCache\<close> of an origin and the entry queue of the token authenticator. A store adds
  a nonce at a time and answers whether the nonce is new. The laws say which answer it
  gives, what it remembers and for how long, as long as it is below its capacity. From
  them follows, once for both, that a nonce accepted at some time is not accepted again
  before it expires, whatever is added in between.
\<close>

fun run_adds :: "('time \<Rightarrow> 'n \<Rightarrow> 's \<Rightarrow> bool \<times> 's) \<Rightarrow> ('time \<times> 'n) list \<Rightarrow> 's \<Rightarrow> bool list \<times> 's" where
  "run_adds add [] s = ([], s)"
| "run_adds add ((t, n) # adds) s =
     (case add t n s of (b, s') \<Rightarrow>
        (case run_adds add adds s' of (bs, s'') \<Rightarrow> (b # bs, s'')))"

text \<open>Adds in the order in which a monotonic clock can time them, starting at \<open>t\<close>.\<close>

fun in_order :: "'time::linorder \<Rightarrow> ('time \<times> 'n) list \<Rightarrow> bool" where
  "in_order t [] \<longleftrightarrow> True"
| "in_order t ((t', n) # adds) \<longleftrightarrow> t \<le> t' \<and> in_order t' adds"

locale nonce_store =
  fixes add :: "'time::linorder \<Rightarrow> 'n \<Rightarrow> 's \<Rightarrow> bool \<times> 's"
    and recorded :: "'s \<Rightarrow> 'n \<Rightarrow> 'time option"
    and used :: "'s \<Rightarrow> nat"
    and inv :: "'time \<Rightarrow> 's \<Rightarrow> bool"
    and expired :: "'time \<Rightarrow> 'time \<Rightarrow> bool"
    and cap :: nat
  assumes add_inv: "inv t s \<Longrightarrow> t \<le> t' \<Longrightarrow> inv t' (snd (add t' n s))"
    and add_records: "inv t s \<Longrightarrow> t \<le> t' \<Longrightarrow> fst (add t' n s) \<Longrightarrow> recorded (snd (add t' n s)) n = Some t'"
    and add_accepts: "inv t s \<Longrightarrow> t \<le> t' \<Longrightarrow>
      (case recorded s n of None \<Rightarrow> True | Some u \<Rightarrow> expired u t') \<Longrightarrow> fst (add t' n s)"
    and add_rejects: "inv t s \<Longrightarrow> t \<le> t' \<Longrightarrow> used s < cap \<Longrightarrow>
      recorded s n = Some u \<Longrightarrow> \<not> expired u t' \<Longrightarrow> \<not> fst (add t' n s)"
    and add_keeps: "inv t s \<Longrightarrow> t \<le> t' \<Longrightarrow> used s < cap \<Longrightarrow>
      recorded s n = Some u \<Longrightarrow> \<not> expired u t' \<Longrightarrow> recorded (snd (add t' m s)) n = Some u"
    and add_used: "inv t s \<Longrightarrow> t \<le> t' \<Longrightarrow> used (snd (add t' n s)) \<le> Suc (used s)"
    and expired_mono: "expired u t \<Longrightarrow> t \<le> t' \<Longrightarrow> expired u t'"
begin

lemma add_decision:
  assumes "inv t s" "t \<le> t'" "used s < cap"
  shows "fst (add t' n s) \<longleftrightarrow> (case recorded s n of None \<Rightarrow> True | Some u \<Rightarrow> expired u t')"
  using assms add_accepts [of t s t' n] add_rejects [of t s t' n] by (auto split: option.splits)

text \<open>While a record is not expired, no later add of its nonce is accepted.\<close>

lemma run_rejects:
  assumes "inv t s" "in_order t adds" "used s + length adds \<le> cap"
    and "recorded s n = Some u" "\<forall>(t', m) \<in> set adds. \<not> expired u t'"
  shows "\<forall>i < length adds. snd (adds ! i) = n \<longrightarrow> \<not> fst (run_adds add adds s) ! i"
  using assms
proof (induction adds arbitrary: t s)
  case (Cons a adds)
  obtain t' m where a: "a = (t', m)" by (cases a)
  obtain b s' where step: "add t' m s = (b, s')" by (cases "add t' m s")
  have le: "t \<le> t'" and o: "in_order t' adds" using Cons.prems(2) by (simp_all add: a)
  have room: "used s < cap" using Cons.prems(3) by simp
  have ne: "\<not> expired u t'" using Cons.prems(5) by (auto simp: a)
  have i: "inv t' s'" using add_inv [OF Cons.prems(1) le, of m] by (simp add: step)
  have r: "recorded s' n = Some u"
    using add_keeps [OF Cons.prems(1) le room Cons.prems(4) ne, of m] by (simp add: step)
  have us: "used s' + length adds \<le> cap"
    using add_used [OF Cons.prems(1) le, of m] Cons.prems(3) by (simp add: step)
  have "\<forall>(t', m) \<in> set adds. \<not> expired u t'" using Cons.prems(5) by simp
  note rest = Cons.IH [OF i o us r this]
  have hd: "m = n \<longrightarrow> \<not> b"
    using add_rejects [OF Cons.prems(1) le room Cons.prems(4) ne] step by auto
  show ?case using rest hd by (auto simp: a step nth_Cons' split: prod.splits)
qed simp

theorem accepted_once:
  assumes "inv t0 s" "t0 \<le> t" "fst (add t n s)" "in_order t adds"
    and "used s + 1 + length adds \<le> cap" "\<forall>(t', m) \<in> set adds. \<not> expired t t'"
  shows "\<forall>i < length adds. snd (adds ! i) = n \<longrightarrow> \<not> fst (run_adds add adds (snd (add t n s))) ! i"
proof (rule run_rejects [OF add_inv [OF assms(1,2)] assms(4) _ add_records [OF assms(1-3)] assms(6)])
  show "used (snd (add t n s)) + length adds \<le> cap"
    using add_used [OF assms(1,2), of n] assms(5) by simp
qed

lemma run_inv:
  "inv t s \<Longrightarrow> in_order t adds \<Longrightarrow> \<exists>t'. inv t' (snd (run_adds add adds s))"
proof (induction adds arbitrary: t s)
  case (Cons a adds)
  obtain t' m where a: "a = (t', m)" by (cases a)
  have "inv t' (snd (add t' m s))" "in_order t' adds"
    using Cons.prems add_inv by (auto simp: a)
  from Cons.IH [OF this] show ?case by (auto simp: a split: prod.splits)
qed auto

end

text \<open>
  A redeemer holds a store and redeems tokens: a call leaves the store alone or adds the
  nonce of its token, and accepts only when the nonce was new. Each of the three
  components that redeem tokens is one.
\<close>

fun run_redeems :: "('c \<Rightarrow> 'o \<Rightarrow> 'r \<times> 'o) \<Rightarrow> 'c list \<Rightarrow> 'o \<Rightarrow> 'r list \<times> 'o" where
  "run_redeems redeem [] x = ([], x)"
| "run_redeems redeem (c # cs) x =
     (case redeem c x of (r, x') \<Rightarrow>
        (case run_redeems redeem cs x' of (rs, x'') \<Rightarrow> (r # rs, x'')))"

locale redeemer = nonce_store add recorded used inv expired cap
  for add :: "'time::linorder \<Rightarrow> 'n \<Rightarrow> 's \<Rightarrow> bool \<times> 's"
    and recorded :: "'s \<Rightarrow> 'n \<Rightarrow> 'time option"
    and used :: "'s \<Rightarrow> nat"
    and inv :: "'time \<Rightarrow> 's \<Rightarrow> bool"
    and expired :: "'time \<Rightarrow> 'time \<Rightarrow> bool"
    and cap :: nat +
  fixes redeem :: "'c \<Rightarrow> 'o \<Rightarrow> 'r \<times> 'o"
    and store :: "'o \<Rightarrow> 's"
    and time_of :: "'c \<Rightarrow> 'time"
    and nonce_of :: "'c \<Rightarrow> 'n"
    and accepted :: "'r \<Rightarrow> bool"
  assumes inv_mono: "inv t s \<Longrightarrow> t \<le> t' \<Longrightarrow> inv t' s"
    and redeem_store: "store (snd (redeem c x)) = store x
      \<or> store (snd (redeem c x)) = snd (add (time_of c) (nonce_of c) (store x))"
    and redeem_adds: "accepted (fst (redeem c x)) \<Longrightarrow>
      fst (add (time_of c) (nonce_of c) (store x))
      \<and> store (snd (redeem c x)) = snd (add (time_of c) (nonce_of c) (store x))"
begin

lemma recorded_stays_rejected:
  assumes "inv t (store x)" "in_order t (map (\<lambda>c. (time_of c, nonce_of c)) cs)"
    and "used (store x) + length cs \<le> cap" "recorded (store x) n = Some u"
    and "\<forall>c \<in> set cs. \<not> expired u (time_of c)"
  shows "\<forall>i < length cs. nonce_of (cs ! i) = n \<longrightarrow> \<not> accepted (fst (run_redeems redeem cs x) ! i)"
  using assms
proof (induction cs arbitrary: t x)
  case (Cons c cs)
  obtain r x' where step: "redeem c x = (r, x')" by (cases "redeem c x")
  let ?a = "add (time_of c) (nonce_of c) (store x)"
  have le: "t \<le> time_of c" and o: "in_order (time_of c) (map (\<lambda>c. (time_of c, nonce_of c)) cs)"
    and room: "used (store x) < cap" and ne: "\<not> expired u (time_of c)" "\<forall>c \<in> set cs. \<not> expired u (time_of c)"
    using Cons.prems by simp_all
  have s: "store x' = store x \<or> store x' = snd ?a" using redeem_store [of c x] by (simp add: step)
  have i: "inv (time_of c) (store x')" using s inv_mono [OF Cons.prems(1) le] add_inv [OF Cons.prems(1) le] by auto
  have rec: "recorded (store x') n = Some u"
    using s add_keeps [OF Cons.prems(1) le room Cons.prems(4) ne(1)] Cons.prems(4) by auto
  have us: "used (store x') + length cs \<le> cap"
    using s add_used [OF Cons.prems(1) le, of "nonce_of c"] Cons.prems(3) by auto
  have hd: "nonce_of c = n \<longrightarrow> \<not> accepted r"
    using redeem_adds [of c x] add_rejects [OF Cons.prems(1) le room Cons.prems(4) ne(1)] by (auto simp: step)
  show ?case using Cons.IH [OF i o us rec ne(2)] hd by (auto simp: step nth_Cons' split: prod.splits)
qed simp

theorem redeemed_once:
  assumes "inv t0 (store x)" "t0 \<le> time_of c" "accepted (fst (redeem c x))"
    and "in_order (time_of c) (map (\<lambda>c. (time_of c, nonce_of c)) cs)"
    and "used (store x) + 1 + length cs \<le> cap" "\<forall>c' \<in> set cs. \<not> expired (time_of c) (time_of c')"
  shows "\<forall>i < length cs. nonce_of (cs ! i) = nonce_of c \<longrightarrow>
    \<not> accepted (fst (run_redeems redeem cs (snd (redeem c x))) ! i)"
proof (rule recorded_stays_rejected [OF _ assms(4) _ _ assms(6)])
  note a = redeem_adds [OF assms(3)]
  show "inv (time_of c) (store (snd (redeem c x)))" using a add_inv [OF assms(1,2)] by simp
  show "used (store (snd (redeem c x))) + length cs \<le> cap"
    using a add_used [OF assms(1,2), of "nonce_of c"] assms(5) by simp
  show "recorded (store (snd (redeem c x))) (nonce_of c) = Some (time_of c)"
    using a add_records [OF assms(1,2)] by simp
qed

lemma redeemed_twice:
  assumes "inv t0 (store x)" "t0 \<le> time_of c" "accepted (fst (redeem c x))"
    and "time_of c \<le> time_of c'" "nonce_of c' = nonce_of c" "used (store x) + 2 \<le> cap"
    and "\<not> expired (time_of c) (time_of c')"
  shows "\<not> accepted (fst (redeem c' (snd (redeem c x))))"
  using redeemed_once [OF assms(1-3), of "[c']"] assms(4-7) by (simp split: prod.splits)

end

end
