(* ===== verification/PP_Replay.thy ===== *)
theory PP_Replay
  imports PP_Nonce_Store
begin

text \<open>
  \<open>ReplayCache\<close> of src/core/origin.cpp: nonces in one bucket per second of a monotonic
  clock, a queue of the bucket keys, and the set of all nonces. A time point is the
  number of nanoseconds since the cache was built; ticks are \<open>uint64_t\<close> seconds. The
  mutex makes each operation one step. The cache is a replay store while it is below its
  capacity; its size is bounded only after the first window has passed.
\<close>

record ReplayCache =
  rc_buckets :: "u64 \<rightharpoonup> Nonce set"
  rc_all_nonces :: "Nonce set"
  rc_bucket_order :: "u64 list"
  rc_window_seconds :: u64
  rc_max_size :: nat

text \<open>The signed 64-bit count of seconds is cast to \<open>uint64_t\<close>.\<close>

definition ReplayCache_new :: "int \<Rightarrow> nat \<Rightarrow> ReplayCache" where
  "ReplayCache_new window max_size =
     \<lparr>rc_buckets = Map.empty, rc_all_nonces = {}, rc_bucket_order = [],
      rc_window_seconds = word_of_int window, rc_max_size = max_size\<rparr>"

definition current_tick :: "nat \<Rightarrow> u64" where
  "current_tick elapsed = word_of_nat (elapsed div 1000000000)"

text \<open>The shared body of the two pruning loops: the oldest bucket and its nonces go.\<close>

definition drop_front :: "ReplayCache \<Rightarrow> ReplayCache" where
  "drop_front c =
     (let k = hd (rc_bucket_order c);
          c = (case rc_buckets c k of
                 Some nonces \<Rightarrow> c\<lparr>rc_all_nonces := rc_all_nonces c - nonces,
                                  rc_buckets := (rc_buckets c)(k := None)\<rparr>
               | None \<Rightarrow> c)
      in c\<lparr>rc_bucket_order := tl (rc_bucket_order c)\<rparr>)"

lemma drop_front_order [simp]: "rc_bucket_order (drop_front c) = tl (rc_bucket_order c)"
  by (simp add: drop_front_def Let_def split: option.splits)

lemma drop_front_config [simp]:
  "rc_window_seconds (drop_front c) = rc_window_seconds c" "rc_max_size (drop_front c) = rc_max_size c"
  by (simp_all add: drop_front_def Let_def split: option.splits)

function drop_expired :: "u64 \<Rightarrow> ReplayCache \<Rightarrow> ReplayCache" where
  "drop_expired cutoff c =
     (if rc_bucket_order c \<noteq> [] \<and> hd (rc_bucket_order c) \<le> cutoff then drop_expired cutoff (drop_front c)
      else c)"
  by pat_completeness auto
termination
  by (relation "measure (\<lambda>(_, c). length (rc_bucket_order c))") auto

function drop_oversize :: "ReplayCache \<Rightarrow> ReplayCache" where
  "drop_oversize c =
     (if rc_max_size c < card (rc_all_nonces c) \<and> rc_bucket_order c \<noteq> [] then drop_oversize (drop_front c)
      else c)"
  by pat_completeness auto
termination
  by (relation "measure (\<lambda>c. length (rc_bucket_order c))") auto

declare drop_expired.simps [simp del] drop_oversize.simps [simp del]

definition prune_expired :: "u64 \<Rightarrow> ReplayCache \<Rightarrow> ReplayCache" where
  "prune_expired now_tick c =
     (if now_tick < rc_window_seconds c then c
      else
        (let cutoff = now_tick - rc_window_seconds c
         in drop_oversize (drop_expired cutoff c)))"

definition check_and_add_at :: "u64 \<Rightarrow> Nonce \<Rightarrow> ReplayCache \<Rightarrow> bool \<times> ReplayCache" where
  "check_and_add_at tick nonce c =
     (let c = prune_expired tick c
      in if nonce \<in> rc_all_nonces c then (False, c)
         else
           (let c = c\<lparr>rc_all_nonces := insert nonce (rc_all_nonces c)\<rparr>;
                bucket = (case rc_buckets c tick of None \<Rightarrow> {} | Some nonces \<Rightarrow> nonces);
                c = (if bucket = {} then c\<lparr>rc_bucket_order := rc_bucket_order c @ [tick]\<rparr> else c)
            in (True, c\<lparr>rc_buckets := (rc_buckets c)(tick := Some (insert nonce bucket))\<rparr>)))"

definition check_and_add :: "nat \<Rightarrow> Nonce \<Rightarrow> ReplayCache \<Rightarrow> bool \<times> ReplayCache" where
  "check_and_add elapsed nonce c = check_and_add_at (current_tick elapsed) nonce c"

definition rc_contains :: "ReplayCache \<Rightarrow> Nonce \<Rightarrow> bool" where
  "rc_contains c nonce \<longleftrightarrow> nonce \<in> rc_all_nonces c"

definition rc_prune :: "nat \<Rightarrow> ReplayCache \<Rightarrow> ReplayCache" where
  "rc_prune elapsed c = prune_expired (current_tick elapsed) c"

definition rc_size :: "ReplayCache \<Rightarrow> nat" where
  "rc_size c = card (rc_all_nonces c)"

subsection \<open>The representation invariant\<close>

definition in_bucket :: "ReplayCache \<Rightarrow> u64 \<Rightarrow> Nonce \<Rightarrow> bool" where
  "in_bucket c k n \<longleftrightarrow> (case rc_buckets c k of None \<Rightarrow> False | Some nonces \<Rightarrow> n \<in> nonces)"

text \<open>
  Keys are queued in increasing order, exactly the queued keys have buckets, buckets are
  not empty and disjoint, and the deduplication set is their union.
\<close>

definition rc_ok :: "ReplayCache \<Rightarrow> bool" where
  "rc_ok c \<longleftrightarrow>
     sorted_wrt (<) (rc_bucket_order c) \<and> dom (rc_buckets c) = set (rc_bucket_order c) \<and>
     (\<forall>k nonces. rc_buckets c k = Some nonces \<longrightarrow> nonces \<noteq> {} \<and> finite nonces) \<and>
     (\<forall>k l n. in_bucket c k n \<longrightarrow> in_bucket c l n \<longrightarrow> k = l) \<and>
     (\<forall>n. n \<in> rc_all_nonces c \<longleftrightarrow> (\<exists>k. in_bucket c k n))"

definition rc_inv :: "u64 \<Rightarrow> nat \<Rightarrow> u64 \<Rightarrow> ReplayCache \<Rightarrow> bool" where
  "rc_inv w m t c \<longleftrightarrow>
     rc_ok c \<and> rc_window_seconds c = w \<and> rc_max_size c = m \<and> (\<forall>k \<in> set (rc_bucket_order c). k \<le> t)"

text \<open>The tick at which a nonce was recorded.\<close>

definition rc_recorded :: "ReplayCache \<Rightarrow> Nonce \<Rightarrow> u64 option" where
  "rc_recorded c n = List.find (\<lambda>k. in_bucket c k n) (rc_bucket_order c)"

definition rc_expired :: "u64 \<Rightarrow> u64 \<Rightarrow> u64 \<Rightarrow> bool" where
  "rc_expired w k now \<longleftrightarrow> w \<le> now \<and> k \<le> now - w"

lemma rc_ok_new: "rc_ok (ReplayCache_new w m)"
  by (simp add: rc_ok_def ReplayCache_new_def in_bucket_def)

lemma rc_inv_new: "rc_inv (word_of_int w) m t (ReplayCache_new w m)"
  using rc_ok_new [of w m] by (simp add: rc_inv_def) (simp add: ReplayCache_new_def)

lemma in_bucket_order: "rc_ok c \<Longrightarrow> in_bucket c k n \<Longrightarrow> k \<in> set (rc_bucket_order c)"
  by (auto simp: rc_ok_def in_bucket_def dom_def split: option.splits)

lemma rc_ok_unique: "rc_ok c \<Longrightarrow> in_bucket c k n \<Longrightarrow> in_bucket c l n \<Longrightarrow> k = l"
  by (simp add: rc_ok_def)

lemma rc_ok_all: "rc_ok c \<Longrightarrow> n \<in> rc_all_nonces c \<longleftrightarrow> (\<exists>k. in_bucket c k n)"
  by (simp add: rc_ok_def)

lemma rc_recorded_Some_iff: "rc_ok c \<Longrightarrow> rc_recorded c n = Some k \<longleftrightarrow> in_bucket c k n"
proof
  assume "rc_recorded c n = Some k"
  then show "in_bucket c k n" by (auto simp: rc_recorded_def find_Some_iff)
next
  assume ok: "rc_ok c" and k: "in_bucket c k n"
  then have "rc_recorded c n \<noteq> None"
    using in_bucket_order [OF ok k] by (auto simp: rc_recorded_def find_None_iff)
  then obtain l where l: "rc_recorded c n = Some l" by blast
  then have "in_bucket c l n" by (auto simp: rc_recorded_def find_Some_iff)
  then show "rc_recorded c n = Some k" using l rc_ok_unique [OF ok k] by simp
qed

lemma rc_recorded_None_iff: "rc_ok c \<Longrightarrow> rc_recorded c n = None \<longleftrightarrow> n \<notin> rc_all_nonces c"
  using rc_recorded_Some_iff [of c n] rc_ok_all [of c n] by (metis option.exhaust option.distinct(1))

lemma finite_all_nonces:
  assumes "rc_ok c"
  shows "finite (rc_all_nonces c)"
proof -
  have "rc_all_nonces c \<subseteq> (\<Union>k \<in> set (rc_bucket_order c). {n. in_bucket c k n})"
    using rc_ok_all [OF assms] in_bucket_order [OF assms] by blast
  moreover have "finite {n. in_bucket c k n}" for k
    using assms by (cases "rc_buckets c k") (auto simp: rc_ok_def in_bucket_def)
  ultimately show ?thesis by (meson finite_UN_I finite_set rev_finite_subset)
qed

subsection \<open>Dropping buckets\<close>

lemma in_bucket_drop_front:
  assumes ok: "rc_ok c" and ne: "rc_bucket_order c \<noteq> []"
  shows "in_bucket (drop_front c) k n \<longleftrightarrow> in_bucket c k n \<and> k \<noteq> hd (rc_bucket_order c)"
proof -
  have "hd (rc_bucket_order c) \<in> dom (rc_buckets c)" using ok ne by (simp add: rc_ok_def)
  then obtain ns where "rc_buckets c (hd (rc_bucket_order c)) = Some ns" by blast
  then show ?thesis by (auto simp: in_bucket_def drop_front_def)
qed

lemma rc_ok_drop_front:
  assumes ok: "rc_ok c" and ne: "rc_bucket_order c \<noteq> []"
  shows "rc_ok (drop_front c)"
proof -
  let ?k = "hd (rc_bucket_order c)"
  obtain ks where order: "rc_bucket_order c = ?k # ks" using ne by (cases "rc_bucket_order c") auto
  have sorted: "sorted_wrt (<) (?k # ks)" using ok order by (metis rc_ok_def)
  then have notin: "?k \<notin> set ks" by auto
  have "?k \<in> dom (rc_buckets c)" using ok ne by (simp add: rc_ok_def)
  then obtain ns where ns: "rc_buckets c ?k = Some ns" by blast
  have b: "rc_buckets (drop_front c) = (rc_buckets c)(?k := None)"
    and a: "rc_all_nonces (drop_front c) = rc_all_nonces c - ns"
    by (simp_all add: drop_front_def ns)
  have "dom (rc_buckets c) = insert ?k (set ks)" using ok order by (metis rc_ok_def list.simps(15))
  then have "dom (rc_buckets (drop_front c)) = set (rc_bucket_order (drop_front c))"
    using notin order by (simp add: b) (metis Diff_insert_absorb list.sel(3))
  moreover have "n \<in> rc_all_nonces (drop_front c) \<longleftrightarrow> (\<exists>k. in_bucket (drop_front c) k n)" for n
  proof -
    have "n \<in> ns \<longleftrightarrow> in_bucket c ?k n" by (simp add: in_bucket_def ns)
    then show ?thesis
      using rc_ok_all [OF ok] rc_ok_unique [OF ok] in_bucket_drop_front [OF ok ne] by (auto simp: a)
  qed
  moreover have "sorted_wrt (<) (rc_bucket_order (drop_front c))"
    using sorted order by (metis drop_front_order list.sel(3) sorted_wrt.simps(2))
  moreover have "\<forall>k nonces. rc_buckets (drop_front c) k = Some nonces \<longrightarrow> nonces \<noteq> {} \<and> finite nonces"
    using ok by (auto simp: b rc_ok_def)
  moreover have "\<forall>k l n. in_bucket (drop_front c) k n \<longrightarrow> in_bucket (drop_front c) l n \<longrightarrow> k = l"
    using rc_ok_unique [OF ok] in_bucket_drop_front [OF ok ne] by blast
  ultimately show ?thesis unfolding rc_ok_def by blast
qed

lemma drop_expired_ok:
  assumes "rc_ok c"
  shows "rc_ok (drop_expired cutoff c)
    \<and> (\<forall>k n. in_bucket (drop_expired cutoff c) k n \<longleftrightarrow> in_bucket c k n \<and> cutoff < k)
    \<and> set (rc_bucket_order (drop_expired cutoff c)) \<subseteq> set (rc_bucket_order c)
    \<and> rc_window_seconds (drop_expired cutoff c) = rc_window_seconds c
    \<and> rc_max_size (drop_expired cutoff c) = rc_max_size c"
  using assms
proof (induction cutoff c rule: drop_expired.induct)
  case (1 cutoff c)
  show ?case
  proof (cases "rc_bucket_order c \<noteq> [] \<and> hd (rc_bucket_order c) \<le> cutoff")
    case True
    then have ne: "rc_bucket_order c \<noteq> []" by blast
    have eq: "drop_expired cutoff c = drop_expired cutoff (drop_front c)"
      by (subst drop_expired.simps) (simp add: True)
    have "set (tl (rc_bucket_order c)) \<subseteq> set (rc_bucket_order c)" by (cases "rc_bucket_order c") auto
    then show ?thesis
      using "1.IH" [OF True rc_ok_drop_front [OF "1.prems" ne]] True
        in_bucket_drop_front [OF "1.prems" ne]
      unfolding eq by auto
  next
    case False
    have eq: "drop_expired cutoff c = c" by (subst drop_expired.simps) (use False in auto)
    have "cutoff < k" if "in_bucket c k n" for k n
    proof -
      have k: "k \<in> set (rc_bucket_order c)" by (rule in_bucket_order [OF "1.prems" that])
      then obtain h ks where o: "rc_bucket_order c = h # ks" by (cases "rc_bucket_order c") auto
      have "sorted_wrt (<) (h # ks)" using "1.prems" o by (metis rc_ok_def)
      then have "h \<le> k" using k o by auto
      then show ?thesis using False o by auto
    qed
    then show ?thesis using "1.prems" by (auto simp: eq)
  qed
qed

lemma drop_oversize_ok:
  assumes "rc_ok c"
  shows "rc_ok (drop_oversize c)
    \<and> (\<forall>k n. in_bucket (drop_oversize c) k n \<longrightarrow> in_bucket c k n)
    \<and> set (rc_bucket_order (drop_oversize c)) \<subseteq> set (rc_bucket_order c)
    \<and> card (rc_all_nonces (drop_oversize c)) \<le> rc_max_size c
    \<and> rc_window_seconds (drop_oversize c) = rc_window_seconds c
    \<and> rc_max_size (drop_oversize c) = rc_max_size c"
  using assms
proof (induction c rule: drop_oversize.induct)
  case (1 c)
  show ?case
  proof (cases "rc_max_size c < card (rc_all_nonces c) \<and> rc_bucket_order c \<noteq> []")
    case True
    then have ne: "rc_bucket_order c \<noteq> []" by blast
    have eq: "drop_oversize c = drop_oversize (drop_front c)"
      by (subst drop_oversize.simps) (simp add: True)
    have "set (tl (rc_bucket_order c)) \<subseteq> set (rc_bucket_order c)" by (cases "rc_bucket_order c") auto
    then show ?thesis
      using "1.IH" [OF True rc_ok_drop_front [OF "1.prems" ne]] in_bucket_drop_front [OF "1.prems" ne]
      unfolding eq by auto
  next
    case False
    have eq: "drop_oversize c = c" by (subst drop_oversize.simps) (use False in auto)
    have "card (rc_all_nonces c) \<le> rc_max_size c"
    proof (cases "rc_bucket_order c = []")
      case True
      have "rc_all_nonces c = {}"
      proof (rule ccontr)
        assume "rc_all_nonces c \<noteq> {}"
        then obtain n where "n \<in> rc_all_nonces c" by blast
        then obtain k where "in_bucket c k n" using rc_ok_all [OF "1.prems"] by blast
        with in_bucket_order [OF "1.prems"] True show False by fastforce
      qed
      then show ?thesis by simp
    qed (use False in auto)
    then show ?thesis using "1.prems" by (simp add: eq)
  qed
qed

lemma drop_oversize_id: "card (rc_all_nonces c) \<le> rc_max_size c \<Longrightarrow> drop_oversize c = c"
  by (subst drop_oversize.simps) auto

lemma prune_cases:
  assumes "rc_inv w m t c" "t \<le> t'"
  shows "rc_inv w m t' (prune_expired t' c)"
    and "in_bucket (prune_expired t' c) k n \<Longrightarrow> in_bucket c k n \<and> \<not> rc_expired w k t'"
    and "card (rc_all_nonces c) \<le> m \<Longrightarrow> in_bucket c k n \<Longrightarrow> \<not> rc_expired w k t' \<Longrightarrow>
           in_bucket (prune_expired t' c) k n"
    and "w \<le> t' \<Longrightarrow> card (rc_all_nonces (prune_expired t' c)) \<le> m"
    and "rc_all_nonces (prune_expired t' c) \<subseteq> rc_all_nonces c"
proof -
  have ok: "rc_ok c" and w: "rc_window_seconds c = w" and m: "rc_max_size c = m"
    and le: "\<forall>k \<in> set (rc_bucket_order c). k \<le> t'"
    using assms by (auto simp: rc_inv_def intro: order_trans)
  let ?e = "drop_expired (t' - w) c"
  note e = drop_expired_ok [OF ok, of "t' - w"]
  note o = drop_oversize_ok [of ?e]
  have p: "prune_expired t' c = (if t' < w then c else drop_oversize ?e)"
    by (simp add: prune_expired_def w Let_def)
  show inv: "rc_inv w m t' (prune_expired t' c)"
    using e o ok le w m by (auto simp: p rc_inv_def)
  show sub: "in_bucket c k n \<and> \<not> rc_expired w k t'" if "in_bucket (prune_expired t' c) k n" for k n
  proof -
    have "in_bucket c k n \<and> (t' < w \<or> t' - w < k)"
      using that e o unfolding p by (metis (full_types))
    then show ?thesis by (auto simp: rc_expired_def)
  qed
  show all: "rc_all_nonces (prune_expired t' c) \<subseteq> rc_all_nonces c"
  proof
    have "rc_ok (prune_expired t' c)" using inv by (simp add: rc_inv_def)
    then show "x \<in> rc_all_nonces c" if "x \<in> rc_all_nonces (prune_expired t' c)" for x
      using that sub rc_ok_all [OF ok] rc_ok_all by metis
  qed
  show "card (rc_all_nonces (prune_expired t' c)) \<le> m" if "w \<le> t'"
    using that e o m by (simp add: p not_less)
  show "in_bucket (prune_expired t' c) k n"
    if few: "card (rc_all_nonces c) \<le> m" and k: "in_bucket c k n" "\<not> rc_expired w k t'"
  proof -
    have "rc_all_nonces ?e \<subseteq> rc_all_nonces c" using e rc_ok_all [OF ok] rc_ok_all [of ?e] by auto
    then have "card (rc_all_nonces ?e) \<le> m"
      using few card_mono [OF finite_all_nonces [OF ok]] by (meson le_trans)
    then have "drop_oversize ?e = ?e" using e m by (intro drop_oversize_id) simp
    then show ?thesis using k e by (auto simp: p rc_expired_def not_le not_less)
  qed
qed

subsection \<open>Adding\<close>

lemma fst_check_and_add_at:
  "fst (check_and_add_at t n c) \<longleftrightarrow> n \<notin> rc_all_nonces (prune_expired t c)"
  by (simp add: check_and_add_at_def Let_def)

lemma in_bucket_check_and_add_at:
  "in_bucket (snd (check_and_add_at t n c)) k x \<longleftrightarrow>
     in_bucket (prune_expired t c) k x \<or> fst (check_and_add_at t n c) \<and> k = t \<and> x = n"
  by (auto simp: check_and_add_at_def in_bucket_def Let_def split: option.splits)

lemma rc_inv_insert:
  assumes inv: "rc_inv w m t c" and new: "n \<notin> rc_all_nonces c"
    and bucket: "bucket = (case rc_buckets c t of None \<Rightarrow> {} | Some nonces \<Rightarrow> nonces)"
  shows "rc_inv w m t (c\<lparr>rc_all_nonces := insert n (rc_all_nonces c),
    rc_bucket_order := (if bucket = {} then rc_bucket_order c @ [t] else rc_bucket_order c),
    rc_buckets := (rc_buckets c)(t \<mapsto> insert n bucket)\<rparr>)" (is "rc_inv w m t ?c")
proof -
  have ok: "rc_ok c" and le: "\<forall>k \<in> set (rc_bucket_order c). k \<le> t" using inv by (auto simp: rc_inv_def)
  have ib: "in_bucket ?c k x \<longleftrightarrow> in_bucket c k x \<or> k = t \<and> x = n" for k x
    by (auto simp: in_bucket_def bucket split: option.splits)
  have empty: "bucket = {} \<longleftrightarrow> t \<notin> set (rc_bucket_order c)"
  proof -
    have "t \<in> set (rc_bucket_order c) \<longleftrightarrow> t \<in> dom (rc_buckets c)" using ok by (simp add: rc_ok_def)
    moreover have "nonces \<noteq> {}" if "rc_buckets c t = Some nonces" for nonces
      using that ok by (simp add: rc_ok_def)
    ultimately show ?thesis by (auto simp: bucket split: option.splits)
  qed
  have "sorted_wrt (<) (rc_bucket_order ?c)"
    using ok le empty by (auto simp: rc_ok_def sorted_wrt_append order_less_le)
  moreover have "dom (rc_buckets ?c) = set (rc_bucket_order ?c)"
    using ok empty by (auto simp: rc_ok_def)
  moreover have "\<forall>k nonces. rc_buckets ?c k = Some nonces \<longrightarrow> nonces \<noteq> {} \<and> finite nonces"
    using ok by (auto simp: rc_ok_def bucket split: option.splits)
  moreover have "\<forall>k l x. in_bucket ?c k x \<longrightarrow> in_bucket ?c l x \<longrightarrow> k = l"
    using rc_ok_unique [OF ok] new rc_ok_all [OF ok] unfolding ib by blast
  moreover have "\<forall>x. x \<in> rc_all_nonces ?c \<longleftrightarrow> (\<exists>k. in_bucket ?c k x)"
    unfolding ib using rc_ok_all [OF ok] by auto
  ultimately have "rc_ok ?c" unfolding rc_ok_def by blast
  then show ?thesis using inv by (auto simp: rc_inv_def)
qed

lemma rc_inv_check_and_add_at:
  assumes "rc_inv w m t c" "t \<le> t'"
  shows "rc_inv w m t' (snd (check_and_add_at t' n c))"
proof -
  let ?p = "prune_expired t' c"
  note p = prune_cases(1) [OF assms]
  show ?thesis
  proof (cases "n \<in> rc_all_nonces ?p")
    case False
    have "snd (check_and_add_at t' n c) = ?p\<lparr>rc_all_nonces := insert n (rc_all_nonces ?p),
      rc_bucket_order := (if (case rc_buckets ?p t' of None \<Rightarrow> {} | Some nonces \<Rightarrow> nonces) = {}
         then rc_bucket_order ?p @ [t'] else rc_bucket_order ?p),
      rc_buckets := (rc_buckets ?p)(t' \<mapsto> insert n (case rc_buckets ?p t' of None \<Rightarrow> {} | Some nonces \<Rightarrow> nonces))\<rparr>"
      using False by (simp add: check_and_add_at_def Let_def)
    then show ?thesis using rc_inv_insert [OF p False refl] by simp
  qed (use p in \<open>simp add: check_and_add_at_def Let_def\<close>)
qed

lemma card_check_and_add_at:
  assumes "rc_inv w m t c" "t \<le> t'"
  shows "card (rc_all_nonces (snd (check_and_add_at t' n c))) \<le> Suc (card (rc_all_nonces (prune_expired t' c)))"
  by (simp add: check_and_add_at_def Let_def card_insert_le_m1 card_insert_if)

lemma rc_inv_ok: "rc_inv w m t c \<Longrightarrow> rc_ok c"
  by (simp add: rc_inv_def)

interpretation replay: nonce_store check_and_add_at rc_recorded rc_size "rc_inv w m" "rc_expired w" "Suc m"
  for w m
proof unfold_locales
  fix t t' :: u64 and c n
  assume inv: "rc_inv w m t c" and le: "t \<le> t'"
  let ?p = "prune_expired t' c"
  note p = prune_cases [OF inv le]
  note inv' = rc_inv_check_and_add_at [OF inv le]
  note rec = rc_recorded_Some_iff [OF rc_inv_ok [OF inv]]
  note rec' = rc_recorded_Some_iff [OF rc_inv_ok [OF inv']]
  note pok = rc_inv_ok [OF p(1)]
  show "rc_inv w m t' (snd (check_and_add_at t' n c))" by (rule inv')
  show "rc_recorded (snd (check_and_add_at t' n c)) n = Some t'" if "fst (check_and_add_at t' n c)"
    using that by (simp add: rec' in_bucket_check_and_add_at)
  show "fst (check_and_add_at t' n c)"
    if "case rc_recorded c n of None \<Rightarrow> True | Some u \<Rightarrow> rc_expired w u t'"
  proof -
    have "\<not> in_bucket ?p k n" for k
      using that p(2) [of k n] rec [of n k] by (auto split: option.splits)
    then show ?thesis by (simp add: fst_check_and_add_at rc_ok_all [OF pok])
  qed
  show "rc_size (snd (check_and_add_at t' n c)) \<le> Suc (rc_size c)"
    using card_check_and_add_at [OF inv le, of n]
      card_mono [OF finite_all_nonces [OF rc_inv_ok [OF inv]] p(5)]
    by (simp add: rc_size_def)
  fix u
  assume few: "rc_size c < Suc m" and n: "rc_recorded c n = Some u" and live: "\<not> rc_expired w u t'"
  have kept: "in_bucket ?p u n" using p(3) [of u n] few n live by (simp add: rec rc_size_def)
  then show "\<not> fst (check_and_add_at t' n c)"
    by (auto simp: fst_check_and_add_at rc_ok_all [OF pok])
  show "rc_recorded (snd (check_and_add_at t' x c)) n = Some u" for x
    using kept by (simp add: rec' in_bucket_check_and_add_at)
next
  fix u t t'
  assume "rc_expired w u t" "t \<le> t'"
  then show "rc_expired w u t'"
    by (auto simp: rc_expired_def word_le_nat_alt unat_sub)
qed

text \<open>After the first window the cache holds at most one nonce more than its configured maximum.\<close>

lemma rc_size_bound:
  assumes "rc_inv w m t c" "t \<le> t'" "w \<le> t'"
  shows "rc_size (snd (check_and_add_at t' n c)) \<le> Suc m"
  using card_check_and_add_at [OF assms(1,2), of n] prune_cases(4) [OF assms]
  by (simp add: rc_size_def)

text \<open>Before it, nothing is dropped.\<close>

lemma rc_unbounded_before_window:
  assumes "t' < rc_window_seconds c" "n \<notin> rc_all_nonces c" "finite (rc_all_nonces c)"
  shows "fst (check_and_add_at t' n c) \<and> rc_size (snd (check_and_add_at t' n c)) = Suc (rc_size c)"
  using assms by (simp add: check_and_add_at_def prune_expired_def rc_size_def Let_def)

end
