(* ===== verification/PP_Auth_Scheme.thy ===== *)
theory PP_Auth_Scheme
  imports PP_Token PP_Challenge "HOL-Library.Sublist"
begin

text \<open>
  The PrivateToken HTTP authentication scheme of src/http/auth_scheme.cpp: the parameter
  parser, the splitter of a header that carries several challenges, the WWW-Authenticate
  and Authorization headers with their formatters and parsers. A \<open>string_view\<close> that the code
  advances is the list of the characters that are left. \<open>char\<close> is signed, as on the
  supported targets, so that bytes from 128 on count as control characters. Headers the
  library builds are parsed back to what they were built from, any number of challenges
  in one header included.
\<close>

subsection \<open>Parameters\<close>

definition is_ows :: "char \<Rightarrow> bool" where
  "is_ows c \<longleftrightarrow> c = CHR '' '' \<or> c = CHR 0x09"

definition skip_ows :: "string \<Rightarrow> string" where
  "skip_ows input = dropWhile is_ows input"

definition trim_back :: "string \<Rightarrow> string" where
  "trim_back key = rev (dropWhile is_ows (rev key))"

definition key_char_rejected :: "char \<Rightarrow> bool" where
  "key_char_rejected c \<longleftrightarrow>
     (of_char c :: nat) \<le> 0x20 \<or> (128 :: nat) \<le> of_char c \<or> c = CHR 0x7F \<or> c = CHR 0x22 \<or>
     c \<in> {CHR ''('', CHR '')'', CHR '','', CHR ''/'', CHR '':'', CHR '';'', CHR ''<'', CHR ''='',
          CHR ''>'', CHR ''?'', CHR ''@'', CHR ''['', CHR 0x5C, CHR '']'', CHR ''{'', CHR ''}''}"

fun quoted_string :: "string \<Rightarrow> bool \<Rightarrow> string \<Rightarrow> (string \<times> string) option" where
  "quoted_string [] escaped val = None"
| "quoted_string (c # input) escaped val =
     (if escaped then quoted_string input False (val @ [c])
      else if c = CHR 0x5C then quoted_string input True val
      else if c = CHR 0x22 then Some (val, input)
      else quoted_string input False (val @ [c]))"

definition token_end :: "char \<Rightarrow> bool" where
  "token_end c \<longleftrightarrow> c = CHR '','' \<or> is_ows c"

definition param_value :: "string \<Rightarrow> (string \<times> string) option" where
  "param_value input =
     (if hd input = CHR 0x22 then quoted_string (tl input) False []
      else Some (takeWhile (\<lambda>c. \<not> token_end c) input, dropWhile (\<lambda>c. \<not> token_end c) input))"

definition skip_separator :: "string \<Rightarrow> string" where
  "skip_separator input =
     (let input = skip_ows input;
          input = (if input \<noteq> [] \<and> hd input = CHR '','' then tl input else input)
      in skip_ows input)"

definition parse_auth_param :: "string \<Rightarrow> ((string \<times> string) \<times> string) option" where
  "parse_auth_param input =
     (let input = skip_ows input in
      if input = [] then None
      else
        (let before = takeWhile (\<lambda>c. c \<noteq> CHR ''='') input;
             after = dropWhile (\<lambda>c. c \<noteq> CHR ''='') input
         in if after = [] \<or> before = [] then None
            else
              (let key = trim_back before
               in if list_ex key_char_rejected key then None
                  else if key = [] then None
                  else
                    (let input = skip_ows (tl after)
                     in if input = [] then None
                        else
                          (case param_value input of
                             None \<Rightarrow> None
                           | Some (val, input) \<Rightarrow> Some ((key, val), skip_separator input))))))"

subsection \<open>Splitting a header into challenges\<close>

function split_loop :: "string \<Rightarrow> nat \<Rightarrow> bool \<Rightarrow> bool \<Rightarrow> nat \<Rightarrow> string list \<Rightarrow> string list" where
  "split_loop header i in_quote escaped start challenges =
     (if i < length header then
        (let c = header ! i in
         if escaped then split_loop header (i + 1) in_quote False start challenges
         else if in_quote \<and> c = CHR 0x5C then split_loop header (i + 1) in_quote True start challenges
         else if c = CHR 0x22 then split_loop header (i + 1) (\<not> in_quote) escaped start challenges
         else if in_quote \<or> c \<noteq> CHR '','' then split_loop header (i + 1) in_quote escaped start challenges
         else
           (let next = i + 1 + length (takeWhile is_ows (drop (i + 1) header))
            in if prefix ''PrivateToken '' (drop next header) then
                 split_loop header (i + 1) in_quote escaped next
                   (challenges @ [take (i - start) (drop start header)])
               else split_loop header (i + 1) in_quote escaped start challenges))
      else challenges @ [drop start header])"
  by pat_completeness auto
termination
  by (relation "measure (\<lambda>(header, i, _). length header - i)") auto

declare split_loop.simps [simp del]

definition split_private_token_challenges :: "string \<Rightarrow> string list" where
  "split_private_token_challenges header = split_loop header 0 False False 0 []"

subsection \<open>Integers\<close>

definition is_space :: "char \<Rightarrow> bool" where
  "is_space c \<longleftrightarrow> c \<in> {CHR '' '', CHR 0x09, CHR 0x0A, CHR 0x0B, CHR 0x0C, CHR 0x0D}"

definition is_digit :: "char \<Rightarrow> bool" where
  "is_digit c \<longleftrightarrow> (48 :: nat) \<le> of_char c \<and> of_char c \<le> (57 :: nat)"

definition digits_value :: "string \<Rightarrow> nat" where
  "digits_value ds = foldl (\<lambda>n c. 10 * n + (of_char c - 48)) 0 ds"

text \<open>
  \<open>std::stoul\<close> in base 10: leading white space, a sign, as many digits as there are; \<open>None\<close>
  is an exception. A negative number is negated as an \<open>unsigned long\<close> of 64 bits.
\<close>

definition stoul :: "string \<Rightarrow> nat option" where
  "stoul s =
     (let s = dropWhile is_space s;
          negative = (s \<noteq> [] \<and> hd s = CHR ''-'');
          s = (if s \<noteq> [] \<and> (hd s = CHR ''-'' \<or> hd s = CHR ''+'') then tl s else s);
          ds = takeWhile is_digit s;
          n = digits_value ds
      in if ds = [] then None
         else if 18446744073709551615 < n then None
         else if negative then Some ((18446744073709551616 - n) mod 18446744073709551616)
         else Some n)"

subsection \<open>Challenge headers\<close>

record ChallengeHeader =
  ch_challenge :: string
  ch_token_key :: "string option"
  ch_max_age :: "u32 option"

definition ChallengeHeader_format :: "ChallengeHeader \<Rightarrow> string" where
  "ChallengeHeader_format h =
     (let result = ''PrivateToken challenge='' @ [CHR 0x22];
          result = result @ ch_challenge h;
          result = result @ [CHR 0x22];
          result = (case ch_token_key h of
              Some key \<Rightarrow> ((result @ '', token-key='' @ [CHR 0x22]) @ key) @ [CHR 0x22]
            | None \<Rightarrow> result)
      in case ch_max_age h of
           Some n \<Rightarrow> (result @ '', max-age='') @ to_string (unat n)
         | None \<Rightarrow> result)"

definition challenge_param :: "string \<Rightarrow> string \<Rightarrow> ChallengeHeader \<Rightarrow> ChallengeHeader" where
  "challenge_param key val h =
     (if key = ''challenge'' then h\<lparr>ch_challenge := val\<rparr>
      else if key = ''token-key'' then h\<lparr>ch_token_key := Some val\<rparr>
      else if key = ''max-age'' then
        (case stoul val of
           None \<Rightarrow> h
         | Some n \<Rightarrow> if n \<le> 4294967295 then h\<lparr>ch_max_age := Some (word_of_nat n)\<rparr> else h)
      else h)"

lemma length_skip_ows: "length (skip_ows s) \<le> length s"
  by (simp add: skip_ows_def length_dropWhile_le)

lemma quoted_string_shorter: "quoted_string s e v = Some (w, rest) \<Longrightarrow> length rest < length s"
  by (induction s e v rule: quoted_string.induct) (auto split: if_splits intro: less_SucI)

lemma parse_auth_param_shorter:
  assumes "parse_auth_param s = Some (kv, rest)"
  shows "length rest < length s"
proof -
  let ?after = "dropWhile (\<lambda>c. c \<noteq> CHR ''='') (skip_ows s)"
  from assms obtain val rest' where "?after \<noteq> []" and v: "param_value (skip_ows (tl ?after)) = Some (val, rest')"
    and rest: "rest = skip_separator rest'"
    by (auto simp: parse_auth_param_def Let_def split: if_splits option.splits)
  have "length rest \<le> length rest'"
    using length_skip_ows [of rest'] length_skip_ows [of "tl (skip_ows rest')"] length_skip_ows [of "skip_ows rest'"]
    by (auto simp: rest skip_separator_def Let_def)
  also have "length rest' \<le> length (skip_ows (tl ?after))"
    using v quoted_string_shorter [of "tl (skip_ows (tl ?after))" False "[]" val rest']
    by (auto simp: param_value_def length_dropWhile_le split: if_splits)
  also have "\<dots> \<le> length (tl ?after)" by (rule length_skip_ows)
  also have "\<dots> < length ?after" using \<open>?after \<noteq> []\<close> by (cases ?after) auto
  also have "\<dots> \<le> length (skip_ows s)" by (rule length_dropWhile_le)
  also have "\<dots> \<le> length s" by (rule length_skip_ows)
  finally show ?thesis .
qed

text \<open>The parameter loop, over the assignment that the header makes for a parameter.\<close>

function param_loop :: "(string \<Rightarrow> string \<Rightarrow> 'h \<Rightarrow> 'h) \<Rightarrow> string \<Rightarrow> 'h \<Rightarrow> 'h" where
  "param_loop assign input h =
     (if input = [] then h
      else
        (case parse_auth_param input of
           None \<Rightarrow> h
         | Some ((key, val), rest) \<Rightarrow> param_loop assign rest (assign key val h)))"
  by pat_completeness auto
termination
  by (relation "measure (\<lambda>(_, input, _). length input)") (auto dest: parse_auth_param_shorter)

declare param_loop.simps [simp del]

fun parse_challenges :: "string list \<Rightarrow> ChallengeHeader list \<Rightarrow> ChallengeHeader list result" where
  "parse_challenges [] results = Ok results"
| "parse_challenges (challenge # rest) results =
     (if \<not> prefix ''PrivateToken '' challenge then Err INVALID_HEADER ''Not a PrivateToken header''
      else
        (let result = param_loop challenge_param (drop 13 challenge)
                        \<lparr>ch_challenge = [], ch_token_key = None, ch_max_age = None\<rparr>
         in if ch_challenge result = [] then Err MISSING_PARAMETER ''Missing challenge parameter''
            else parse_challenges rest (results @ [result])))"

definition parse_all :: "string \<Rightarrow> ChallengeHeader list result" where
  "parse_all header = parse_challenges (split_private_token_challenges header) []"

definition ChallengeHeader_parse :: "string \<Rightarrow> ChallengeHeader result" where
  "ChallengeHeader_parse header =
     try_bind (parse_all header) (\<lambda>all.
       if all = [] then Err INVALID_HEADER ''No PrivateToken challenge'' else Ok (all ! 0))"

definition decode_challenge :: "ChallengeHeader \<Rightarrow> TokenChallenge result" where
  "decode_challenge h = try_bind (b64_decode (ch_challenge h)) TokenChallenge_deserialize"

definition decode_token_key :: "ChallengeHeader \<Rightarrow> bytes result" where
  "decode_token_key h =
     (case ch_token_key h of
        None \<Rightarrow> Err MISSING_PARAMETER ''Missing token-key parameter''
      | Some key \<Rightarrow> b64_decode key)"

definition build_www_authenticate :: "TokenChallenge \<Rightarrow> bytes \<Rightarrow> u32 option \<Rightarrow> string result" where
  "build_www_authenticate challenge token_key max_age =
     try_bind (TokenChallenge_serialize challenge) (\<lambda>serialized.
       Ok (ChallengeHeader_format
             \<lparr>ch_challenge = b64_encode_padded serialized,
              ch_token_key = Some (b64_encode_padded token_key), ch_max_age = max_age\<rparr>))"

subsection \<open>Authorization headers\<close>

record AuthorizationHeader =
  ah_token :: string

definition AuthorizationHeader_format :: "AuthorizationHeader \<Rightarrow> string" where
  "AuthorizationHeader_format h = ''PrivateToken token='' @ [CHR 0x22] @ ah_token h @ [CHR 0x22]"

definition authorization_param :: "string \<Rightarrow> string \<Rightarrow> AuthorizationHeader \<Rightarrow> AuthorizationHeader" where
  "authorization_param key val h = (if key = ''token'' then h\<lparr>ah_token := val\<rparr> else h)"

definition AuthorizationHeader_parse :: "string \<Rightarrow> AuthorizationHeader result" where
  "AuthorizationHeader_parse header =
     (if \<not> prefix ''PrivateToken '' header then Err INVALID_HEADER ''Not a PrivateToken header''
      else
        (let result = param_loop authorization_param (drop 13 header) \<lparr>ah_token = []\<rparr>
         in if ah_token result = [] then Err MISSING_PARAMETER ''Missing token parameter''
            else Ok result))"

definition decode_token :: "AuthorizationHeader \<Rightarrow> Token result" where
  "decode_token h = try_bind (b64_decode (ah_token h)) Token_deserialize"

definition build_authorization :: "Token \<Rightarrow> string result" where
  "build_authorization token =
     try_bind (Token_serialize token) (\<lambda>serialized.
       Ok (AuthorizationHeader_format \<lparr>ah_token = b64_encode_padded serialized\<rparr>))"

definition parse_authorization :: "string \<Rightarrow> Token result" where
  "parse_authorization header = try_bind (AuthorizationHeader_parse header) decode_token"

subsection \<open>Parsing a parameter that was formatted\<close>

text \<open>Text that needs no escape between quotes, and keys that pass the token check.\<close>

definition quotable :: "string \<Rightarrow> bool" where
  "quotable v \<longleftrightarrow> CHR 0x22 \<notin> set v \<and> CHR 0x5C \<notin> set v"

definition key_ok :: "string \<Rightarrow> bool" where
  "key_ok k \<longleftrightarrow> k \<noteq> [] \<and> \<not> list_ex key_char_rejected k"

lemma quoted_string_quotable:
  "quotable v \<Longrightarrow> quoted_string (v @ CHR 0x22 # rest) False w = Some (w @ v, rest)"
  by (induction v arbitrary: w) (auto simp: quotable_def)

lemma ows_rejected: "is_ows c \<Longrightarrow> key_char_rejected c"
  unfolding is_ows_def key_char_rejected_def by (elim disjE) simp_all

lemma eq_rejected: "key_char_rejected (CHR ''='')"
  by (simp add: key_char_rejected_def)

lemma key_ok_chars: "key_ok k \<Longrightarrow> c \<in> set k \<Longrightarrow> \<not> is_ows c \<and> c \<noteq> CHR ''=''"
  using ows_rejected eq_rejected by (auto simp: key_ok_def list_ex_iff)

lemma skip_ows_id: "s = [] \<or> \<not> is_ows (hd s) \<Longrightarrow> skip_ows s = s"
  by (cases s) (auto simp: skip_ows_def)

lemma trim_back_key:
  assumes "key_ok k"
  shows "trim_back k = k"
proof -
  have "k \<noteq> []" using assms by (simp add: key_ok_def)
  then have "\<not> is_ows (hd (rev k))" using key_ok_chars [OF assms, of "last k"] by (simp add: hd_rev)
  then have "dropWhile is_ows (rev k) = rev k" by (cases "rev k") auto
  then show ?thesis by (simp add: trim_back_def)
qed

lemma parse_auth_param_key:
  assumes k: "key_ok k" and v: "v \<noteq> []" "\<not> is_ows (hd v)"
  shows "parse_auth_param (k @ CHR ''='' # v) =
    (case param_value v of None \<Rightarrow> None | Some (val, input) \<Rightarrow> Some ((k, val), skip_separator input))"
proof -
  have ne: "k \<noteq> []" using k by (simp add: key_ok_def)
  have "\<not> is_ows (hd (k @ CHR ''='' # v))" using ne key_ok_chars [OF k, of "hd k"] by simp
  then have skip: "skip_ows (k @ CHR ''='' # v) = k @ CHR ''='' # v" by (intro skip_ows_id) simp
  have all: "\<forall>c \<in> set k. c \<noteq> CHR ''=''" using key_ok_chars [OF k] by blast
  then have tw: "takeWhile (\<lambda>c. c \<noteq> CHR ''='') (k @ CHR ''='' # v) = k"
    and dw: "dropWhile (\<lambda>c. c \<noteq> CHR ''='') (k @ CHR ''='' # v) = CHR ''='' # v"
    by (simp_all add: takeWhile_append2 dropWhile_append2)
  have v': "skip_ows v = v" using v by (intro skip_ows_id) simp
  have ok: "\<not> list_ex key_char_rejected k" using k by (simp add: key_ok_def)
  show ?thesis
    unfolding parse_auth_param_def Let_def skip tw dw trim_back_key [OF k] list.sel v'
    using ne v(1) ok by (simp split: option.splits)
qed

lemma parse_auth_param_quoted:
  assumes "key_ok k" "quotable v"
  shows "parse_auth_param (k @ CHR ''='' # CHR 0x22 # v @ CHR 0x22 # rest) = Some ((k, v), skip_separator rest)"
  using assms parse_auth_param_key [of k "CHR 0x22 # v @ CHR 0x22 # rest"]
  by (simp add: param_value_def quoted_string_quotable is_ows_def)

lemma parse_auth_param_token:
  assumes "key_ok k" "v \<noteq> []" "hd v \<noteq> CHR 0x22" "\<forall>c \<in> set v. \<not> token_end c"
  shows "parse_auth_param (k @ CHR ''='' # v) = Some ((k, v), [])"
proof -
  have "\<not> is_ows (hd v)" using assms by (simp add: token_end_def)
  then have p: "parse_auth_param (k @ CHR ''='' # v) =
      (case param_value v of None \<Rightarrow> None | Some (val, input) \<Rightarrow> Some ((k, val), skip_separator input))"
    using assms by (intro parse_auth_param_key)
  have "takeWhile (\<lambda>c. \<not> token_end c) v = v" using assms(4) by simp
  moreover have "dropWhile (\<lambda>c. \<not> token_end c) v = []" using assms(4) by simp
  ultimately have "param_value v = Some (v, [])" using assms(3) by (simp only: param_value_def if_False)
  then show ?thesis by (simp add: p skip_separator_def skip_ows_def)
qed

lemma param_loop_Nil [simp]: "param_loop assign [] h = h"
  by (subst param_loop.simps) simp

lemma param_loop_Some:
  "parse_auth_param input = Some ((key, val), rest) \<Longrightarrow>
     param_loop assign input h = param_loop assign rest (assign key val h)"
  by (subst param_loop.simps) (auto simp: parse_auth_param_def skip_ows_def)

lemma skip_separator_Nil [simp]: "skip_separator [] = []"
  by (simp add: skip_separator_def skip_ows_def)

lemma skip_separator_comma:
  "s = [] \<or> \<not> is_ows (hd s) \<Longrightarrow> skip_separator (CHR '','' # CHR '' '' # s) = s"
  by (simp add: skip_separator_def skip_ows_id) (simp add: skip_ows_def is_ows_def skip_ows_id [unfolded skip_ows_def])

subsection \<open>Decimal numbers\<close>

lemma to_string_less: "n < 10 \<Longrightarrow> to_string n = [char_of (n + 48)]"
  by (subst to_string.simps) simp

lemma to_string_ge: "\<not> n < 10 \<Longrightarrow> to_string n = to_string (n div 10) @ [char_of (n mod 10 + 48)]"
  by (subst to_string.simps) simp

lemma to_string_digits: "to_string n \<noteq> [] \<and> (\<forall>c \<in> set (to_string n). is_digit c)"
proof (induction n rule: to_string.induct)
  case (1 n)
  have d: "m < 10 \<Longrightarrow> is_digit (char_of (m + 48))" for m :: nat
    by (simp add: is_digit_def)
  show ?case
  proof (cases "n < 10")
    case True
    then show ?thesis using d by (simp add: to_string_less)
  next
    case False
    then show ?thesis using "1.IH" d [of "n mod 10"] by (simp add: to_string_ge)
  qed
qed

lemma digits_value_to_string: "digits_value (to_string n) = n"
proof (induction n rule: to_string.induct)
  case (1 n)
  show ?case
  proof (cases "n < 10")
    case True
    then show ?thesis by (simp add: to_string_less digits_value_def)
  next
    case False
    then show ?thesis using "1.IH" by (simp add: to_string_ge digits_value_def)
  qed
qed

lemma digit_not_special: "is_digit c \<Longrightarrow> \<not> is_space c \<and> c \<noteq> CHR ''-'' \<and> c \<noteq> CHR ''+'' \<and> \<not> token_end c \<and> c \<noteq> CHR 0x22 \<and> c \<noteq> CHR 0x5C"
  by (auto simp: is_digit_def is_space_def token_end_def is_ows_def)

lemma stoul_to_string: "n \<le> 18446744073709551615 \<Longrightarrow> stoul (to_string n) = Some n"
proof -
  assume n: "n \<le> 18446744073709551615"
  obtain c cs where s: "to_string n = c # cs" using to_string_digits [of n] by (cases "to_string n") auto
  have all: "\<forall>d \<in> set (c # cs). is_digit d" using to_string_digits [of n] s by simp
  then have c: "\<not> is_space c" "c \<noteq> CHR ''-''" "c \<noteq> CHR ''+''" using digit_not_special [of c] by auto
  have t: "takeWhile is_digit (c # cs) = c # cs" using all by (auto simp: takeWhile_eq_all_conv)
  have v: "digits_value (c # cs) = n" using digits_value_to_string [of n] s by simp
  show ?thesis using n c by (simp add: stoul_def s Let_def t v del: takeWhile.simps)
qed

subsection \<open>Splitting what was formatted\<close>

text \<open>The splitter as a recursion on what is left, with the current segment as accumulator.\<close>

function split_spec :: "string \<Rightarrow> bool \<Rightarrow> bool \<Rightarrow> string \<Rightarrow> string list" where
  "split_spec [] q e cur = [cur]"
| "split_spec (c # cs) q e cur =
     (if e then split_spec cs q False (cur @ [c])
      else if q \<and> c = CHR 0x5C then split_spec cs q True (cur @ [c])
      else if c = CHR 0x22 then split_spec cs (\<not> q) False (cur @ [c])
      else if q \<or> c \<noteq> CHR '','' then split_spec cs q False (cur @ [c])
      else if prefix ''PrivateToken '' (skip_ows cs) then cur # split_spec (skip_ows cs) False False []
      else split_spec cs q False (cur @ [c]))"
  by pat_completeness auto
termination
  by (relation "measure (\<lambda>(s, _). length s)") (auto simp: le_imp_less_Suc length_skip_ows)

lemma split_loop_skip:
  assumes "i \<le> start" "start \<le> length h" "\<forall>j. i \<le> j \<and> j < start \<longrightarrow> is_ows (h ! j)"
  shows "split_loop h i False False start' acc = split_loop h start False False start' acc"
  using assms
proof (induction "start - i" arbitrary: i)
  case (Suc n)
  then have i: "i < start" by simp
  have "is_ows (h ! i)" using Suc.prems(3) i by blast
  then have "split_loop h i False False start' acc = split_loop h (i + 1) False False start' acc"
    using i Suc.prems(2) by (subst split_loop.simps) (auto simp: is_ows_def Let_def)
  also have "\<dots> = split_loop h start False False start' acc"
    using Suc.hyps(2) Suc.prems i by (intro Suc.hyps(1)) auto
  finally show ?case .
qed simp

text \<open>The characters skipped after a comma are all optional white space.\<close>

lemma ows_run_nth:
  assumes "i < length h" "i + 1 \<le> j" "j < i + 1 + length (takeWhile is_ows (drop (i + 1) h))"
  shows "is_ows (h ! j)"
proof -
  let ?ws = "takeWhile is_ows (drop (i + 1) h)"
  have k: "j - (i + 1) < length ?ws" using assms by simp
  then have "?ws ! (j - (i + 1)) \<in> set ?ws" by (rule nth_mem)
  then have "is_ows (drop (i + 1) h ! (j - (i + 1)))" using takeWhile_nth [OF k] by (metis set_takeWhileD)
  then show ?thesis using assms(1,2) by simp
qed

lemma split_loop_spec:
  "start \<le> i \<Longrightarrow> i \<le> length h \<Longrightarrow>
     split_loop h i q e start acc = acc @ split_spec (drop i h) q e (take (i - start) (drop start h))"
proof (induction "length h - i" arbitrary: i q e start acc rule: less_induct)
  case less
  show ?case
  proof (cases "i < length h")
    case False
    then have "i = length h" using less.prems by simp
    then show ?thesis by (subst split_loop.simps) simp
  next
    case True
    let ?cur = "take (i - start) (drop start h)"
    have d: "drop i h = h ! i # drop (i + 1) h" using True by (simp add: Cons_nth_drop_Suc)
    have cur: "take (i + 1 - start) (drop start h) = ?cur @ [h ! i]"
      using less.prems True by (simp add: Suc_diff_le take_Suc_conv_app_nth)
    have IH: "split_loop h (i + 1) q' e' start acc = acc @ split_spec (drop (i + 1) h) q' e' (?cur @ [h ! i])" for q' e'
      using less.hyps [of "i + 1" start q' e' acc] less.prems True cur by simp
    show ?thesis
    proof (cases "\<not> e \<and> \<not> q \<and> h ! i = CHR '',''")
      case False
      then show ?thesis using True
        by (subst split_loop.simps) (auto simp: d IH [unfolded Suc_eq_plus1 [symmetric]] Let_def)
    next
      case comma: True
      define ws where "ws = takeWhile is_ows (drop (i + 1) h)"
      define nxt where "nxt = i + 1 + length ws"
      have rest: "drop nxt h = skip_ows (drop (i + 1) h)"
        by (simp add: nxt_def ws_def skip_ows_def dropWhile_eq_drop add.commute)
      have nl: "nxt \<le> length h" using True length_takeWhile_le [of is_ows "drop (i + 1) h"]
        by (simp add: nxt_def ws_def)
      have eq: "split_loop h i q e start acc =
          (if prefix ''PrivateToken '' (drop nxt h)
           then split_loop h (i + 1) False False nxt (acc @ [?cur])
           else split_loop h (i + 1) False False start acc)"
        using True comma by (subst split_loop.simps) (simp add: Let_def nxt_def ws_def)
      show ?thesis
      proof (cases "prefix ''PrivateToken '' (drop nxt h)")
        case p: True
        have "is_ows (h ! j)" if "i + 1 \<le> j" "j < nxt" for j
          using ows_run_nth [OF True that(1)] that(2) by (simp add: nxt_def ws_def)
        then have "split_loop h (i + 1) False False nxt (acc @ [?cur])
            = split_loop h nxt False False nxt (acc @ [?cur])"
          using nl by (intro split_loop_skip) (auto simp: nxt_def)
        also have "\<dots> = (acc @ [?cur]) @ split_spec (drop nxt h) False False []"
          using less.hyps [of nxt nxt False False "acc @ [?cur]"] nl True by (simp add: nxt_def)
        finally show ?thesis using p comma eq by (simp add: d rest)
      next
        case np: False
        then show ?thesis using comma IH [of False False] eq by (simp add: d rest)
      qed
    qed
  qed
qed

lemma split_challenges_spec: "split_private_token_challenges h = split_spec h False False []"
  using split_loop_spec [of 0 0 h False False "[]"] by (simp add: split_private_token_challenges_def)

text \<open>Text that the splitter passes over, starting and ending outside quotes.\<close>

definition neutral :: "string \<Rightarrow> bool" where
  "neutral s \<longleftrightarrow> (\<forall>ys cur. split_spec (s @ ys) False False cur = split_spec ys False False (cur @ s))"

lemma neutralD: "neutral s \<Longrightarrow> split_spec (s @ ys) False False cur = split_spec ys False False (cur @ s)"
  by (simp add: neutral_def)

lemma neutral_append: "neutral s \<Longrightarrow> neutral t \<Longrightarrow> neutral (s @ t)"
  by (simp add: neutral_def)

lemma split_spec_unquoted:
  "CHR 0x22 \<notin> set s \<Longrightarrow> CHR '','' \<notin> set s \<Longrightarrow>
     split_spec (s @ ys) False False cur = split_spec ys False False (cur @ s)"
  by (induction s arbitrary: cur) auto

lemma split_spec_quoted:
  "quotable s \<Longrightarrow> split_spec (s @ ys) True False cur = split_spec ys True False (cur @ s)"
  by (induction s arbitrary: cur) (auto simp: quotable_def)

lemma neutral_unquoted: "CHR 0x22 \<notin> set s \<Longrightarrow> CHR '','' \<notin> set s \<Longrightarrow> neutral s"
  by (simp add: neutral_def split_spec_unquoted)

lemma neutral_quoted: "quotable s \<Longrightarrow> neutral (CHR 0x22 # s @ [CHR 0x22])"
  by (simp add: neutral_def split_spec_quoted)

lemma neutral_comma:
  "c \<noteq> CHR ''P'' \<Longrightarrow> \<not> is_ows c \<Longrightarrow> neutral (c # s) \<Longrightarrow> neutral (CHR '','' # CHR '' '' # c # s)"
  by (auto simp: neutral_def skip_ows_def is_ows_def)

definition header_ok :: "ChallengeHeader \<Rightarrow> bool" where
  "header_ok h \<longleftrightarrow> ch_challenge h \<noteq> [] \<and> quotable (ch_challenge h)
     \<and> (\<forall>key. ch_token_key h = Some key \<longrightarrow> quotable key)"

definition key_text :: "ChallengeHeader \<Rightarrow> string" where
  "key_text h = (case ch_token_key h of None \<Rightarrow> []
     | Some key \<Rightarrow> '', '' @ ''token-key='' @ CHR 0x22 # key @ [CHR 0x22])"

definition age_text :: "ChallengeHeader \<Rightarrow> string" where
  "age_text h = (case ch_max_age h of None \<Rightarrow> [] | Some n \<Rightarrow> '', '' @ ''max-age='' @ to_string (unat n))"

lemma ChallengeHeader_format_eq:
  "ChallengeHeader_format h =
     ''PrivateToken '' @ ''challenge='' @ (CHR 0x22 # ch_challenge h @ [CHR 0x22]) @ key_text h @ age_text h"
  by (simp add: ChallengeHeader_format_def key_text_def age_text_def Let_def split: option.splits)

lemma neutral_Nil: "neutral []"
  by (simp add: neutral_def)

lemma neutral_format:
  assumes "header_ok h"
  shows "neutral (ChallengeHeader_format h)"
proof -
  have "neutral (key_text h)"
  proof (cases "ch_token_key h")
    case (Some key)
    have "neutral (''token-key='' @ CHR 0x22 # key @ [CHR 0x22])"
      using assms Some by (intro neutral_append neutral_quoted neutral_unquoted) (auto simp: header_ok_def)
    then show ?thesis using neutral_comma [of "CHR ''t''"] by (simp add: key_text_def Some is_ows_def)
  qed (simp add: key_text_def neutral_Nil)
  moreover have "neutral (age_text h)"
  proof (cases "ch_max_age h")
    case (Some n)
    have "\<forall>c \<in> set (to_string (unat n)). c \<noteq> CHR 0x22 \<and> c \<noteq> CHR '',''"
      using to_string_digits [of "unat n"] digit_not_special by (auto simp: token_end_def)
    then have "neutral (to_string (unat n))" by (intro neutral_unquoted) blast+
    then have "neutral (''max-age='' @ to_string (unat n))"
      by (intro neutral_append neutral_unquoted [of "''max-age=''"]) simp_all
    then show ?thesis using neutral_comma [of "CHR ''m''"] by (simp add: age_text_def Some is_ows_def)
  qed (simp add: age_text_def neutral_Nil)
  moreover have "neutral (CHR 0x22 # ch_challenge h @ [CHR 0x22])"
    using assms by (intro neutral_quoted) (simp add: header_ok_def)
  moreover have "neutral ''PrivateToken ''" "neutral ''challenge=''"
    by (rule neutral_unquoted; simp)+
  ultimately show ?thesis
    unfolding ChallengeHeader_format_eq by (intro neutral_append)
qed

fun join_headers :: "string list \<Rightarrow> string" where
  "join_headers [] = []"
| "join_headers [h] = h"
| "join_headers (h # g # hs) = h @ '', '' @ join_headers (g # hs)"

lemma prefix_join_headers:
  "\<forall>h \<in> set hs. header_ok h \<Longrightarrow> hs \<noteq> [] \<Longrightarrow>
     prefix ''PrivateToken '' (join_headers (map ChallengeHeader_format hs))
     \<and> hd (join_headers (map ChallengeHeader_format hs)) = CHR ''P''"
  by (cases hs; cases "tl hs") (auto simp: ChallengeHeader_format_eq)

lemma split_join_headers:
  assumes "\<forall>h \<in> set hs. header_ok h" "hs \<noteq> []"
  shows "split_spec (join_headers (map ChallengeHeader_format hs)) False False []
    = map ChallengeHeader_format hs"
  using assms
proof (induction hs rule: induct_list012)
  case (2 h)
  then show ?case using neutralD [OF neutral_format, of h "[]" "[]"] by simp
next
  case (3 h g hs)
  let ?rest = "join_headers (map ChallengeHeader_format (g # hs))"
  have rest: "prefix ''PrivateToken '' ?rest" "hd ?rest = CHR ''P''"
    using prefix_join_headers [of "g # hs"] "3.prems" by auto
  then have ows: "skip_ows (CHR '' '' # ?rest) = ?rest" "?rest \<noteq> []"
    using skip_ows_id [of ?rest] by (auto simp: skip_ows_def is_ows_def)
  have "split_spec (join_headers (map ChallengeHeader_format (h # g # hs))) False False []
      = split_spec (CHR '','' # CHR '' '' # ?rest) False False (ChallengeHeader_format h)"
    using neutralD [OF neutral_format, of h "CHR '','' # CHR '' '' # ?rest" "[]"] "3.prems" by simp
  also have "\<dots> = ChallengeHeader_format h # split_spec ?rest False False []"
    using rest(1) by (simp only: split_spec.simps ows) simp
  finally show ?case using "3.IH"(2) "3.prems" by simp
qed simp

subsection \<open>Round trips\<close>

lemma param_keys_ok: "key_ok ''challenge''" "key_ok ''token-key''" "key_ok ''max-age''" "key_ok ''token''"
  by (simp_all add: key_ok_def key_char_rejected_def)

lemma max_age_value: "stoul (to_string (unat (n :: u32))) = Some (unat n)" "unat (n :: u32) \<le> 4294967295"
proof -
  have "unat n < 2 ^ 32" using unsigned_less [of n, where ?'a = nat] by simp
  then show "unat n \<le> 4294967295" by simp
  then show "stoul (to_string (unat n)) = Some (unat n)" by (intro stoul_to_string) simp
qed

lemma param_loop_age:
  "param_loop challenge_param (''max-age='' @ to_string (unat n)) h = h\<lparr>ch_max_age := Some n\<rparr>"
proof -
  have d: "to_string (unat n) \<noteq> []" "\<forall>c \<in> set (to_string (unat n)). is_digit c"
    using to_string_digits [of "unat n"] by auto
  have "parse_auth_param (''max-age'' @ CHR ''='' # to_string (unat n)) = Some ((''max-age'', to_string (unat n)), [])"
    using d digit_not_special by (intro parse_auth_param_token param_keys_ok) (auto simp: list.set_sel(1))
  then show ?thesis using max_age_value [of n] by (simp add: param_loop_Some challenge_param_def)
qed

lemma param_loop_key_age:
  assumes "header_ok h"
  shows "param_loop challenge_param (drop 2 (key_text h @ age_text h)) g
    = g\<lparr>ch_token_key := (case ch_token_key h of None \<Rightarrow> ch_token_key g | Some k \<Rightarrow> Some k),
         ch_max_age := (case ch_max_age h of None \<Rightarrow> ch_max_age g | Some n \<Rightarrow> Some n)\<rparr>"
proof -
  have age: "param_loop challenge_param (drop 2 (age_text h)) g'
      = g'\<lparr>ch_max_age := (case ch_max_age h of None \<Rightarrow> ch_max_age g' | Some n \<Rightarrow> Some n)\<rparr>" for g'
    using param_loop_age by (cases "ch_max_age h") (simp_all add: age_text_def)
  show ?thesis
  proof (cases "ch_token_key h")
    case None
    then show ?thesis using age by (simp add: key_text_def)
  next
    case (Some k)
    have sep: "skip_separator (age_text h) = drop 2 (age_text h)"
      by (cases "ch_max_age h") (simp_all add: age_text_def skip_separator_comma is_ows_def)
    have "parse_auth_param (''token-key'' @ CHR ''='' # CHR 0x22 # k @ CHR 0x22 # age_text h)
        = Some ((''token-key'', k), drop 2 (age_text h))"
      using assms Some by (subst parse_auth_param_quoted) (auto simp: param_keys_ok header_ok_def sep)
    then show ?thesis using Some age
      by (simp add: key_text_def param_loop_Some challenge_param_def split: option.splits)
  qed
qed

lemma param_loop_format:
  assumes "header_ok h"
  shows "param_loop challenge_param (drop 13 (ChallengeHeader_format h))
    \<lparr>ch_challenge = [], ch_token_key = None, ch_max_age = None\<rparr> = h"
proof -
  let ?rest = "key_text h @ age_text h"
  have sep: "skip_separator ?rest = drop 2 ?rest"
    by (cases "ch_token_key h"; cases "ch_max_age h")
      (simp_all add: key_text_def age_text_def skip_separator_comma is_ows_def)
  have "parse_auth_param (''challenge'' @ CHR ''='' # CHR 0x22 # ch_challenge h @ CHR 0x22 # ?rest)
      = Some ((''challenge'', ch_challenge h), drop 2 ?rest)"
    using assms by (subst parse_auth_param_quoted) (auto simp: param_keys_ok header_ok_def sep)
  moreover have "drop 13 (ChallengeHeader_format h)
      = ''challenge'' @ CHR ''='' # CHR 0x22 # ch_challenge h @ CHR 0x22 # ?rest"
    by (simp add: ChallengeHeader_format_eq)
  ultimately show ?thesis
    using param_loop_key_age [OF assms, of "\<lparr>ch_challenge = ch_challenge h, ch_token_key = None, ch_max_age = None\<rparr>"]
    by (cases h) (simp add: param_loop_Some challenge_param_def split: option.splits)
qed

lemma parse_challenges_format:
  "\<forall>h \<in> set hs. header_ok h \<Longrightarrow> parse_challenges (map ChallengeHeader_format hs) acc = Ok (acc @ hs)"
proof (induction hs arbitrary: acc)
  case (Cons h hs)
  then have ok: "header_ok h" by simp
  have "prefix ''PrivateToken '' (ChallengeHeader_format h)" by (simp add: ChallengeHeader_format_eq)
  then show ?case using Cons param_loop_format [OF ok] ok by (simp add: header_ok_def Let_def)
qed simp

lemma parse_all_join:
  assumes "\<forall>h \<in> set hs. header_ok h" "hs \<noteq> []"
  shows "parse_all (join_headers (map ChallengeHeader_format hs)) = Ok hs"
  using parse_challenges_format [OF assms(1), of "[]"]
  by (simp add: parse_all_def split_challenges_spec split_join_headers [OF assms])

lemma ChallengeHeader_parse_format: "header_ok h \<Longrightarrow> ChallengeHeader_parse (ChallengeHeader_format h) = Ok h"
  using parse_all_join [of "[h]"] by (simp add: ChallengeHeader_parse_def)

lemma quotable_encoded: "quotable (b64_encode_padded data)"
  using set_b64_encode_padded [of data] table_excludes by (auto simp: quotable_def)

lemma encode_padded_not_Nil: "data \<noteq> [] \<Longrightarrow> b64_encode_padded data \<noteq> []"
  by (metis b64_decode_encode_padded b64_decode_encode b64_encode.simps(2) sum.inject(2))

lemma AuthorizationHeader_parse_format:
  assumes "quotable tok" "tok \<noteq> []"
  shows "AuthorizationHeader_parse (AuthorizationHeader_format \<lparr>ah_token = tok\<rparr>) = Ok \<lparr>ah_token = tok\<rparr>"
proof -
  have "parse_auth_param (''token'' @ CHR ''='' # CHR 0x22 # tok @ CHR 0x22 # []) = Some ((''token'', tok), [])"
    using assms by (subst parse_auth_param_quoted) (auto simp: param_keys_ok)
  then show ?thesis using assms(2)
    by (simp add: AuthorizationHeader_parse_def AuthorizationHeader_format_def param_loop_Some
        authorization_param_def)
qed

lemma authorization_round_trip:
  assumes "token_wf t"
  shows "try_bind (build_authorization t) parse_authorization = Ok t"
proof -
  obtain bs where bs: "Token_serialize t = Ok bs" "Token_deserialize bs = Ok t"
    using token_wire.transmits [OF assms] by blast
  then have "bs \<noteq> []" by (auto simp: Token_serialize_eq be16_def)
  then show ?thesis using bs AuthorizationHeader_parse_format [OF quotable_encoded encode_padded_not_Nil]
    by (simp add: build_authorization_def parse_authorization_def decode_token_def)
qed

lemma www_authenticate_round_trip:
  assumes "challenge_wf c" "tc_cached_digest c = None"
  shows "\<exists>header h. build_www_authenticate c key max_age = Ok header
    \<and> ChallengeHeader_parse header = Ok h \<and> decode_challenge h = Ok c
    \<and> decode_token_key h = Ok key \<and> ch_max_age h = max_age"
proof -
  obtain bs where bs: "TokenChallenge_serialize c = Ok bs" "TokenChallenge_deserialize bs = Ok c"
    using challenge_wire.transmits [of c] assms by blast
  then have "bs \<noteq> []" by (auto simp: TokenChallenge_serialize_Ok_iff challenge_bytes_def be16_def)
  then have "header_ok \<lparr>ch_challenge = b64_encode_padded bs, ch_token_key = Some (b64_encode_padded key), ch_max_age = max_age\<rparr>"
    by (simp add: header_ok_def quotable_encoded encode_padded_not_Nil)
  from ChallengeHeader_parse_format [OF this] show ?thesis using bs
    by (simp add: build_www_authenticate_def decode_challenge_def decode_token_key_def)
qed

end
