(* ===== verification/PP_Request.thy ===== *)
theory PP_Request
  imports PP_Wire_Format
begin

text \<open>
  \<open>TokenRequest\<close> and \<open>BatchedTokenRequest\<close> of src/core/token_request.cpp. A single request
  has a strict wire format. A batch is a varint payload size followed by the requests; the
  reader splits the payload by the size that each request's type announces. Batches up to
  the reader's payload limit round-trip; a larger one serialises to bytes the reader
  rejects, and within that limit the limit on the number of requests is never reached.
\<close>

record TokenRequest =
  req_type :: TokenType
  req_truncated_token_key_id :: byte
  req_blinded_msg :: bytes

record BatchedTokenRequest =
  batch_requests :: "TokenRequest list"

definition TokenRequest_create :: "TokenType \<Rightarrow> byte \<Rightarrow> bytes \<Rightarrow> TokenRequest" where
  "TokenRequest_create type truncated_id blinded_message =
     \<lparr>req_type = type, req_truncated_token_key_id = truncated_id,
      req_blinded_msg = blinded_message\<rparr>"

definition TokenRequest_serialized_size :: "TokenRequest \<Rightarrow> nat" where
  "TokenRequest_serialized_size r = 2 + 1 + length (req_blinded_msg r)"

definition TokenRequest_serialize :: "TokenRequest \<Rightarrow> bytes result" where
  "TokenRequest_serialize r =
     (let writer = ByteWriter_new;
          writer = put (write_u16 (req_type r)) writer;
          writer = put (write_u8 (req_truncated_token_key_id r)) writer;
          writer = put (write_bytes (req_blinded_msg r)) writer
      in Ok (writer_take writer))"

definition TokenRequest_deserialize :: "bytes \<Rightarrow> TokenRequest result" where
  "TokenRequest_deserialize data =
     reading read_u16 UNEXPECTED_END ''Failed to read token_type'' (\<lambda>type.
     reading read_u8 UNEXPECTED_END ''Failed to read key_id'' (\<lambda>key_id reader.
     let info = for_type type;
         blinded_size = blinded_element_size info
     in
     if remaining reader < blinded_size then
       Err UNEXPECTED_END ''Insufficient data for blinded_msg''
     else
     reading (read_bytes blinded_size) UNEXPECTED_END ''Failed to read blinded_msg''
      (\<lambda>blinded reader.
     if \<not> reader_empty reader then Err MALFORMED_DATA ''Trailing TokenRequest data''
     else Ok \<lparr>req_type = type, req_truncated_token_key_id = key_id, req_blinded_msg = blinded\<rparr>)
     reader))
     (ByteReader_new data)"

definition request_payload_size :: "TokenRequest list \<Rightarrow> nat" where
  "request_payload_size reqs =
     foldl (\<lambda>payload_size req. payload_size + TokenRequest_serialized_size req) 0 reqs"

definition BatchedTokenRequest_serialized_size :: "BatchedTokenRequest \<Rightarrow> nat" where
  "BatchedTokenRequest_serialized_size b =
     (let payload_size = request_payload_size (batch_requests b)
      in varint_size (word_of_nat payload_size) + payload_size)"

fun write_requests :: "TokenRequest list \<Rightarrow> ByteWriter \<Rightarrow> bytes result" where
  "write_requests [] writer = Ok (writer_take writer)"
| "write_requests (req # reqs) writer =
     try_bind (TokenRequest_serialize req) (\<lambda>serialized.
       write_requests reqs (put (write_bytes serialized) writer))"

definition BatchedTokenRequest_serialize :: "BatchedTokenRequest \<Rightarrow> bytes result" where
  "BatchedTokenRequest_serialize b =
     (let writer = ByteWriter_new;
          payload_size = request_payload_size (batch_requests b);
          writer = put (write_varint (word_of_nat payload_size)) writer
      in write_requests (batch_requests b) writer)"

definition MAX_BATCH_SIZE :: nat where "MAX_BATCH_SIZE = 10000"
definition MAX_BATCH_PAYLOAD_SIZE :: u64 where "MAX_BATCH_PAYLOAD_SIZE = 65535"

lemma read_bytes_progress:
  "read_bytes n r = (Some xs, r') \<Longrightarrow> 0 < n \<Longrightarrow> remaining r' < remaining r"
  by (auto simp: read_bytes_def remaining_def split: if_splits)

function request_batch_loop :: "ByteReader \<Rightarrow> TokenRequest list \<Rightarrow> BatchedTokenRequest result" where
  "request_batch_loop payload_reader requests =
     (if reader_empty payload_reader then Ok \<lparr>batch_requests = requests\<rparr>
      else if MAX_BATCH_SIZE \<le> length requests then
        Err MALFORMED_DATA ''Batch size exceeds maximum''
      else
        (let remaining = remaining_data payload_reader
         in if length remaining < 3 then Err UNEXPECTED_END ''Failed to read request header''
            else
              (let info = for_type (join16 (remaining ! 0) (remaining ! 1))
               in if blinded_element_size info = 0 then
                    Err UNSUPPORTED_TOKEN_TYPE ''Unsupported batched request token type''
                  else
                    reading (read_bytes (2 + 1 + blinded_element_size info)) UNEXPECTED_END
                      ''Failed to read request''
                      (\<lambda>request_bytes payload_reader.
                         try_bind (TokenRequest_deserialize request_bytes) (\<lambda>req.
                           request_batch_loop payload_reader (requests @ [req])))
                      payload_reader)))"
  by pat_completeness auto
termination
  by (relation "measure (\<lambda>(r, _). remaining r)") (auto dest: read_bytes_progress)

declare request_batch_loop.simps [simp del]

definition BatchedTokenRequest_deserialize :: "bytes \<Rightarrow> BatchedTokenRequest result" where
  "BatchedTokenRequest_deserialize data =
     reading read_varint UNEXPECTED_END ''Failed to read batch size'' (\<lambda>payload_size_value reader.
     if MAX_BATCH_PAYLOAD_SIZE < payload_size_value then Err MALFORMED_DATA ''Batch payload too large''
     else
     reading (read_bytes (unat payload_size_value)) UNEXPECTED_END ''Failed to read batch payload''
      (\<lambda>payload reader.
     if \<not> reader_empty reader then Err MALFORMED_DATA ''Trailing BatchedTokenRequest data''
     else request_batch_loop (ByteReader_new payload) []) reader)
     (ByteReader_new data)"

subsection \<open>Single requests\<close>

definition request_bytes :: "TokenRequest \<Rightarrow> bytes" where
  "request_bytes r = be16 (req_type r) @ req_truncated_token_key_id r # req_blinded_msg r"

definition request_wf :: "TokenRequest \<Rightarrow> bool" where
  "request_wf r \<longleftrightarrow> length (req_blinded_msg r) = blinded_element_size (for_type (req_type r))"

lemma TokenRequest_serialize_eq: "TokenRequest_serialize r = Ok (request_bytes r)"
  by (simp add: TokenRequest_serialize_def request_bytes_def writer_simps Let_def)

lemma length_request_bytes: "length (request_bytes r) = TokenRequest_serialized_size r"
  by (simp add: request_bytes_def TokenRequest_serialized_size_def)

lemma TokenRequest_deserialize_bytes:
  "request_wf r \<Longrightarrow> TokenRequest_deserialize (request_bytes r) = Ok r"
  by (simp add: TokenRequest_deserialize_def request_bytes_def request_wf_def reader_simps Let_def)

lemma TokenRequest_deserialize_Ok:
  assumes "TokenRequest_deserialize bs = Ok r"
  shows "request_wf r \<and> bs = request_bytes r"
  using assms
  by (auto simp: TokenRequest_deserialize_def request_bytes_def request_wf_def reader_simps
      reading_Ok_iffs Let_def split: if_splits)

interpretation request_wire: strict_wire_format TokenRequest_serialize TokenRequest_deserialize request_wf
  by unfold_locales
    (auto simp: TokenRequest_serialize_eq TokenRequest_deserialize_bytes dest: TokenRequest_deserialize_Ok)

subsection \<open>Batches\<close>

text \<open>A request that may stand in a batch: its type announces a non-empty blinded message.\<close>

definition batchable :: "TokenRequest \<Rightarrow> bool" where
  "batchable r \<longleftrightarrow> request_wf r \<and> blinded_element_size (for_type (req_type r)) \<noteq> 0"

definition payload_bytes :: "TokenRequest list \<Rightarrow> bytes" where
  "payload_bytes reqs = concat (map request_bytes reqs)"

definition batch_wf :: "BatchedTokenRequest \<Rightarrow> bool" where
  "batch_wf b \<longleftrightarrow> list_all batchable (batch_requests b) \<and> length (payload_bytes (batch_requests b)) \<le> 65535"

lemma request_payload_size_eq: "request_payload_size reqs = length (payload_bytes reqs)"
proof -
  have "foldl (\<lambda>n r. n + TokenRequest_serialized_size r) n reqs = n + length (payload_bytes reqs)" for n
    by (induction reqs arbitrary: n) (simp_all add: payload_bytes_def length_request_bytes)
  then show ?thesis by (simp add: request_payload_size_def)
qed

lemma write_requests_of: "write_requests reqs (writer_of xs) = Ok (xs @ payload_bytes reqs)"
  by (induction reqs arbitrary: xs)
    (simp_all add: writer_simps TokenRequest_serialize_eq payload_bytes_def)

lemma BatchedTokenRequest_serialize_eq:
  "BatchedTokenRequest_serialize b =
     Ok (varint_bytes (word_of_nat (length (payload_bytes (batch_requests b))))
         @ payload_bytes (batch_requests b))"
  by (simp add: BatchedTokenRequest_serialize_def request_payload_size_eq writer_simps
      write_requests_of Let_def)

lemma min_blinded_size: "blinded_element_size (for_type t) \<noteq> 0 \<Longrightarrow> 32 \<le> blinded_element_size (for_type t)"
  by (simp add: for_type_def split: if_splits)

lemma length_payload_ge: "list_all batchable reqs \<Longrightarrow> 35 * length reqs \<le> length (payload_bytes reqs)"
proof (induction reqs)
  case (Cons r reqs)
  then have "35 \<le> length (request_bytes r)"
    using min_blinded_size [of "req_type r"]
    by (simp add: batchable_def request_wf_def request_bytes_def)
  then show ?case using Cons by (simp add: payload_bytes_def)
qed simp

lemma batch_loop_step:
  assumes "batchable r" "length acc < MAX_BATCH_SIZE"
  shows "request_batch_loop (reader_at pre (request_bytes r @ ys)) acc
    = request_batch_loop (reader_at (pre @ request_bytes r) ys) (acc @ [r])"
proof -
  have hd: "join16 ((request_bytes r @ ys) ! 0) ((request_bytes r @ ys) ! 1) = req_type r"
    by (simp add: request_bytes_def be16_def)
  have len: "3 \<le> length (request_bytes r @ ys)" by (simp add: request_bytes_def)
  have n: "2 + 1 + blinded_element_size (for_type (req_type r)) = length (request_bytes r)"
    using assms(1) by (simp add: batchable_def request_wf_def request_bytes_def)
  have z: "blinded_element_size (for_type (req_type r)) \<noteq> 0" "request_wf r"
    using assms(1) by (simp_all add: batchable_def)
  have ne: "request_bytes r @ ys \<noteq> []" by (simp add: request_bytes_def)
  show ?thesis
    by (subst request_batch_loop.simps)
      (use assms(2) len ne z in \<open>simp only: reader_simps Let_def hd not_le [symmetric] if_False n
        reading_bytes_append TokenRequest_deserialize_bytes try_bind_simps simp_thms\<close>)
qed

lemma batch_loop_payload:
  "list_all batchable reqs \<Longrightarrow> length acc + length reqs \<le> MAX_BATCH_SIZE \<Longrightarrow>
     request_batch_loop (reader_at pre (payload_bytes reqs)) acc = Ok \<lparr>batch_requests = acc @ reqs\<rparr>"
proof (induction reqs arbitrary: pre acc)
  case Nil
  show ?case by (subst request_batch_loop.simps) (simp add: payload_bytes_def reader_simps)
next
  case (Cons r reqs)
  then show ?case
    using batch_loop_step [of r acc pre "payload_bytes reqs"] by (simp add: payload_bytes_def)
qed

lemma batch_loop_Ok:
  "request_batch_loop (reader_at pre post) acc = Ok b \<Longrightarrow>
     \<exists>reqs. b = \<lparr>batch_requests = acc @ reqs\<rparr> \<and> list_all batchable reqs \<and> post = payload_bytes reqs"
proof (induction "reader_at pre post" acc arbitrary: pre post rule: request_batch_loop.induct)
  case (1 acc pre post)
  let ?info = "for_type (join16 (post ! 0) (post ! 1))"
  show ?case
  proof (cases "post = []")
    case True
    then show ?thesis using "1.prems"
      by (subst (asm) request_batch_loop.simps) (auto simp: reader_simps payload_bytes_def)
  next
    case ne: False
    have body: "\<not> MAX_BATCH_SIZE \<le> length acc \<and> \<not> length post < 3 \<and> blinded_element_size ?info \<noteq> 0 \<and>
      reading (read_bytes (2 + 1 + blinded_element_size ?info)) UNEXPECTED_END ''Failed to read request''
        (\<lambda>request_bytes payload_reader.
           try_bind (TokenRequest_deserialize request_bytes) (\<lambda>req.
             request_batch_loop payload_reader (acc @ [req]))) (reader_at pre post) = Ok b"
      using "1.prems" ne
      by (subst (asm) request_batch_loop.simps) (simp add: reader_simps Let_def split: if_splits)
    then obtain xs ys r where post: "post = xs @ ys" and len: "length xs = 2 + 1 + blinded_element_size ?info"
      and des: "TokenRequest_deserialize xs = Ok r"
      and rest: "request_batch_loop (reader_at (pre @ xs) ys) (acc @ [r]) = Ok b"
      by (auto simp: reading_bytes_Ok_iff result_iffs)
    note r = TokenRequest_deserialize_Ok [OF des]
    have "?info = for_type (req_type r)" using r post len
      by (auto simp: request_bytes_def be16_def)
    then have b: "batchable r" using body r by (simp add: batchable_def)
    have rb: "read_bytes (2 + 1 + blinded_element_size ?info) (reader_at pre post)
        = (Some xs, reader_at (pre @ xs) ys)"
      unfolding post using read_bytes_at_append [of _ xs pre ys] len post by simp
    have "\<exists>reqs. b = \<lparr>batch_requests = (acc @ [r]) @ reqs\<rparr> \<and> list_all batchable reqs \<and> ys = payload_bytes reqs"
      by (rule "1.hyps" [OF _ _ refl _ refl _ _ des rest])
        (use rb body ne in \<open>simp_all add: reader_simps\<close>)
    then obtain reqs where "b = \<lparr>batch_requests = acc @ r # reqs\<rparr>" "list_all batchable reqs"
      "ys = payload_bytes reqs" by auto
    then show ?thesis using b r post by (intro exI [of _ "r # reqs"]) (simp add: payload_bytes_def)
  qed
qed

lemma BatchedTokenRequest_deserialize_serialize:
  assumes "batch_wf b" "BatchedTokenRequest_serialize b = Ok bs"
  shows "BatchedTokenRequest_deserialize bs = Ok b"
proof -
  let ?p = "payload_bytes (batch_requests b)"
  have n: "length ?p \<le> 65535" and ok: "list_all batchable (batch_requests b)"
    using assms(1) by (simp_all add: batch_wf_def)
  have u: "unat (word_of_nat (length ?p) :: u64) = length ?p" using n by (simp add: unat_of_nat)
  have t: "take_bit 62 (word_of_nat (length ?p) :: u64) = word_of_nat (length ?p)"
    using n u by (intro take_bit_62_id) simp
  have "\<not> MAX_BATCH_PAYLOAD_SIZE < word_of_nat (length ?p)"
    using n u by (simp add: MAX_BATCH_PAYLOAD_SIZE_def word_less_nat_alt)
  moreover have "length (batch_requests b) \<le> MAX_BATCH_SIZE"
    using length_payload_ge [OF ok] n by (simp add: MAX_BATCH_SIZE_def)
  ultimately show ?thesis
    using assms(2) u t batch_loop_payload [OF ok, of "[]" "[]"]
    by (auto simp: BatchedTokenRequest_serialize_eq BatchedTokenRequest_deserialize_def reader_simps)
qed

lemma BatchedTokenRequest_deserialize_wf:
  assumes "BatchedTokenRequest_deserialize bs = Ok b"
  shows "batch_wf b"
proof -
  obtain v r1 where v: "\<not> MAX_BATCH_PAYLOAD_SIZE < v"
    and body: "reading (read_bytes (unat v)) UNEXPECTED_END ''Failed to read batch payload''
      (\<lambda>payload reader. if \<not> reader_empty reader then Err MALFORMED_DATA ''Trailing BatchedTokenRequest data''
         else request_batch_loop (ByteReader_new payload) []) r1 = Ok b"
    using assms unfolding BatchedTokenRequest_deserialize_def
    by (auto simp: reading_def [of read_varint] split: prod.splits option.splits if_splits)
  then obtain payload r2 where p: "read_bytes (unat v) r1 = (Some payload, r2)"
    and loop: "request_batch_loop (reader_at [] payload) [] = Ok b"
    by (auto simp: reading_def reader_simps split: prod.splits option.splits if_splits)
  have "length payload \<le> unat v" using p by (auto simp: read_bytes_def split: if_splits)
  moreover have "unat v \<le> 65535" using v
    by (simp add: MAX_BATCH_PAYLOAD_SIZE_def word_less_nat_alt not_less)
  ultimately show ?thesis using batch_loop_Ok [OF loop] by (auto simp: batch_wf_def)
qed

interpretation batch_wire: wire_format BatchedTokenRequest_serialize BatchedTokenRequest_deserialize batch_wf
  by unfold_locales
    (auto simp: BatchedTokenRequest_serialize_eq intro: BatchedTokenRequest_deserialize_serialize)

end
