(* ===== verification/PP_Response.thy ===== *)
theory PP_Response
  imports PP_Wire_Format
begin

text \<open>
  The token responses of src/core/token_response.cpp: the two concrete responses, the
  variant \<open>TokenResponse\<close> with its type, the optional response of a batch and the batch. A
  \<open>std::variant\<close> is a datatype, an unset \<open>std::optional\<close> is \<open>None\<close>. The responses and the
  optional response have strict wire formats; the batch round-trips within the reader's
  two limits, of which the one on the count can be reached by absent responses.
\<close>

record BlindRsaTokenResponse =
  rsa_blind_sig :: bytes

record VoprfTokenResponse =
  voprf_evaluate_msg :: bytes
  voprf_evaluate_proof :: bytes

datatype TokenResponseVariant =
    BlindRsaVariant BlindRsaTokenResponse
  | VoprfVariant VoprfTokenResponse

record TokenResponse =
  resp_type :: TokenType
  resp_response :: TokenResponseVariant

record OptionalTokenResponse =
  opt_present :: bool
  opt_response :: "TokenResponse option"

record BatchedTokenResponse =
  batch_responses :: "OptionalTokenResponse list"

definition BlindRsaTokenResponse_serialize :: "BlindRsaTokenResponse \<Rightarrow> bytes result" where
  "BlindRsaTokenResponse_serialize r = Ok (rsa_blind_sig r)"

definition BlindRsaTokenResponse_deserialize :: "bytes \<Rightarrow> BlindRsaTokenResponse result" where
  "BlindRsaTokenResponse_deserialize data =
     (if length data \<noteq> 256 then Err INVALID_LENGTH ''Blind RSA signature must be 256 bytes''
      else Ok \<lparr>rsa_blind_sig = data\<rparr>)"

definition VoprfTokenResponse_serialize :: "VoprfTokenResponse \<Rightarrow> bytes result" where
  "VoprfTokenResponse_serialize r = Ok (([] @ voprf_evaluate_msg r) @ voprf_evaluate_proof r)"

definition VoprfTokenResponse_deserialize :: "bytes \<Rightarrow> VoprfTokenResponse result" where
  "VoprfTokenResponse_deserialize data =
     (if length data \<noteq> 49 + 96 then Err INVALID_LENGTH ''VOPRF response must be 145 bytes''
      else Ok \<lparr>voprf_evaluate_msg = take 49 data, voprf_evaluate_proof = drop 49 data\<rparr>)"

definition create_blind_rsa :: "bytes \<Rightarrow> TokenResponse" where
  "create_blind_rsa blind_sig =
     \<lparr>resp_type = BLIND_RSA, resp_response = BlindRsaVariant \<lparr>rsa_blind_sig = blind_sig\<rparr>\<rparr>"

definition create_voprf :: "bytes \<Rightarrow> bytes \<Rightarrow> TokenResponse" where
  "create_voprf evaluate_msg evaluate_proof =
     \<lparr>resp_type = VOPRF_P384_SHA384,
      resp_response = VoprfVariant \<lparr>voprf_evaluate_msg = evaluate_msg,
                                    voprf_evaluate_proof = evaluate_proof\<rparr>\<rparr>"

definition TokenResponse_serialized_size :: "TokenResponse \<Rightarrow> nat" where
  "TokenResponse_serialized_size r =
     (case resp_response r of
        BlindRsaVariant b \<Rightarrow> length (rsa_blind_sig b)
      | VoprfVariant v \<Rightarrow> length (voprf_evaluate_msg v) + length (voprf_evaluate_proof v))"

definition TokenResponse_serialize :: "TokenResponse \<Rightarrow> bytes result" where
  "TokenResponse_serialize r =
     (case resp_response r of
        BlindRsaVariant b \<Rightarrow> BlindRsaTokenResponse_serialize b
      | VoprfVariant v \<Rightarrow> VoprfTokenResponse_serialize v)"

definition as_blind_rsa :: "TokenResponse \<Rightarrow> BlindRsaTokenResponse option" where
  "as_blind_rsa r = (case resp_response r of BlindRsaVariant b \<Rightarrow> Some b | VoprfVariant v \<Rightarrow> None)"

definition as_voprf :: "TokenResponse \<Rightarrow> VoprfTokenResponse option" where
  "as_voprf r = (case resp_response r of BlindRsaVariant b \<Rightarrow> None | VoprfVariant v \<Rightarrow> Some v)"

definition TokenResponse_deserialize :: "TokenType \<Rightarrow> bytes \<Rightarrow> TokenResponse result" where
  "TokenResponse_deserialize type data =
     (if type = BLIND_RSA \<or> type = PARTIALLY_BLIND_RSA then
        try_bind (BlindRsaTokenResponse_deserialize data) (\<lambda>rsa_response.
          Ok \<lparr>resp_type = type, resp_response = BlindRsaVariant rsa_response\<rparr>)
      else if type = VOPRF_P384_SHA384 then
        try_bind (VoprfTokenResponse_deserialize data) (\<lambda>voprf_response.
          Ok \<lparr>resp_type = type, resp_response = VoprfVariant voprf_response\<rparr>)
      else Err UNSUPPORTED_TOKEN_TYPE ''Unsupported token type'')"

definition OptionalTokenResponse_serialize :: "OptionalTokenResponse \<Rightarrow> bytes result" where
  "OptionalTokenResponse_serialize r =
     (let writer = ByteWriter_new in
      if \<not> opt_present r \<or> opt_response r = None then Ok (writer_take (put (write_u8 0x00) writer))
      else
        (let response = the (opt_response r);
             writer = put (write_u8 0x01) writer;
             writer = put (write_u16 (resp_type response)) writer
         in try_bind (TokenResponse_serialize response) (\<lambda>resp_bytes.
              Ok (writer_take (put (write_bytes resp_bytes) writer)))))"

definition OptionalTokenResponse_deserialize :: "bytes \<Rightarrow> OptionalTokenResponse result" where
  "OptionalTokenResponse_deserialize data =
     reading read_u8 UNEXPECTED_END ''Failed to read status'' (\<lambda>status reader.
     if status \<noteq> 0x00 \<and> status \<noteq> 0x01 then Err MALFORMED_DATA ''Invalid response status''
     else if status = 0x01 then
       reading read_u16 UNEXPECTED_END ''Failed to read token_type'' (\<lambda>type reader.
         try_bind (TokenResponse_deserialize type (remaining_data reader)) (\<lambda>resp.
           Ok \<lparr>opt_present = True, opt_response = Some resp\<rparr>)) reader
     else if \<not> reader_empty reader then Err MALFORMED_DATA ''Trailing absent response data''
     else Ok \<lparr>opt_present = False, opt_response = None\<rparr>)
     (ByteReader_new data)"

text \<open>
  The accumulation of the serialised responses with its \<open>size_t\<close> overflow check.
\<close>

fun collect_responses :: "OptionalTokenResponse list \<Rightarrow> nat \<Rightarrow> bytes list \<Rightarrow> (nat \<times> bytes list) result" where
  "collect_responses [] payload_size acc = Ok (payload_size, acc)"
| "collect_responses (resp # resps) payload_size acc =
     try_bind (OptionalTokenResponse_serialize resp) (\<lambda>serialized.
       if 18446744073709551615 - int (length serialized) < int payload_size then
         Err INVALID_LENGTH ''Batch payload size overflow''
       else collect_responses resps (payload_size + length serialized) (acc @ [serialized]))"

definition BatchedTokenResponse_serialize :: "BatchedTokenResponse \<Rightarrow> bytes result" where
  "BatchedTokenResponse_serialize b =
     try_bind (collect_responses (batch_responses b) 0 []) (\<lambda>(payload_size, serialized_responses).
       let writer = ByteWriter_new;
           writer = put (write_varint (word_of_nat payload_size)) writer;
           writer = foldl (\<lambda>writer serialized. put (write_bytes serialized) writer) writer
                      serialized_responses
       in Ok (writer_take writer))"

definition MAX_RESPONSE_BATCH_SIZE :: nat where "MAX_RESPONSE_BATCH_SIZE = 10000"
definition MAX_RESPONSE_BATCH_PAYLOAD_SIZE :: u64 where "MAX_RESPONSE_BATCH_PAYLOAD_SIZE = 65535"

text \<open>The size of the next response of a batch, from its status byte and its type.\<close>

definition next_response_size :: "bytes \<Rightarrow> nat result" where
  "next_response_size rest =
     (if rest = [] then Err UNEXPECTED_END ''Failed to read response status''
      else if rest ! 0 = 0x01 then
        (if length rest < 3 then Err UNEXPECTED_END ''Failed to read response type''
         else
           (let type = join16 (rest ! 1) (rest ! 2);
                info = for_type type
            in if authenticator_size info = 0 then
                 Err UNSUPPORTED_TOKEN_TYPE ''Unsupported batched response token type''
               else Ok (1 + (2 + (if type = VOPRF_P384_SHA384 then 145 else authenticator_size info)))))
      else if rest ! 0 \<noteq> 0x00 then Err MALFORMED_DATA ''Invalid response status''
      else Ok 1)"

lemma next_response_size_pos: "next_response_size xs = Ok n \<Longrightarrow> 0 < n"
  by (auto simp: next_response_size_def Let_def split: if_splits)

lemma read_bytes_shrinks:
  "read_bytes n r = (Some xs, r') \<Longrightarrow> 0 < n \<Longrightarrow> remaining r' < remaining r"
  by (auto simp: read_bytes_def remaining_def split: if_splits)

function response_batch_loop ::
  "ByteReader \<Rightarrow> OptionalTokenResponse list \<Rightarrow> BatchedTokenResponse result" where
  "response_batch_loop payload_reader responses =
     (if reader_empty payload_reader then Ok \<lparr>batch_responses = responses\<rparr>
      else if MAX_RESPONSE_BATCH_SIZE \<le> length responses then
        Err MALFORMED_DATA ''Response batch size exceeds maximum''
      else
        try_bind (next_response_size (remaining_data payload_reader)) (\<lambda>response_size.
          reading (read_bytes response_size) UNEXPECTED_END ''Failed to read response''
            (\<lambda>response_bytes payload_reader.
               try_bind (OptionalTokenResponse_deserialize response_bytes) (\<lambda>resp.
                 response_batch_loop payload_reader (responses @ [resp])))
            payload_reader))"
  by pat_completeness auto
termination
  by (relation "measure (\<lambda>(r, _). remaining r)")
    (auto dest: read_bytes_shrinks next_response_size_pos)

declare response_batch_loop.simps [simp del]

definition BatchedTokenResponse_deserialize :: "bytes \<Rightarrow> BatchedTokenResponse result" where
  "BatchedTokenResponse_deserialize data =
     reading read_varint UNEXPECTED_END ''Failed to read response batch size''
      (\<lambda>payload_size_value reader.
     if MAX_RESPONSE_BATCH_PAYLOAD_SIZE < payload_size_value then
       Err MALFORMED_DATA ''Response batch payload too large''
     else
     reading (read_bytes (unat payload_size_value)) UNEXPECTED_END ''Failed to read response batch payload''
      (\<lambda>payload reader.
     if \<not> reader_empty reader then Err MALFORMED_DATA ''Trailing BatchedTokenResponse data''
     else response_batch_loop (ByteReader_new payload) []) reader)
     (ByteReader_new data)"

subsection \<open>Single responses\<close>

definition rsa_response_wf :: "BlindRsaTokenResponse \<Rightarrow> bool" where
  "rsa_response_wf r \<longleftrightarrow> length (rsa_blind_sig r) = 256"

definition voprf_response_wf :: "VoprfTokenResponse \<Rightarrow> bool" where
  "voprf_response_wf r \<longleftrightarrow> length (voprf_evaluate_msg r) = 49 \<and> length (voprf_evaluate_proof r) = 96"

definition response_wf :: "TokenResponse \<Rightarrow> bool" where
  "response_wf r \<longleftrightarrow>
     (case resp_response r of
        BlindRsaVariant b \<Rightarrow> resp_type r \<in> {BLIND_RSA, PARTIALLY_BLIND_RSA} \<and> rsa_response_wf b
      | VoprfVariant v \<Rightarrow> resp_type r = VOPRF_P384_SHA384 \<and> voprf_response_wf v)"

definition optional_response_wf :: "OptionalTokenResponse \<Rightarrow> bool" where
  "optional_response_wf r \<longleftrightarrow>
     (case opt_response r of None \<Rightarrow> \<not> opt_present r | Some resp \<Rightarrow> opt_present r \<and> response_wf resp)"

interpretation rsa_response_wire:
  strict_wire_format BlindRsaTokenResponse_serialize BlindRsaTokenResponse_deserialize rsa_response_wf
  by unfold_locales
    (auto simp: BlindRsaTokenResponse_serialize_def BlindRsaTokenResponse_deserialize_def
      rsa_response_wf_def split: if_splits)

interpretation voprf_response_wire:
  strict_wire_format VoprfTokenResponse_serialize VoprfTokenResponse_deserialize voprf_response_wf
  by unfold_locales
    (auto simp: VoprfTokenResponse_serialize_def VoprfTokenResponse_deserialize_def
      voprf_response_wf_def split: if_splits)

lemma TokenResponse_serialize_total: "\<exists>bs. TokenResponse_serialize r = Ok bs"
  by (auto simp: TokenResponse_serialize_def BlindRsaTokenResponse_serialize_def
      VoprfTokenResponse_serialize_def split: TokenResponseVariant.splits)

lemma TokenResponse_serialize_not_Err [simp]: "TokenResponse_serialize r \<noteq> Inl e"
  using TokenResponse_serialize_total [of r] by auto

lemma TokenResponse_deserialize_Ok_iff:
  "TokenResponse_deserialize t bs = Ok r \<longleftrightarrow>
     response_wf r \<and> resp_type r = t \<and> TokenResponse_serialize r = Ok bs"
proof -
  have "TokenResponse_deserialize t bs = Ok r \<longleftrightarrow>
      (\<exists>b. t \<in> {BLIND_RSA, PARTIALLY_BLIND_RSA} \<and> BlindRsaTokenResponse_deserialize bs = Ok b
          \<and> r = \<lparr>resp_type = t, resp_response = BlindRsaVariant b\<rparr>)
      \<or> (\<exists>v. t = VOPRF_P384_SHA384 \<and> VoprfTokenResponse_deserialize bs = Ok v
          \<and> r = \<lparr>resp_type = t, resp_response = VoprfVariant v\<rparr>)"
    by (auto simp: TokenResponse_deserialize_def result_iffs)
  also have "\<dots> \<longleftrightarrow> response_wf r \<and> resp_type r = t \<and> TokenResponse_serialize r = Ok bs"
    by (cases r) (auto simp: rsa_response_wire.des_Ok_iff voprf_response_wire.des_Ok_iff
        response_wf_def TokenResponse_serialize_def split: TokenResponseVariant.splits)
  finally show ?thesis .
qed

interpretation response_wire:
  strict_wire_format TokenResponse_serialize "TokenResponse_deserialize t"
    "\<lambda>r. response_wf r \<and> resp_type r = t" for t
  by unfold_locales (auto simp: TokenResponse_serialize_total TokenResponse_deserialize_Ok_iff)

text \<open>What an optional response serialises to.\<close>

definition optional_bytes :: "OptionalTokenResponse \<Rightarrow> bytes" where
  "optional_bytes r =
     (if \<not> opt_present r then [0]
      else
        (case opt_response r of
           None \<Rightarrow> [0]
         | Some resp \<Rightarrow>
             (case TokenResponse_serialize resp of
                Inl e \<Rightarrow> []
              | Inr bs \<Rightarrow> 1 # be16 (resp_type resp) @ bs)))"

lemma OptionalTokenResponse_serialize_eq: "OptionalTokenResponse_serialize r = Ok (optional_bytes r)"
proof (cases "opt_response r")
  case (Some resp)
  then show ?thesis using TokenResponse_serialize_total [of resp]
    by (auto simp: OptionalTokenResponse_serialize_def optional_bytes_def writer_simps Let_def)
qed (simp add: OptionalTokenResponse_serialize_def optional_bytes_def writer_simps)

lemma OptionalTokenResponse_deserialize_Ok_iff:
  "OptionalTokenResponse_deserialize bs = Ok r \<longleftrightarrow> optional_response_wf r \<and> bs = optional_bytes r"
proof -
  have "OptionalTokenResponse_deserialize bs = Ok r \<longleftrightarrow>
      (bs = [0] \<and> r = \<lparr>opt_present = False, opt_response = None\<rparr>)
      \<or> (\<exists>t cs resp. bs = 1 # be16 t @ cs \<and> TokenResponse_deserialize t cs = Ok resp
           \<and> r = \<lparr>opt_present = True, opt_response = Some resp\<rparr>)"
    by (cases bs)
      (auto simp: OptionalTokenResponse_deserialize_def reader_simps reading_u16_Ok_iff result_iffs)
  also have "\<dots> \<longleftrightarrow> optional_response_wf r \<and> bs = optional_bytes r"
    by (cases r) (auto simp: TokenResponse_deserialize_Ok_iff optional_response_wf_def
        optional_bytes_def split: option.splits sum.splits)
  finally show ?thesis .
qed

interpretation optional_response_wire:
  strict_wire_format OptionalTokenResponse_serialize OptionalTokenResponse_deserialize optional_response_wf
  by unfold_locales
    (auto simp: OptionalTokenResponse_serialize_eq OptionalTokenResponse_deserialize_Ok_iff)

subsection \<open>Batches\<close>

definition responses_payload :: "OptionalTokenResponse list \<Rightarrow> bytes" where
  "responses_payload rs = concat (map optional_bytes rs)"

definition response_batch_wf :: "BatchedTokenResponse \<Rightarrow> bool" where
  "response_batch_wf b \<longleftrightarrow> list_all optional_response_wf (batch_responses b)
     \<and> length (batch_responses b) \<le> MAX_RESPONSE_BATCH_SIZE
     \<and> length (responses_payload (batch_responses b)) \<le> 65535"

lemma collect_responses_eq:
  "n + length (responses_payload rs) < 2 ^ 64 \<Longrightarrow>
     collect_responses rs n acc = Ok (n + length (responses_payload rs), acc @ map optional_bytes rs)"
  by (induction rs arbitrary: n acc)
    (auto simp: OptionalTokenResponse_serialize_eq responses_payload_def)

lemma write_serialized_responses:
  "foldl (\<lambda>writer serialized. put (write_bytes serialized) writer) (writer_of xs) bss = writer_of (xs @ concat bss)"
  by (induction bss arbitrary: xs) (simp_all add: writer_simps)

lemma BatchedTokenResponse_serialize_eq:
  assumes "length (responses_payload (batch_responses b)) < 2 ^ 64"
  shows "BatchedTokenResponse_serialize b =
     Ok (varint_bytes (word_of_nat (length (responses_payload (batch_responses b))))
         @ responses_payload (batch_responses b))"
  using assms collect_responses_eq [of 0 "batch_responses b" "[]"]
  by (simp add: BatchedTokenResponse_serialize_def writer_simps write_serialized_responses Let_def
      responses_payload_def)

lemma optional_bytes_not_Nil: "optional_response_wf r \<Longrightarrow> optional_bytes r \<noteq> []"
  using OptionalTokenResponse_deserialize_Ok_iff [of "[]" r]
  by (auto simp: OptionalTokenResponse_deserialize_def reader_simps)

lemma next_response_size_present:
  "next_response_size (1 # be16 t @ ys) =
     (if authenticator_size (for_type t) = 0 then
        Err UNSUPPORTED_TOKEN_TYPE ''Unsupported batched response token type''
      else Ok (3 + (if t = VOPRF_P384_SHA384 then 145 else authenticator_size (for_type t))))"
  by (simp add: next_response_size_def be16_def Let_def numeral_2_eq_2)

lemma next_response_size_bytes:
  assumes "optional_response_wf r"
  shows "next_response_size (optional_bytes r @ ys) = Ok (length (optional_bytes r))"
proof (cases "opt_response r")
  case None
  then show ?thesis by (simp add: optional_bytes_def next_response_size_def)
next
  case (Some resp)
  then have wf: "opt_present r" "response_wf resp" using assms by (simp_all add: optional_response_wf_def)
  show ?thesis
  proof (cases "resp_response resp")
    case (BlindRsaVariant b)
    then have "resp_type resp = BLIND_RSA \<or> resp_type resp = PARTIALLY_BLIND_RSA" "length (rsa_blind_sig b) = 256"
      using wf by (auto simp: response_wf_def rsa_response_wf_def)
    then show ?thesis using Some wf BlindRsaVariant
      by (auto simp: optional_bytes_def next_response_size_present TokenResponse_serialize_def
          BlindRsaTokenResponse_serialize_def for_type_def)
  next
    case (VoprfVariant v)
    then have "resp_type resp = VOPRF_P384_SHA384" "length (voprf_evaluate_msg v) = 49"
      "length (voprf_evaluate_proof v) = 96"
      using wf by (auto simp: response_wf_def voprf_response_wf_def)
    then show ?thesis using Some wf VoprfVariant
      by (auto simp: optional_bytes_def next_response_size_present TokenResponse_serialize_def
          VoprfTokenResponse_serialize_def for_type_def)
  qed
qed

lemma response_loop_step:
  assumes "optional_response_wf r" "length acc < MAX_RESPONSE_BATCH_SIZE"
  shows "response_batch_loop (reader_at pre (optional_bytes r @ ys)) acc
    = response_batch_loop (reader_at (pre @ optional_bytes r) ys) (acc @ [r])"
proof -
  have ne: "optional_bytes r @ ys \<noteq> []" using optional_bytes_not_Nil [OF assms(1)] by simp
  have d: "OptionalTokenResponse_deserialize (optional_bytes r) = Ok r"
    using assms(1) by (simp add: OptionalTokenResponse_deserialize_Ok_iff)
  show ?thesis
    by (subst response_batch_loop.simps)
      (use assms(2) in \<open>simp only: reader_simps ne d not_le [symmetric] if_False simp_thms
        next_response_size_bytes [OF assms(1)] try_bind_simps reading_bytes_append\<close>)
qed

lemma response_loop_payload:
  "list_all optional_response_wf rs \<Longrightarrow> length acc + length rs \<le> MAX_RESPONSE_BATCH_SIZE \<Longrightarrow>
     response_batch_loop (reader_at pre (responses_payload rs)) acc = Ok \<lparr>batch_responses = acc @ rs\<rparr>"
proof (induction rs arbitrary: pre acc)
  case Nil
  show ?case by (subst response_batch_loop.simps) (simp add: responses_payload_def reader_simps)
next
  case (Cons r rs)
  then show ?case
    using response_loop_step [of r acc pre "responses_payload rs"] by (simp add: responses_payload_def)
qed

lemma response_loop_Ok:
  "response_batch_loop (reader_at pre post) acc = Ok b \<Longrightarrow> length acc \<le> MAX_RESPONSE_BATCH_SIZE \<Longrightarrow>
     \<exists>rs. b = \<lparr>batch_responses = acc @ rs\<rparr> \<and> list_all optional_response_wf rs
       \<and> post = responses_payload rs \<and> length (acc @ rs) \<le> MAX_RESPONSE_BATCH_SIZE"
proof (induction "reader_at pre post" acc arbitrary: pre post rule: response_batch_loop.induct)
  case (1 acc pre post)
  show ?case
  proof (cases "post = []")
    case True
    then show ?thesis using "1.prems"
      by (subst (asm) response_batch_loop.simps) (auto simp: reader_simps responses_payload_def)
  next
    case ne: False
    have few: "\<not> MAX_RESPONSE_BATCH_SIZE \<le> length acc" using "1.prems"(1) ne
      by (subst (asm) response_batch_loop.simps) (simp add: reader_simps split: if_splits)
    then obtain n xs ys r where n: "next_response_size post = Ok n" and post: "post = xs @ ys"
      and len: "length xs = n" and des: "OptionalTokenResponse_deserialize xs = Ok r"
      and rest: "response_batch_loop (reader_at (pre @ xs) ys) (acc @ [r]) = Ok b"
      using "1.prems"(1) ne
      by (subst (asm) response_batch_loop.simps)
        (auto simp: reader_simps reading_bytes_Ok_iff result_iffs)
    have rb: "read_bytes n (reader_at pre post) = (Some xs, reader_at (pre @ xs) ys)"
      unfolding post using read_bytes_at_append [of n xs pre ys] len by simp
    have "\<exists>rs. b = \<lparr>batch_responses = (acc @ [r]) @ rs\<rparr> \<and> list_all optional_response_wf rs
        \<and> ys = responses_payload rs \<and> length ((acc @ [r]) @ rs) \<le> MAX_RESPONSE_BATCH_SIZE"
      by (rule "1.hyps" [OF _ _ _ _ des rest]) (use rb n few ne in \<open>simp_all add: reader_simps\<close>)
    then obtain rs where "b = \<lparr>batch_responses = acc @ r # rs\<rparr>" "list_all optional_response_wf rs"
      "ys = responses_payload rs" "length (acc @ r # rs) \<le> MAX_RESPONSE_BATCH_SIZE" by auto
    moreover have "optional_response_wf r" "xs = optional_bytes r"
      using des by (simp_all add: OptionalTokenResponse_deserialize_Ok_iff)
    ultimately show ?thesis using post
      by (intro exI [of _ "r # rs"]) (simp add: responses_payload_def)
  qed
qed

lemma BatchedTokenResponse_deserialize_serialize:
  assumes "response_batch_wf b" "BatchedTokenResponse_serialize b = Ok bs"
  shows "BatchedTokenResponse_deserialize bs = Ok b"
proof -
  let ?p = "responses_payload (batch_responses b)"
  have n: "length ?p \<le> 65535" and ok: "list_all optional_response_wf (batch_responses b)"
    and few: "length (batch_responses b) \<le> MAX_RESPONSE_BATCH_SIZE"
    using assms(1) by (simp_all add: response_batch_wf_def)
  have u: "unat (word_of_nat (length ?p) :: u64) = length ?p" using n by (simp add: unat_of_nat)
  have t: "take_bit 62 (word_of_nat (length ?p) :: u64) = word_of_nat (length ?p)"
    using n u by (intro take_bit_62_id) simp
  have "\<not> MAX_RESPONSE_BATCH_PAYLOAD_SIZE < word_of_nat (length ?p)"
    using n u by (simp add: MAX_RESPONSE_BATCH_PAYLOAD_SIZE_def word_less_nat_alt)
  moreover have "bs = varint_bytes (word_of_nat (length ?p)) @ ?p"
    using assms(2) n BatchedTokenResponse_serialize_eq [of b] by simp
  ultimately show ?thesis
    using u t few response_loop_payload [OF ok, of "[]" "[]"]
    by (simp add: BatchedTokenResponse_deserialize_def reader_simps)
qed

lemma BatchedTokenResponse_deserialize_wf:
  assumes "BatchedTokenResponse_deserialize bs = Ok b"
  shows "response_batch_wf b"
proof -
  obtain v r1 where rv: "read_varint (ByteReader_new bs) = (Some v, r1)" and v: "\<not> MAX_RESPONSE_BATCH_PAYLOAD_SIZE < v"
    and body: "reading (read_bytes (unat v)) UNEXPECTED_END ''Failed to read response batch payload''
      (\<lambda>payload reader. if \<not> reader_empty reader then Err MALFORMED_DATA ''Trailing BatchedTokenResponse data''
         else response_batch_loop (ByteReader_new payload) []) r1 = Ok b"
    using assms unfolding BatchedTokenResponse_deserialize_def
    by (auto simp: reading_def [of read_varint] split: prod.splits option.splits if_splits)
  then obtain payload r2 where p: "read_bytes (unat v) r1 = (Some payload, r2)"
    and loop: "response_batch_loop (reader_at [] payload) [] = Ok b"
    by (auto simp: reading_def reader_simps split: prod.splits option.splits if_splits)
  have "length payload \<le> unat v" using p by (auto simp: read_bytes_def split: if_splits)
  moreover have "unat v \<le> 65535" using v
    by (simp add: MAX_RESPONSE_BATCH_PAYLOAD_SIZE_def word_less_nat_alt not_less)
  ultimately show ?thesis using response_loop_Ok [OF loop] by (auto simp: response_batch_wf_def)
qed

interpretation response_batch_wire:
  wire_format BatchedTokenResponse_serialize BatchedTokenResponse_deserialize response_batch_wf
  by unfold_locales
    (auto simp: BatchedTokenResponse_serialize_eq response_batch_wf_def
      intro: BatchedTokenResponse_deserialize_serialize)

end
