(* ===== verification/PP_Moq_Scope.thy ===== *)
theory PP_Moq_Scope
  imports PP_Wire_Format "HOL-Library.Sublist"
begin

text \<open>
  The Media-over-QUIC authorisation scope of extensions/moq: match rules on namespaces and
  track names, the scope, its builder, the authorisation decision and the wire format
  (src/auth_scope.cpp, include/privacy_pass/extensions/moq/types.hpp). The match rules are
  proved to be the list relations they are named after, with one exception at the empty
  pattern. Scopes within the field widths round-trip; a scope beyond them is serialised
  with truncated counts and can be read back as a scope that authorises more.
\<close>

subsection \<open>Actions and match types\<close>

datatype Action =
    CLIENT_SETUP | SERVER_SETUP | PUBLISH_NAMESPACE | SUBSCRIBE_NAMESPACE | SUBSCRIBE
  | REQUEST_UPDATE | PUBLISH | FETCH | TRACK_STATUS

fun action_value :: "Action \<Rightarrow> byte" where
  "action_value CLIENT_SETUP = 0"
| "action_value SERVER_SETUP = 1"
| "action_value PUBLISH_NAMESPACE = 2"
| "action_value SUBSCRIBE_NAMESPACE = 3"
| "action_value SUBSCRIBE = 4"
| "action_value REQUEST_UPDATE = 5"
| "action_value PUBLISH = 6"
| "action_value FETCH = 7"
| "action_value TRACK_STATUS = 8"

fun action_name :: "Action \<Rightarrow> string" where
  "action_name CLIENT_SETUP = ''CLIENT_SETUP''"
| "action_name SERVER_SETUP = ''SERVER_SETUP''"
| "action_name PUBLISH_NAMESPACE = ''PUBLISH_NAMESPACE''"
| "action_name SUBSCRIBE_NAMESPACE = ''SUBSCRIBE_NAMESPACE''"
| "action_name SUBSCRIBE = ''SUBSCRIBE''"
| "action_name REQUEST_UPDATE = ''REQUEST_UPDATE''"
| "action_name PUBLISH = ''PUBLISH''"
| "action_name FETCH = ''FETCH''"
| "action_name TRACK_STATUS = ''TRACK_STATUS''"

text \<open>\<open>static_cast<Action>\<close> of a value that passed \<open>is_valid_action\<close>.\<close>

definition action_cast :: "byte \<Rightarrow> Action" where
  "action_cast v =
     (if v = 0 then CLIENT_SETUP else if v = 1 then SERVER_SETUP else if v = 2 then PUBLISH_NAMESPACE
      else if v = 3 then SUBSCRIBE_NAMESPACE else if v = 4 then SUBSCRIBE
      else if v = 5 then REQUEST_UPDATE else if v = 6 then PUBLISH else if v = 7 then FETCH
      else TRACK_STATUS)"

definition is_valid_action :: "byte \<Rightarrow> bool" where
  "is_valid_action v \<longleftrightarrow> v \<in> {0, 1, 2, 3, 4, 5, 6, 7, 8}"

datatype MatchType = MATCH_EXACT | MATCH_PREFIX | MATCH_SUFFIX | MATCH_CONTAINS

fun match_type_value :: "MatchType \<Rightarrow> byte" where
  "match_type_value MATCH_EXACT = 0"
| "match_type_value MATCH_PREFIX = 1"
| "match_type_value MATCH_SUFFIX = 2"
| "match_type_value MATCH_CONTAINS = 3"

fun match_type_name :: "MatchType \<Rightarrow> string" where
  "match_type_name MATCH_EXACT = ''EXACT''"
| "match_type_name MATCH_PREFIX = ''PREFIX''"
| "match_type_name MATCH_SUFFIX = ''SUFFIX''"
| "match_type_name MATCH_CONTAINS = ''CONTAINS''"

definition match_type_cast :: "byte \<Rightarrow> MatchType" where
  "match_type_cast v =
     (if v = 0 then MATCH_EXACT else if v = 1 then MATCH_PREFIX else if v = 2 then MATCH_SUFFIX
      else MATCH_CONTAINS)"

definition is_valid_match_type :: "byte \<Rightarrow> bool" where
  "is_valid_match_type v \<longleftrightarrow> v \<in> {0, 1, 2, 3}"

subsection \<open>Match rules\<close>

type_synonym Namespace = "bytes list"
type_synonym TrackName = bytes

record NamespaceMatchRule =
  ns_match_type :: MatchType
  ns_pattern :: Namespace

record TrackNameMatchRule =
  track_match_type :: MatchType
  track_pattern :: TrackName

datatype NamespaceMatch = NamespaceRule NamespaceMatchRule | AnyNamespace
datatype TrackNameMatch = TrackRule TrackNameMatchRule | AnyTrack

text \<open>The loop \<open>for (i = 0; i < n; ++i) if (xs[off + i] != ys[i]) return false;\<close>\<close>

definition equal_range :: "nat \<Rightarrow> nat \<Rightarrow> 'a list \<Rightarrow> 'a list \<Rightarrow> bool" where
  "equal_range off n xs ys \<longleftrightarrow> list_all (\<lambda>i. xs ! (off + i) = ys ! i) [0..<n]"

definition namespace_rule_matches :: "NamespaceMatchRule \<Rightarrow> Namespace \<Rightarrow> bool" where
  "namespace_rule_matches rule ns =
     (let pattern = ns_pattern rule in
      case ns_match_type rule of
        MATCH_EXACT \<Rightarrow>
          (if length ns \<noteq> length pattern then False else equal_range 0 (length ns) ns pattern)
      | MATCH_PREFIX \<Rightarrow>
          (if length ns < length pattern then False else equal_range 0 (length pattern) ns pattern)
      | MATCH_SUFFIX \<Rightarrow>
          (if length ns < length pattern then False
           else equal_range (length ns - length pattern) (length pattern) ns pattern)
      | MATCH_CONTAINS \<Rightarrow>
          list_ex (\<lambda>start. equal_range start (length pattern) ns pattern)
            [0..<Suc (length ns) - length pattern])"

text \<open>
  \<open>std::search\<close>: the first position at which the pattern occurs, or the end of the range.
\<close>

definition std_search :: "'a list \<Rightarrow> 'a list \<Rightarrow> nat" where
  "std_search xs pattern =
     (case List.find (\<lambda>start. equal_range start (length pattern) xs pattern)
             [0..<Suc (length xs) - length pattern] of
        None \<Rightarrow> length xs
      | Some start \<Rightarrow> start)"

definition track_rule_matches :: "TrackNameMatchRule \<Rightarrow> TrackName \<Rightarrow> bool" where
  "track_rule_matches rule name =
     (let pattern = track_pattern rule in
      case track_match_type rule of
        MATCH_EXACT \<Rightarrow> name = pattern
      | MATCH_PREFIX \<Rightarrow>
          (if length name < length pattern then False else equal_range 0 (length pattern) name pattern)
      | MATCH_SUFFIX \<Rightarrow>
          (if length name < length pattern then False
           else equal_range 0 (length pattern) (rev name) (rev pattern))
      | MATCH_CONTAINS \<Rightarrow> std_search name pattern \<noteq> length name)"

subsection \<open>Scopes and their builder\<close>

record AuthScope =
  scope_actions :: "Action list"
  scope_namespace_match :: NamespaceMatch
  scope_track_name_match :: TrackNameMatch

definition scope_builder :: AuthScope where
  "scope_builder = \<lparr>scope_actions = [], scope_namespace_match = AnyNamespace, scope_track_name_match = AnyTrack\<rparr>"

definition allow_action :: "Action \<Rightarrow> AuthScope \<Rightarrow> AuthScope" where
  "allow_action action b = b\<lparr>scope_actions := scope_actions b @ [action]\<rparr>"

definition allow_actions :: "Action list \<Rightarrow> AuthScope \<Rightarrow> AuthScope" where
  "allow_actions actions b = foldl (\<lambda>b action. b\<lparr>scope_actions := scope_actions b @ [action]\<rparr>) b actions"

definition for_namespace :: "MatchType \<Rightarrow> Namespace \<Rightarrow> AuthScope \<Rightarrow> AuthScope" where
  "for_namespace m ns b = b\<lparr>scope_namespace_match := NamespaceRule \<lparr>ns_match_type = m, ns_pattern = ns\<rparr>\<rparr>"

definition for_any_namespace :: "AuthScope \<Rightarrow> AuthScope" where
  "for_any_namespace b = b\<lparr>scope_namespace_match := AnyNamespace\<rparr>"

definition for_track :: "MatchType \<Rightarrow> TrackName \<Rightarrow> AuthScope \<Rightarrow> AuthScope" where
  "for_track m name b = b\<lparr>scope_track_name_match := TrackRule \<lparr>track_match_type = m, track_pattern = name\<rparr>\<rparr>"

definition for_any_track :: "AuthScope \<Rightarrow> AuthScope" where
  "for_any_track b = b\<lparr>scope_track_name_match := AnyTrack\<rparr>"

definition namespace_matches :: "NamespaceMatch \<Rightarrow> Namespace \<Rightarrow> bool" where
  "namespace_matches m ns =
     (case m of AnyNamespace \<Rightarrow> True | NamespaceRule rule \<Rightarrow> namespace_rule_matches rule ns)"

definition track_matches :: "TrackNameMatch \<Rightarrow> TrackName \<Rightarrow> bool" where
  "track_matches m track =
     (case m of AnyTrack \<Rightarrow> True | TrackRule rule \<Rightarrow> track_rule_matches rule track)"

definition scope_authorizes :: "AuthScope \<Rightarrow> Action \<Rightarrow> Namespace \<Rightarrow> TrackName \<Rightarrow> bool" where
  "scope_authorizes s action ns track =
     (let action_allowed = action \<in> set (scope_actions s)
      in if \<not> action_allowed then False
         else if \<not> namespace_matches (scope_namespace_match s) ns then False
         else track_matches (scope_track_name_match s) track)"

subsection \<open>Wire format\<close>

text \<open>The casts to the field widths keep the low bits of a count or a length.\<close>

definition write_elem :: "bytes \<Rightarrow> ByteWriter \<Rightarrow> ByteWriter" where
  "write_elem elem w = put (write_bytes elem) (put (write_u16 (word_of_nat (length elem))) w)"

definition write_namespace_match :: "NamespaceMatch \<Rightarrow> ByteWriter \<Rightarrow> ByteWriter" where
  "write_namespace_match m w =
     (case m of
        AnyNamespace \<Rightarrow> put (write_u8 0xFF) w
      | NamespaceRule rule \<Rightarrow>
          (let w = put (write_u8 (match_type_value (ns_match_type rule))) w;
               w = put (write_u8 (word_of_nat (length (ns_pattern rule)))) w
           in foldl (\<lambda>w elem. write_elem elem w) w (ns_pattern rule)))"

definition write_track_match :: "TrackNameMatch \<Rightarrow> ByteWriter \<Rightarrow> ByteWriter" where
  "write_track_match m w =
     (case m of
        AnyTrack \<Rightarrow> put (write_u8 0xFF) w
      | TrackRule rule \<Rightarrow>
          (let w = put (write_u8 (match_type_value (track_match_type rule))) w;
               w = put (write_u16 (word_of_nat (length (track_pattern rule)))) w
           in put (write_bytes (track_pattern rule)) w))"

definition AuthScope_serialize :: "AuthScope \<Rightarrow> bytes result" where
  "AuthScope_serialize s =
     (let w = ByteWriter_new;
          w = put (write_u8 (word_of_nat (length (scope_actions s)))) w;
          w = foldl (\<lambda>w action. put (write_u8 (action_value action)) w) w (scope_actions s);
          w = write_namespace_match (scope_namespace_match s) w;
          w = write_track_match (scope_track_name_match s) w
      in Ok (writer_take w))"

fun read_actions :: "nat \<Rightarrow> Action list \<Rightarrow> ByteReader \<Rightarrow> (Action list \<times> ByteReader) result" where
  "read_actions 0 actions r = Ok (actions, r)"
| "read_actions (Suc n) actions r =
     reading read_u8 UNEXPECTED_END ''Failed to read action'' (\<lambda>action r.
       if \<not> is_valid_action action then
         Err MALFORMED_DATA (''Invalid action value: '' @ to_string (unat action))
       else read_actions n (actions @ [action_cast action]) r) r"

text \<open>The element length is a \<open>uint16_t\<close> and never exceeds \<open>MAX_ELEMENT_SIZE\<close>.\<close>

definition MAX_ELEMENT_SIZE :: u16 where "MAX_ELEMENT_SIZE = 65535"

fun read_elems :: "nat \<Rightarrow> Namespace \<Rightarrow> ByteReader \<Rightarrow> (Namespace \<times> ByteReader) result" where
  "read_elems 0 pattern r = Ok (pattern, r)"
| "read_elems (Suc n) pattern r =
     reading read_u16 UNEXPECTED_END ''Failed to read element length'' (\<lambda>elem_len r.
       if MAX_ELEMENT_SIZE < elem_len then Err MALFORMED_DATA ''Element too large''
       else
         reading (read_bytes (unat elem_len)) UNEXPECTED_END ''Failed to read element''
           (\<lambda>elem_data. read_elems n (pattern @ [elem_data])) r) r"

definition read_namespace_match :: "ByteReader \<Rightarrow> (NamespaceMatch \<times> ByteReader) result" where
  "read_namespace_match =
     reading read_u8 UNEXPECTED_END ''Failed to read namespace match type'' (\<lambda>ns_type r.
       if ns_type = 0xFF then Ok (AnyNamespace, r)
       else if \<not> is_valid_match_type ns_type then
         Err MALFORMED_DATA (''Invalid namespace match type: '' @ to_string (unat ns_type))
       else
         reading read_u8 UNEXPECTED_END ''Failed to read namespace count'' (\<lambda>ns_count r.
           try_bind (read_elems (unat ns_count) [] r) (\<lambda>(pattern, r).
             Ok (NamespaceRule \<lparr>ns_match_type = match_type_cast ns_type, ns_pattern = pattern\<rparr>, r))) r)"

definition read_track_match :: "ByteReader \<Rightarrow> (TrackNameMatch \<times> ByteReader) result" where
  "read_track_match =
     reading read_u8 UNEXPECTED_END ''Failed to read track match type'' (\<lambda>track_type r.
       if track_type = 0xFF then Ok (AnyTrack, r)
       else if \<not> is_valid_match_type track_type then
         Err MALFORMED_DATA (''Invalid track match type: '' @ to_string (unat track_type))
       else
         reading read_u16 UNEXPECTED_END ''Failed to read track length'' (\<lambda>track_len r.
           if MAX_ELEMENT_SIZE < track_len then Err MALFORMED_DATA ''Track pattern too large''
           else
             reading (read_bytes (unat track_len)) UNEXPECTED_END ''Failed to read track pattern''
               (\<lambda>track_data r.
                  Ok (TrackRule \<lparr>track_match_type = match_type_cast track_type,
                                 track_pattern = track_data\<rparr>, r)) r) r)"

definition AuthScope_deserialize :: "bytes \<Rightarrow> AuthScope result" where
  "AuthScope_deserialize data =
     reading read_u8 UNEXPECTED_END ''Failed to read actions count'' (\<lambda>actions_count r.
       try_bind (read_actions (unat actions_count) [] r) (\<lambda>(actions, r).
       try_bind (read_namespace_match r) (\<lambda>(nm, r).
       try_bind (read_track_match r) (\<lambda>(tm, r).
         Ok \<lparr>scope_actions = actions, scope_namespace_match = nm, scope_track_name_match = tm\<rparr>))))
       (ByteReader_new data)"

subsection \<open>The match rules are the list relations\<close>

lemma equal_range_iff:
  assumes "off + length ys \<le> length xs"
  shows "equal_range off (length ys) xs ys \<longleftrightarrow> take (length ys) (drop off xs) = ys"
proof -
  have "take (length ys) (drop off xs) = ys \<longleftrightarrow> (\<forall>i < length ys. drop off xs ! i = ys ! i)"
    using assms by (auto simp: list_eq_iff_nth_eq)
  then show ?thesis using assms by (auto simp: equal_range_def list_all_iff)
qed

lemma equal_range_prefix: "length ys \<le> length xs \<Longrightarrow> equal_range 0 (length ys) xs ys \<longleftrightarrow> prefix ys xs"
  using equal_range_iff [of 0 ys xs] by (metis add_0 append_take_drop_id drop0 prefix_def take_length_append)

lemma equal_range_suffix:
  "length ys \<le> length xs \<Longrightarrow> equal_range (length xs - length ys) (length ys) xs ys \<longleftrightarrow> suffix ys xs"
proof -
  assume "length ys \<le> length xs"
  then have "equal_range (length xs - length ys) (length ys) xs ys \<longleftrightarrow> drop (length xs - length ys) xs = ys"
    using equal_range_iff [of "length xs - length ys" ys xs] by simp
  also have "\<dots> \<longleftrightarrow> suffix ys xs"
    by (metis append_eq_conv_conj append_take_drop_id diff_diff_cancel length_append length_drop
        add_diff_cancel_right' suffix_def)
  finally show ?thesis .
qed

lemma sublist_iff_range:
  "sublist ys xs \<longleftrightarrow> (\<exists>start. start + length ys \<le> length xs \<and> take (length ys) (drop start xs) = ys)"
proof
  assume "sublist ys xs"
  then obtain ps ss where "xs = ps @ ys @ ss" by (auto simp: sublist_def)
  then show "\<exists>start. start + length ys \<le> length xs \<and> take (length ys) (drop start xs) = ys"
    by (intro exI [of _ "length ps"]) simp
next
  assume "\<exists>start. start + length ys \<le> length xs \<and> take (length ys) (drop start xs) = ys"
  then show "sublist ys xs"
    by (metis append_take_drop_id sublist_def)
qed

lemma contains_iff:
  "list_ex (\<lambda>start. equal_range start (length ys) xs ys) [0..<Suc (length xs) - length ys] \<longleftrightarrow> sublist ys xs"
proof -
  have "start < Suc (length xs) - length ys \<longleftrightarrow> start + length ys \<le> length xs" for start by linarith
  then show ?thesis by (auto simp: list_ex_iff sublist_iff_range equal_range_iff)
qed

lemma namespace_rule_matches_iff:
  "namespace_rule_matches rule ns \<longleftrightarrow>
     (case ns_match_type rule of
        MATCH_EXACT \<Rightarrow> ns = ns_pattern rule
      | MATCH_PREFIX \<Rightarrow> prefix (ns_pattern rule) ns
      | MATCH_SUFFIX \<Rightarrow> suffix (ns_pattern rule) ns
      | MATCH_CONTAINS \<Rightarrow> sublist (ns_pattern rule) ns)"
proof (cases "ns_match_type rule")
  case MATCH_EXACT
  then show ?thesis using equal_range_iff [of 0 "ns_pattern rule" ns]
    by (auto simp: namespace_rule_matches_def Let_def)
next
  case MATCH_PREFIX
  then show ?thesis using equal_range_prefix [of "ns_pattern rule" ns]
    by (auto simp: namespace_rule_matches_def Let_def dest: prefix_length_le)
next
  case MATCH_SUFFIX
  then show ?thesis using equal_range_suffix [of "ns_pattern rule" ns]
    by (auto simp: namespace_rule_matches_def Let_def dest: suffix_length_le)
next
  case MATCH_CONTAINS
  then show ?thesis by (simp add: namespace_rule_matches_def contains_iff)
qed

lemma std_search_found_iff:
  "std_search xs ys \<noteq> length xs \<longleftrightarrow> sublist ys xs \<and> \<not> (xs = [] \<and> ys = [])"
proof (cases "List.find (\<lambda>start. equal_range start (length ys) xs ys) [0..<Suc (length xs) - length ys]")
  case None
  then have "\<not> sublist ys xs"
    unfolding contains_iff [symmetric] by (auto simp: find_None_iff list_ex_iff)
  then show ?thesis using None by (simp add: std_search_def)
next
  case (Some start)
  then have start: "start < Suc (length xs) - length ys" "equal_range start (length ys) xs ys"
    and least: "\<forall>j < start. \<not> equal_range j (length ys) xs ys"
    by (auto simp: find_Some_iff)
  then have sub: "sublist ys xs"
    unfolding contains_iff [symmetric] by (auto simp: list_ex_iff)
  have "start = length xs \<longleftrightarrow> xs = [] \<and> ys = []"
  proof
    assume s: "start = length xs"
    then have "ys = []" using start(1) by (cases ys) auto
    moreover have "start = 0" using least \<open>ys = []\<close> by (auto simp: equal_range_def)
    ultimately show "xs = [] \<and> ys = []" using s by simp
  qed (use start in simp)
  then show ?thesis using Some sub by (simp add: std_search_def)
qed

lemma track_rule_matches_iff:
  "track_rule_matches rule name \<longleftrightarrow>
     (case track_match_type rule of
        MATCH_EXACT \<Rightarrow> name = track_pattern rule
      | MATCH_PREFIX \<Rightarrow> prefix (track_pattern rule) name
      | MATCH_SUFFIX \<Rightarrow> suffix (track_pattern rule) name
      | MATCH_CONTAINS \<Rightarrow> sublist (track_pattern rule) name \<and> \<not> (name = [] \<and> track_pattern rule = []))"
proof (cases "track_match_type rule")
  case MATCH_PREFIX
  then show ?thesis using equal_range_prefix [of "track_pattern rule" name]
    by (auto simp: track_rule_matches_def Let_def dest: prefix_length_le)
next
  case MATCH_SUFFIX
  then show ?thesis using equal_range_prefix [of "rev (track_pattern rule)" "rev name"]
    by (auto simp: track_rule_matches_def Let_def suffix_to_prefix dest: suffix_length_le prefix_length_le)
next
  case MATCH_CONTAINS
  then show ?thesis by (simp add: track_rule_matches_def std_search_found_iff Let_def)
qed (simp add: track_rule_matches_def)

lemma scope_authorizes_iff:
  "scope_authorizes s action ns track \<longleftrightarrow>
     action \<in> set (scope_actions s) \<and> namespace_matches (scope_namespace_match s) ns
       \<and> track_matches (scope_track_name_match s) track"
  by (auto simp: scope_authorizes_def Let_def)

lemma allow_actions_eq: "allow_actions actions b = b\<lparr>scope_actions := scope_actions b @ actions\<rparr>"
  by (induction actions arbitrary: b) (simp_all add: allow_actions_def)

subsection \<open>Encodings\<close>

lemma is_valid_action_iff: "is_valid_action v \<longleftrightarrow> action_value (action_cast v) = v"
  by (auto simp: is_valid_action_def action_cast_def)

lemma action_cast_value [simp]: "action_cast (action_value a) = a"
  by (cases a) (simp_all add: action_cast_def)

lemma is_valid_match_type_iff: "is_valid_match_type v \<longleftrightarrow> match_type_value (match_type_cast v) = v"
  by (auto simp: is_valid_match_type_def match_type_cast_def)

lemma match_type_cast_value [simp]: "match_type_cast (match_type_value m) = m"
  by (cases m) (simp_all add: match_type_cast_def)

lemma match_type_not_wildcard [simp]: "match_type_value m \<noteq> 255"
  by (cases m) simp_all

definition elem_bytes :: "bytes \<Rightarrow> bytes" where
  "elem_bytes e = be16 (word_of_nat (length e)) @ e"

definition namespace_match_bytes :: "NamespaceMatch \<Rightarrow> bytes" where
  "namespace_match_bytes m =
     (case m of
        AnyNamespace \<Rightarrow> [255]
      | NamespaceRule rule \<Rightarrow> match_type_value (ns_match_type rule) # word_of_nat (length (ns_pattern rule))
          # concat (map elem_bytes (ns_pattern rule)))"

definition track_match_bytes :: "TrackNameMatch \<Rightarrow> bytes" where
  "track_match_bytes m =
     (case m of
        AnyTrack \<Rightarrow> [255]
      | TrackRule rule \<Rightarrow> match_type_value (track_match_type rule) # elem_bytes (track_pattern rule))"

definition scope_bytes :: "AuthScope \<Rightarrow> bytes" where
  "scope_bytes s =
     word_of_nat (length (scope_actions s)) # map action_value (scope_actions s)
       @ namespace_match_bytes (scope_namespace_match s) @ track_match_bytes (scope_track_name_match s)"

definition elem_ok :: "bytes \<Rightarrow> bool" where
  "elem_ok e \<longleftrightarrow> length e \<le> 65535"

definition namespace_match_wf :: "NamespaceMatch \<Rightarrow> bool" where
  "namespace_match_wf m \<longleftrightarrow>
     (case m of AnyNamespace \<Rightarrow> True
      | NamespaceRule rule \<Rightarrow> length (ns_pattern rule) \<le> 255 \<and> list_all elem_ok (ns_pattern rule))"

definition track_match_wf :: "TrackNameMatch \<Rightarrow> bool" where
  "track_match_wf m \<longleftrightarrow> (case m of AnyTrack \<Rightarrow> True | TrackRule rule \<Rightarrow> elem_ok (track_pattern rule))"

definition scope_wf :: "AuthScope \<Rightarrow> bool" where
  "scope_wf s \<longleftrightarrow> length (scope_actions s) \<le> 255 \<and> namespace_match_wf (scope_namespace_match s)
     \<and> track_match_wf (scope_track_name_match s)"

lemma write_actions_of:
  "foldl (\<lambda>w action. put (write_u8 (action_value action)) w) (writer_of xs) as = writer_of (xs @ map action_value as)"
  by (induction as arbitrary: xs) (simp_all add: writer_simps)

lemma write_elems_of:
  "foldl (\<lambda>w elem. write_elem elem w) (writer_of xs) es = writer_of (xs @ concat (map elem_bytes es))"
  by (induction es arbitrary: xs) (simp_all add: write_elem_def elem_bytes_def writer_simps)

lemma AuthScope_serialize_eq: "AuthScope_serialize s = Ok (scope_bytes s)"
  by (simp add: AuthScope_serialize_def scope_bytes_def write_namespace_match_def write_track_match_def
      namespace_match_bytes_def track_match_bytes_def elem_bytes_def write_actions_of write_elems_of
      writer_simps Let_def split: NamespaceMatch.splits TrackNameMatch.splits)

lemma read_actions_Ok_iff:
  "read_actions n acc (reader_at pre post) = Ok (as, r) \<longleftrightarrow>
     (\<exists>bs ys. as = acc @ bs \<and> length bs = n \<and> post = map action_value bs @ ys
        \<and> r = reader_at (pre @ map action_value bs) ys)"
proof (induction n arbitrary: acc pre post)
  case 0
  show ?case by auto
next
  case (Suc n)
  have "read_actions (Suc n) acc (reader_at pre post) = Ok (as, r) \<longleftrightarrow>
      (\<exists>b cs. post = b # cs \<and> is_valid_action b
         \<and> read_actions n (acc @ [action_cast b]) (reader_at (pre @ [b]) cs) = Ok (as, r))"
    by (auto simp: reading_u8_Ok_iff)
  also have "\<dots> \<longleftrightarrow> (\<exists>a cs. post = action_value a # cs
         \<and> read_actions n (acc @ [a]) (reader_at (pre @ [action_value a]) cs) = Ok (as, r))"
    by (metis action_cast_value is_valid_action_iff)
  also have "\<dots> \<longleftrightarrow> (\<exists>bs ys. as = acc @ bs \<and> length bs = Suc n \<and> post = map action_value bs @ ys
        \<and> r = reader_at (pre @ map action_value bs) ys)"
    unfolding Suc.IH length_Suc_conv by fastforce
  finally show ?case .
qed

lemma elem_len_iff: "length e = unat (v :: u16) \<longleftrightarrow> elem_ok e \<and> v = word_of_nat (length e)"
  by (simp add: size_u16_iff elem_ok_def)

lemma elem_ok_unat: "elem_ok e \<Longrightarrow> unat (word_of_nat (length e) :: u16) = length e"
  using elem_len_iff [of e "word_of_nat (length e)"] by simp

lemma read_elems_Ok_iff:
  "read_elems n acc (reader_at pre post) = Ok (es, r) \<longleftrightarrow>
     (\<exists>fs ys. es = acc @ fs \<and> length fs = n \<and> list_all elem_ok fs \<and> post = concat (map elem_bytes fs) @ ys
        \<and> r = reader_at (pre @ concat (map elem_bytes fs)) ys)"
proof (induction n arbitrary: acc pre post)
  case 0
  show ?case by auto
next
  case (Suc n)
  have "\<not> MAX_ELEMENT_SIZE < v" for v
    by (simp add: MAX_ELEMENT_SIZE_def word_less_nat_alt not_less)
  then have "read_elems (Suc n) acc (reader_at pre post) = Ok (es, r) \<longleftrightarrow>
      (\<exists>v e cs. post = be16 v @ e @ cs \<and> length e = unat v
         \<and> read_elems n (acc @ [e]) (reader_at (pre @ be16 v @ e) cs) = Ok (es, r))"
    by (auto simp: reading_u16_Ok_iff reading_bytes_Ok_iff)
  also have "\<dots> \<longleftrightarrow> (\<exists>e cs. elem_ok e \<and> post = elem_bytes e @ cs
         \<and> read_elems n (acc @ [e]) (reader_at (pre @ elem_bytes e) cs) = Ok (es, r))"
    unfolding elem_bytes_def elem_len_iff by auto
  also have "\<dots> \<longleftrightarrow> (\<exists>fs ys. es = acc @ fs \<and> length fs = Suc n \<and> list_all elem_ok fs
        \<and> post = concat (map elem_bytes fs) @ ys \<and> r = reader_at (pre @ concat (map elem_bytes fs)) ys)"
    unfolding Suc.IH length_Suc_conv by fastforce
  finally show ?case .
qed

lemma decodes_namespace_match: "decodes read_namespace_match namespace_match_bytes namespace_match_wf"
proof (rule decodesI)
  fix pre ys m
  assume wf: "namespace_match_wf m"
  show "read_namespace_match (reader_at pre (namespace_match_bytes m @ ys))
      = Ok (m, reader_at (pre @ namespace_match_bytes m) ys)"
  proof (cases m)
    case (NamespaceRule rule)
    have es: "read_elems (length (ns_pattern rule)) [] (reader_at p (concat (map elem_bytes (ns_pattern rule)) @ ys))
        = Ok (ns_pattern rule, reader_at (p @ concat (map elem_bytes (ns_pattern rule))) ys)" for p
      using wf by (simp add: read_elems_Ok_iff NamespaceRule namespace_match_wf_def)
    have c: "unat (word_of_nat (length (ns_pattern rule)) :: byte) = length (ns_pattern rule)"
      using wf by (intro unat_of_nat_u8) (simp add: NamespaceRule namespace_match_wf_def)
    show ?thesis
      by (simp add: NamespaceRule namespace_match_bytes_def read_namespace_match_def reader_simps
          is_valid_match_type_iff c es)
  qed (simp add: namespace_match_bytes_def read_namespace_match_def reader_simps)
next
  fix pre post m r
  assume "read_namespace_match (reader_at pre post) = Ok (m, r)"
  then show "namespace_match_wf m \<and> (\<exists>ys. post = namespace_match_bytes m @ ys)"
    by (auto simp: read_namespace_match_def reading_u8_Ok_iff try_bind_Ok_iff read_elems_Ok_iff
        namespace_match_wf_def namespace_match_bytes_def is_valid_match_type_iff size_byte_iff
        split: if_splits)
qed

lemma decodes_track_match: "decodes read_track_match track_match_bytes track_match_wf"
proof (rule decodesI)
  have max: "\<not> MAX_ELEMENT_SIZE < v" for v
    by (simp add: MAX_ELEMENT_SIZE_def word_less_nat_alt not_less)
  fix pre ys m
  assume wf: "track_match_wf m"
  show "read_track_match (reader_at pre (track_match_bytes m @ ys))
      = Ok (m, reader_at (pre @ track_match_bytes m) ys)"
  proof (cases m)
    case (TrackRule rule)
    have "unat (word_of_nat (length (track_pattern rule)) :: u16) = length (track_pattern rule)"
      using wf by (simp add: elem_ok_unat TrackRule track_match_wf_def del: unat_of_nat)
    then show ?thesis
      by (simp add: TrackRule track_match_bytes_def read_track_match_def elem_bytes_def reader_simps
          is_valid_match_type_iff max del: unat_of_nat)
  qed (simp add: track_match_bytes_def read_track_match_def reader_simps)
next
  fix pre post m r
  assume "read_track_match (reader_at pre post) = Ok (m, r)"
  then show "track_match_wf m \<and> (\<exists>ys. post = track_match_bytes m @ ys)"
    by (auto simp: read_track_match_def reading_u8_Ok_iff reading_u16_Ok_iff reading_bytes_Ok_iff
        elem_len_iff track_match_wf_def track_match_bytes_def elem_bytes_def is_valid_match_type_iff
        split: if_splits)
qed

lemma decodes_actions: "decodes (read_actions n []) (map action_value) (\<lambda>as. length as = n)"
  unfolding decodes_def by (auto simp: read_actions_Ok_iff)

lemma AuthScope_deserialize_Ok_iff:
  "AuthScope_deserialize bs = Ok s \<longleftrightarrow> scope_wf s \<and> (\<exists>ys. bs = scope_bytes s @ ys)"
proof -
  have "AuthScope_deserialize bs = Ok s \<longleftrightarrow>
      (\<exists>c as nm tm ys. length as = unat c \<and> namespace_match_wf nm \<and> track_match_wf tm
        \<and> bs = c # map action_value as @ namespace_match_bytes nm @ track_match_bytes tm @ ys
        \<and> s = \<lparr>scope_actions = as, scope_namespace_match = nm, scope_track_name_match = tm\<rparr>)"
    unfolding AuthScope_deserialize_def reader_new_at reading_u8_Ok_iff
      decodes_seq_Ok_iff [OF decodes_actions] decodes_seq_Ok_iff [OF decodes_namespace_match]
      decodes_seq_Ok_iff [OF decodes_track_match]
    by (simp; blast)
  also have "\<dots> \<longleftrightarrow> scope_wf s \<and> (\<exists>ys. bs = scope_bytes s @ ys)"
    unfolding size_byte_iff by (cases s) (auto simp: scope_wf_def scope_bytes_def)
  finally show ?thesis .
qed

interpretation scope_wire: tolerant_wire_format AuthScope_serialize AuthScope_deserialize scope_wf
  by unfold_locales (auto simp: AuthScope_serialize_eq AuthScope_deserialize_Ok_iff)

subsection \<open>Truncated counts\<close>

text \<open>
  A scope of 257 actions for one namespace and one track. Its action count is written as 1,
  and the bytes of the remaining actions are read as match rules.
\<close>

definition overlong_scope :: AuthScope where
  "overlong_scope =
     for_track MATCH_EXACT [1] (for_namespace MATCH_EXACT [[1]]
       (allow_actions ([SUBSCRIBE, SERVER_SETUP, CLIENT_SETUP, SERVER_SETUP, CLIENT_SETUP, CLIENT_SETUP]
                       @ replicate 251 CLIENT_SETUP) scope_builder))"

definition widened_scope :: AuthScope where
  "widened_scope =
     for_track MATCH_PREFIX [] (for_namespace MATCH_PREFIX [] (allow_action SUBSCRIBE scope_builder))"

lemmas scope_builder_defs =
  overlong_scope_def widened_scope_def for_track_def for_namespace_def for_any_track_def
  for_any_namespace_def allow_actions_eq allow_action_def scope_builder_def

lemma overlong_scope_bytes: "\<exists>ys. scope_bytes overlong_scope = scope_bytes widened_scope @ ys"
  by (simp add: scope_bytes_def scope_builder_defs namespace_match_bytes_def track_match_bytes_def
      elem_bytes_def be16_def)

end
