(* ===== verification/PP_Moq_Authorization.thy ===== *)
theory PP_Moq_Authorization
  imports PP_Moq_Scope
begin

text \<open>
  \<open>AuthorizationInfo\<close> of extensions/moq/src/authorization_info.cpp: a list of scopes, its
  builder, the authorisation decisions, the wire format, its base64url form for the
  origin_info of a challenge, and the three presets with exactly what each authorises.
\<close>

record AuthorizationInfo =
  info_scopes :: "AuthScope list"

definition info_builder :: AuthorizationInfo where
  "info_builder = \<lparr>info_scopes = []\<rparr>"

definition add_scope :: "AuthScope \<Rightarrow> AuthorizationInfo \<Rightarrow> AuthorizationInfo" where
  "add_scope scope b = b\<lparr>info_scopes := info_scopes b @ [scope]\<rparr>"

definition add_scopes :: "AuthScope list \<Rightarrow> AuthorizationInfo \<Rightarrow> AuthorizationInfo" where
  "add_scopes scopes b = foldl (\<lambda>b scope. b\<lparr>info_scopes := info_scopes b @ [scope]\<rparr>) b scopes"

text \<open>The two decision loops return at the first scope that allows, and that forbids.\<close>

fun any_scope_authorizes :: "AuthScope list \<Rightarrow> Action \<Rightarrow> Namespace \<Rightarrow> TrackName \<Rightarrow> bool" where
  "any_scope_authorizes [] action ns track = False"
| "any_scope_authorizes (s # ss) action ns track =
     (if scope_authorizes s action ns track then True else any_scope_authorizes ss action ns track)"

definition info_authorizes :: "AuthorizationInfo \<Rightarrow> Action \<Rightarrow> Namespace \<Rightarrow> TrackName \<Rightarrow> bool" where
  "info_authorizes i action ns track = any_scope_authorizes (info_scopes i) action ns track"

fun info_authorizes_all :: "AuthorizationInfo \<Rightarrow> Action list \<Rightarrow> Namespace \<Rightarrow> TrackName \<Rightarrow> bool" where
  "info_authorizes_all i [] ns track = True"
| "info_authorizes_all i (a # as) ns track =
     (if \<not> info_authorizes i a ns track then False else info_authorizes_all i as ns track)"

fun write_scopes :: "AuthScope list \<Rightarrow> ByteWriter \<Rightarrow> bytes result" where
  "write_scopes [] w = Ok (writer_take w)"
| "write_scopes (s # ss) w =
     try_bind (AuthScope_serialize s) (\<lambda>scope_bytes.
       write_scopes ss
         (put (write_bytes scope_bytes) (put (write_u16 (word_of_nat (length scope_bytes))) w)))"

definition AuthorizationInfo_serialize :: "AuthorizationInfo \<Rightarrow> bytes result" where
  "AuthorizationInfo_serialize i =
     write_scopes (info_scopes i) (put (write_u8 (word_of_nat (length (info_scopes i)))) ByteWriter_new)"

fun read_scopes :: "nat \<Rightarrow> AuthScope list \<Rightarrow> ByteReader \<Rightarrow> AuthorizationInfo result" where
  "read_scopes 0 scopes r = Ok \<lparr>info_scopes = scopes\<rparr>"
| "read_scopes (Suc n) scopes r =
     reading read_u16 UNEXPECTED_END ''Failed to read scope length'' (\<lambda>scope_len.
     reading (read_bytes (unat scope_len)) UNEXPECTED_END ''Failed to read scope data'' (\<lambda>scope_data r.
       try_bind (AuthScope_deserialize scope_data) (\<lambda>scope. read_scopes n (scopes @ [scope]) r))) r"

definition AuthorizationInfo_deserialize :: "bytes \<Rightarrow> AuthorizationInfo result" where
  "AuthorizationInfo_deserialize data =
     reading read_u8 UNEXPECTED_END ''Failed to read scope count''
       (\<lambda>scope_count. read_scopes (unat scope_count) []) (ByteReader_new data)"

definition encode_for_origin_info :: "AuthorizationInfo \<Rightarrow> string result" where
  "encode_for_origin_info i = try_bind (AuthorizationInfo_serialize i) (\<lambda>serialized. Ok (b64_encode serialized))"

definition decode_from_origin_info :: "string \<Rightarrow> AuthorizationInfo result" where
  "decode_from_origin_info origin_info = try_bind (b64_decode origin_info) AuthorizationInfo_deserialize"

definition for_subscriber :: "Namespace \<Rightarrow> TrackName \<Rightarrow> AuthorizationInfo" where
  "for_subscriber ns track =
     add_scope (for_track MATCH_EXACT track (for_namespace MATCH_EXACT ns
       (allow_actions [CLIENT_SETUP, SUBSCRIBE, FETCH, TRACK_STATUS] scope_builder))) info_builder"

definition for_publisher :: "Namespace \<Rightarrow> AuthorizationInfo" where
  "for_publisher ns =
     add_scope (for_any_track (for_namespace MATCH_EXACT ns
       (allow_actions [CLIENT_SETUP, PUBLISH_NAMESPACE, PUBLISH] scope_builder))) info_builder"

definition for_relay :: AuthorizationInfo where
  "for_relay =
     add_scope (for_any_track (for_any_namespace
       (allow_actions [CLIENT_SETUP, SERVER_SETUP, PUBLISH_NAMESPACE, SUBSCRIBE_NAMESPACE, SUBSCRIBE,
                       REQUEST_UPDATE, PUBLISH, FETCH, TRACK_STATUS] scope_builder))) info_builder"

subsection \<open>Decisions\<close>

lemma info_authorizes_iff:
  "info_authorizes i action ns track \<longleftrightarrow> (\<exists>s \<in> set (info_scopes i). scope_authorizes s action ns track)"
proof -
  have "any_scope_authorizes ss action ns track \<longleftrightarrow> (\<exists>s \<in> set ss. scope_authorizes s action ns track)" for ss
    by (induction ss) auto
  then show ?thesis by (simp add: info_authorizes_def)
qed

lemma info_authorizes_all_iff:
  "info_authorizes_all i as ns track \<longleftrightarrow> (\<forall>a \<in> set as. info_authorizes i a ns track)"
  by (induction as) auto

lemma authorizes_add_scope:
  "info_authorizes (add_scope s i) action ns track \<longleftrightarrow>
     info_authorizes i action ns track \<or> scope_authorizes s action ns track"
  by (auto simp: info_authorizes_iff add_scope_def)

lemma add_scopes_eq: "add_scopes scopes b = b\<lparr>info_scopes := info_scopes b @ scopes\<rparr>"
  by (induction scopes arbitrary: b) (simp_all add: add_scopes_def)

lemmas preset_defs =
  for_subscriber_def for_publisher_def for_relay_def add_scope_def info_builder_def scope_builder_defs

lemma for_subscriber_authorizes_iff:
  "info_authorizes (for_subscriber ns track) action ns' track' \<longleftrightarrow>
     action \<in> {CLIENT_SETUP, SUBSCRIBE, FETCH, TRACK_STATUS} \<and> ns' = ns \<and> track' = track"
  by (auto simp: preset_defs info_authorizes_iff scope_authorizes_iff namespace_matches_def
      track_matches_def namespace_rule_matches_iff track_rule_matches_iff)

lemma for_publisher_authorizes_iff:
  "info_authorizes (for_publisher ns) action ns' track' \<longleftrightarrow>
     action \<in> {CLIENT_SETUP, PUBLISH_NAMESPACE, PUBLISH} \<and> ns' = ns"
  by (auto simp: preset_defs info_authorizes_iff scope_authorizes_iff namespace_matches_def
      track_matches_def namespace_rule_matches_iff)

lemma for_relay_authorizes: "info_authorizes for_relay action ns track"
  by (cases action) (simp_all add: preset_defs info_authorizes_iff scope_authorizes_iff
      namespace_matches_def track_matches_def)

subsection \<open>Wire format\<close>

definition info_wf :: "AuthorizationInfo \<Rightarrow> bool" where
  "info_wf i \<longleftrightarrow> length (info_scopes i) \<le> 255
     \<and> list_all (\<lambda>s. scope_wf s \<and> length (scope_bytes s) \<le> 65535) (info_scopes i)"

definition framed_scope :: "AuthScope \<Rightarrow> bytes" where
  "framed_scope s = be16 (word_of_nat (length (scope_bytes s))) @ scope_bytes s"

definition info_bytes :: "AuthorizationInfo \<Rightarrow> bytes" where
  "info_bytes i = word_of_nat (length (info_scopes i)) # concat (map framed_scope (info_scopes i))"

lemma write_scopes_of: "write_scopes ss (writer_of xs) = Ok (xs @ concat (map framed_scope ss))"
  by (induction ss arbitrary: xs) (simp_all add: AuthScope_serialize_eq framed_scope_def writer_simps)

lemma AuthorizationInfo_serialize_eq: "AuthorizationInfo_serialize i = Ok (info_bytes i)"
  by (simp add: AuthorizationInfo_serialize_def writer_simps write_scopes_of info_bytes_def)

lemma read_scopes_framed:
  "list_all (\<lambda>s. scope_wf s \<and> length (scope_bytes s) \<le> 65535) ss \<Longrightarrow>
     read_scopes (length ss) acc (reader_at pre (concat (map framed_scope ss) @ ys)) = Ok \<lparr>info_scopes = acc @ ss\<rparr>"
proof (induction ss arbitrary: acc pre)
  case (Cons s ss)
  then have "AuthScope_deserialize (scope_bytes s) = Ok s"
    "unat (word_of_nat (length (scope_bytes s)) :: u16) = length (scope_bytes s)"
    by (simp_all add: AuthScope_deserialize_Ok_iff unat_of_nat_u16)
  then show ?case using Cons by (simp add: framed_scope_def reader_simps del: unat_of_nat)
qed simp

lemma AuthorizationInfo_deserialize_append:
  assumes "info_wf i"
  shows "AuthorizationInfo_deserialize (info_bytes i @ ys) = Ok i"
proof -
  have "unat (word_of_nat (length (info_scopes i)) :: byte) = length (info_scopes i)"
    using assms by (intro unat_of_nat_u8) (simp add: info_wf_def)
  then show ?thesis using assms
    by (simp add: AuthorizationInfo_deserialize_def info_bytes_def reader_simps info_wf_def
        read_scopes_framed del: unat_of_nat)
qed

lemma read_scopes_wf:
  "read_scopes n acc (reader_at pre post) = Ok i \<Longrightarrow>
     \<exists>ss. i = \<lparr>info_scopes = acc @ ss\<rparr> \<and> length ss = n
       \<and> list_all (\<lambda>s. scope_wf s \<and> length (scope_bytes s) \<le> 65535) ss"
proof (induction n arbitrary: acc pre post)
  case (Suc n)
  then obtain v xs ys s p where "length xs = unat (v :: u16)" "AuthScope_deserialize xs = Ok s"
    and rest: "read_scopes n (acc @ [s]) (reader_at p ys) = Ok i"
    by (auto simp: reading_u16_Ok_iff reading_bytes_Ok_iff try_bind_Ok_iff)
  then have "scope_wf s" "length (scope_bytes s) \<le> unat v" by (auto simp: AuthScope_deserialize_Ok_iff)
  moreover have "unat v \<le> 65535" by simp
  ultimately have s: "scope_wf s" "length (scope_bytes s) \<le> 65535" by linarith+
  from Suc.IH [OF rest] obtain ss where "i = \<lparr>info_scopes = acc @ s # ss\<rparr>" "length ss = n"
    "list_all (\<lambda>s. scope_wf s \<and> length (scope_bytes s) \<le> 65535) ss" by auto
  then show ?case using s by (intro exI [of _ "s # ss"]) simp
qed simp

lemma AuthorizationInfo_deserialize_wf: "AuthorizationInfo_deserialize bs = Ok i \<Longrightarrow> info_wf i"
  unfolding AuthorizationInfo_deserialize_def reader_new_at reading_u8_Ok_iff info_wf_def
  by (auto dest!: read_scopes_wf)

interpretation info_wire: wire_format AuthorizationInfo_serialize AuthorizationInfo_deserialize info_wf
  using AuthorizationInfo_deserialize_append [of _ "[]"]
  by unfold_locales (auto simp: AuthorizationInfo_serialize_eq)

lemma origin_info_round_trip:
  assumes "info_wf i"
  shows "try_bind (encode_for_origin_info i) decode_from_origin_info = Ok i"
  using info_wire.text_round_trip [OF assms]
  by (simp add: encode_for_origin_info_def decode_from_origin_info_def AuthorizationInfo_serialize_eq)

text \<open>The encoding is a proper origin entry: it is not empty and has no comma.\<close>

lemma origin_info_entry:
  "encode_for_origin_info i = Ok s \<Longrightarrow> s \<noteq> [] \<and> CHR '','' \<notin> set s"
  using set_b64_encode [of "info_bytes i"] table_excludes(4)
  by (auto simp: encode_for_origin_info_def AuthorizationInfo_serialize_eq info_bytes_def)

end
