(* ===== verification/PP_Ossl.thy ===== *)
theory PP_Ossl
  imports PP_Hash
begin

text \<open>
  The part of OpenSSL 3 that blind_rsa.cpp, voprf.cpp and compat.hpp call, as a parameter of
  the model: a record that extends the hash and random functions of \<open>PP_Hash\<close> layer by
  layer with the big numbers, the RSA keys and the curve group. A function with a C return
  code is given with that code and the value it leaves in its output argument, so that
  code which ignores the return code uses the second component. A BIGNUM is the natural
  number it holds, a key, a context or a point a value of a type of its own. The last
  section gives the effects of the code that uses it: a step reads and replaces the
  generator of random numbers and may fail to return.
\<close>

subsection \<open>Big numbers\<close>

record ('md, 'kdf, 'rng) bn_api = "('md, 'kdf, 'rng) rand_api" +
  BN_new :: bool
  BN_CTX_new :: bool
  BN_MONT_CTX_new :: bool
  BN_bin2bn :: "bytes \<Rightarrow> nat option"
  BN_bn2binpad :: "nat \<Rightarrow> nat \<Rightarrow> int \<times> bytes"
  BN_num_bits :: "nat \<Rightarrow> int"
  BN_num_bytes :: "nat \<Rightarrow> int"
  BN_is_zero :: "nat \<Rightarrow> bool"
  BN_is_odd :: "nat \<Rightarrow> bool"
  BN_is_word :: "nat \<Rightarrow> nat \<Rightarrow> bool"
  BN_cmp :: "nat \<Rightarrow> nat \<Rightarrow> int"
  BN_rand_range :: "'rng \<Rightarrow> nat \<Rightarrow> (int \<times> nat) \<times> 'rng"
  BN_mod :: "nat \<Rightarrow> nat \<Rightarrow> int \<times> nat"
  BN_mod_add :: "nat \<Rightarrow> nat \<Rightarrow> nat \<Rightarrow> int \<times> nat"
  BN_mod_sub :: "nat \<Rightarrow> nat \<Rightarrow> nat \<Rightarrow> int \<times> nat"
  BN_mod_mul :: "nat \<Rightarrow> nat \<Rightarrow> nat \<Rightarrow> int \<times> nat"
  BN_mod_sqr :: "nat \<Rightarrow> nat \<Rightarrow> int \<times> nat"
  BN_mod_exp :: "nat \<Rightarrow> nat \<Rightarrow> nat \<Rightarrow> int \<times> nat"
  BN_mod_inverse :: "nat \<Rightarrow> nat \<Rightarrow> nat option"
  BN_add :: "nat \<Rightarrow> nat \<Rightarrow> int \<times> nat"
  BN_sub :: "nat \<Rightarrow> nat \<Rightarrow> int \<times> nat"
  BN_rshift :: "nat \<Rightarrow> nat \<Rightarrow> int \<times> nat"
  BN_MONT_CTX_set :: "nat \<Rightarrow> int"
  BN_mod_exp_mont :: "nat \<Rightarrow> nat \<Rightarrow> nat \<Rightarrow> int \<times> nat"
  BN_mod_exp_mont_consttime :: "nat \<Rightarrow> nat \<Rightarrow> nat \<Rightarrow> int \<times> nat"
  BN_to_montgomery :: "nat \<Rightarrow> nat \<Rightarrow> int \<times> nat"
  BN_mod_mul_montgomery :: "nat \<Rightarrow> nat \<Rightarrow> nat \<Rightarrow> int \<times> nat"

subsection \<open>RSA keys\<close>

datatype rsa_param = PARAM_RSA_N | PARAM_RSA_E | PARAM_RSA_D

datatype digest_param = PARAM_RSA_DIGEST | PARAM_RSA_MGF1_DIGEST | PARAM_RSA_MASKGENFUNC

datatype rsa_padding = RSA_PKCS1_PSS_PADDING

record ('md, 'kdf, 'rng, 'pkey, 'kc, 'bld) rsa_api = "('md, 'kdf, 'rng) bn_api" +
  d2i_PUBKEY :: "bytes \<Rightarrow> 'pkey option"
  d2i_AutoPrivateKey :: "bytes \<Rightarrow> 'pkey option"
  i2d_PUBKEY_size :: "'pkey \<Rightarrow> int"
  i2d_PUBKEY :: "'pkey \<Rightarrow> int \<times> bytes"
  i2d_PrivateKey_size :: "'pkey \<Rightarrow> int"
  i2d_PrivateKey :: "'pkey \<Rightarrow> int \<times> bytes"
  EVP_PKEY_RSA_PSS :: int
  EVP_PKEY_base_id :: "'pkey \<Rightarrow> int"
  EVP_PKEY_get_bn_param :: "'pkey \<Rightarrow> rsa_param \<Rightarrow> int \<times> nat"
  EVP_PKEY_get_saltlen_param :: "'pkey \<Rightarrow> int \<times> int"
  EVP_PKEY_get_utf8_string_param :: "'pkey \<Rightarrow> digest_param \<Rightarrow> int \<times> string"
  EVP_PKEY_get1_RSA :: "'pkey \<Rightarrow> bool"
  RSA_size :: "'pkey \<Rightarrow> nat"
  RSA_padding_add_PKCS1_PSS_mgf1 ::
    "'rng \<Rightarrow> 'pkey \<Rightarrow> bytes \<Rightarrow> EVP_MD \<Rightarrow> EVP_MD \<Rightarrow> int \<Rightarrow> (int \<times> bytes) \<times> 'rng"
  OSSL_PARAM_BLD_new :: "'bld option"
  OSSL_PARAM_BLD_push_BN :: "'bld \<Rightarrow> rsa_param \<Rightarrow> nat \<Rightarrow> int \<times> 'bld"
  OSSL_PARAM_BLD_push_utf8_string :: "'bld \<Rightarrow> digest_param \<Rightarrow> string \<Rightarrow> int \<times> 'bld"
  OSSL_PARAM_BLD_push_saltlen :: "'bld \<Rightarrow> int \<Rightarrow> int \<times> 'bld"
  OSSL_PARAM_BLD_to_param :: "'bld \<Rightarrow> 'bld option"
  EVP_PKEY_CTX_new_from_name :: "string \<Rightarrow> 'kc option"
  EVP_PKEY_fromdata_init :: "'kc \<Rightarrow> int \<times> 'kc"
  EVP_PKEY_fromdata :: "'kc \<Rightarrow> 'bld \<Rightarrow> int \<times> 'pkey option"
  EVP_PKEY_CTX_new_rsa_pss :: "'kc option"
  EVP_PKEY_keygen_init :: "'kc \<Rightarrow> int \<times> 'kc"
  set_rsa_keygen_bits :: "'kc \<Rightarrow> int \<Rightarrow> int \<times> 'kc"
  set_rsa_pss_keygen_md :: "'kc \<Rightarrow> EVP_MD \<Rightarrow> int \<times> 'kc"
  set_rsa_pss_keygen_mgf1_md :: "'kc \<Rightarrow> EVP_MD \<Rightarrow> int \<times> 'kc"
  set_rsa_pss_keygen_saltlen :: "'kc \<Rightarrow> int \<Rightarrow> int \<times> 'kc"
  EVP_PKEY_keygen :: "'rng \<Rightarrow> 'kc \<Rightarrow> (int \<times> 'pkey option) \<times> 'rng"
  EVP_DigestVerifyInit :: "'md \<Rightarrow> EVP_MD \<Rightarrow> 'pkey \<Rightarrow> int \<times> 'md"
  EVP_DigestSignInit :: "'md \<Rightarrow> EVP_MD \<Rightarrow> 'pkey \<Rightarrow> int \<times> 'md"
  set_rsa_padding :: "'md \<Rightarrow> rsa_padding \<Rightarrow> int \<times> 'md"
  set_rsa_pss_saltlen :: "'md \<Rightarrow> int \<Rightarrow> int \<times> 'md"
  set_rsa_mgf1_md :: "'md \<Rightarrow> EVP_MD \<Rightarrow> int \<times> 'md"
  EVP_DigestVerify :: "'md \<Rightarrow> bytes \<Rightarrow> bytes \<Rightarrow> int"
  EVP_DigestSign_size :: "'md \<Rightarrow> bytes \<Rightarrow> int \<times> nat"
  EVP_DigestSign :: "'rng \<Rightarrow> 'md \<Rightarrow> bytes \<Rightarrow> nat \<Rightarrow> (int \<times> bytes) \<times> 'rng"

subsection \<open>The curve group\<close>

text \<open>
  There is one group, P-384; \<open>EC_GROUP_new_by_curve_name\<close> says whether it could be
  created. \<open>EC_POINT_mul g qm\<close> gets the scalar of the generator, when the code passes
  one, and the point with its scalar, when the code passes them.
\<close>

record ('md, 'kdf, 'rng, 'pkey, 'kc, 'bld, 'pt) ossl =
    "('md, 'kdf, 'rng, 'pkey, 'kc, 'bld) rsa_api" +
  EC_GROUP_new_by_curve_name :: bool
  EC_GROUP_get_curve :: "nat \<times> nat \<times> nat"
  EC_GROUP_get_order :: "int \<times> nat"
  EC_POINT_new :: bool
  EC_POINT_point2oct_size :: "'pt \<Rightarrow> nat"
  EC_POINT_point2oct :: "'pt \<Rightarrow> nat \<times> bytes"
  EC_POINT_oct2point :: "bytes \<Rightarrow> int \<times> 'pt"
  EC_POINT_is_on_curve :: "'pt \<Rightarrow> int"
  EC_POINT_is_at_infinity :: "'pt \<Rightarrow> int"
  EC_POINT_add :: "'pt \<Rightarrow> 'pt \<Rightarrow> int \<times> 'pt"
  EC_POINT_mul :: "nat option \<Rightarrow> ('pt \<times> nat) option \<Rightarrow> int \<times> 'pt"
  EC_POINT_set_affine_coordinates :: "nat \<Rightarrow> nat \<Rightarrow> int \<times> 'pt"
  CRYPTO_memcmp :: "bytes \<Rightarrow> bytes \<Rightarrow> int"

subsection \<open>Effects\<close>

text \<open>
  An operation that draws random numbers maps the generator to its result and the
  generator it leaves, or to \<open>None\<close> when it does not return: the two rejection loops of
  the code run for as long as the generator gives numbers they reject.
\<close>

type_synonym ('rng, 'a) proc = "'rng \<Rightarrow> ('a result \<times> 'rng) option"

definition tryM :: "('rng, 'a) proc \<Rightarrow> ('a \<Rightarrow> ('rng, 'b) proc) \<Rightarrow> ('rng, 'b) proc" where
  "tryM m f rng =
     (case m rng of
        None \<Rightarrow> None
      | Some (Inl e, rng') \<Rightarrow> Some (Inl e, rng')
      | Some (Inr x, rng') \<Rightarrow> f x rng')"

definition liftM :: "'a result \<Rightarrow> ('rng, 'a) proc" where
  "liftM r rng = Some (r, rng)"

definition drawM :: "('rng \<Rightarrow> 'a result \<times> 'rng) \<Rightarrow> ('rng, 'a) proc" where
  "drawM f rng = Some (f rng)"

named_theorems proc_simps

lemma tryM_liftM [simp, proc_simps]:
  "tryM (liftM r) f rng = (case r of Inl e \<Rightarrow> Some (Inl e, rng) | Inr x \<Rightarrow> f x rng)"
  by (cases r) (simp_all add: tryM_def liftM_def)

lemma tryM_Some_Ok_iff [proc_simps]:
  "tryM m f rng = Some (Inr y, rng'') \<longleftrightarrow>
     (\<exists>x rng'. m rng = Some (Inr x, rng') \<and> f x rng' = Some (Inr y, rng''))"
  by (auto simp: tryM_def split: option.splits sum.splits prod.splits)

lemma tryM_None_iff [proc_simps]:
  "tryM m f rng = None \<longleftrightarrow>
     m rng = None \<or> (\<exists>x rng'. m rng = Some (Inr x, rng') \<and> f x rng' = None)"
  by (auto simp: tryM_def split: option.splits sum.splits prod.splits)

lemma liftM_Some_iff [simp, proc_simps]: "liftM r rng = Some (x, rng') \<longleftrightarrow> r = x \<and> rng' = rng"
  by (auto simp: liftM_def)

lemma liftM_not_None [simp]: "liftM r rng \<noteq> None"
  by (simp add: liftM_def)

lemma drawM_Some_iff [simp, proc_simps]: "drawM f rng = Some (x, rng') \<longleftrightarrow> f rng = (x, rng')"
  by (auto simp: drawM_def)

lemma drawM_not_None [simp]: "drawM f rng \<noteq> None"
  by (simp add: drawM_def)

lemma tryM_cong [fundef_cong]:
  "m rng = m' rng' \<Longrightarrow> (\<And>x s. m' rng' = Some (Inr x, s) \<Longrightarrow> f x s = f' x s) \<Longrightarrow> tryM m f rng = tryM m' f' rng'"
  by (auto simp: tryM_def split: option.splits sum.splits)

subsection \<open>Documented behaviour of the big numbers\<close>

text \<open>Big-endian value of bytes, and the bytes of a number padded to a length.\<close>

definition be_val :: "bytes \<Rightarrow> nat" where
  "be_val bs = foldl (\<lambda>n b. n * 256 + unat b) 0 bs"

fun be_bytes :: "nat \<Rightarrow> nat \<Rightarrow> bytes" where
  "be_bytes 0 n = []"
| "be_bytes (Suc k) n = be_bytes k (n div 256) @ [word_of_nat (n mod 256)]"

lemma be_val_snoc [simp]: "be_val (bs @ [b]) = be_val bs * 256 + unat b"
  by (simp add: be_val_def)

lemma be_val_Nil [simp]: "be_val [] = 0"
  by (simp add: be_val_def)

lemma length_be_bytes [simp]: "length (be_bytes k n) = k"
  by (induction k arbitrary: n) simp_all

lemma be_val_be_bytes: "n < 256 ^ k \<Longrightarrow> be_val (be_bytes k n) = n"
proof (induction k arbitrary: n)
  case (Suc k)
  then have "n div 256 < 256 ^ k" by (simp add: less_mult_imp_div_less mult.commute)
  then show ?case using Suc.IH by (simp add: unat_of_nat)
qed simp

lemma be_val_less: "be_val bs < 256 ^ length bs"
proof (induction bs rule: rev_induct)
  case (snoc b bs)
  have "be_val bs * 256 + unat b < (be_val bs + 1) * 256" using unat_byte_less [of b] by simp
  also have "\<dots> \<le> 256 ^ length bs * 256" using snoc by (intro mult_right_mono) simp_all
  finally show ?case by simp
qed simp

lemma be_bytes_be_val: "be_bytes (length bs) (be_val bs) = bs"
proof (induction bs rule: rev_induct)
  case (snoc b bs)
  have "(be_val bs * 256 + unat b) div 256 = be_val bs" "(be_val bs * 256 + unat b) mod 256 = unat b"
    using unat_byte_less [of b] by simp_all
  then show ?case using snoc by simp
qed simp

lemma be_bytes_inject: "a < 256 ^ k \<Longrightarrow> b < 256 ^ k \<Longrightarrow> be_bytes k a = be_bytes k b \<longleftrightarrow> a = b"
  by (metis be_val_be_bytes)

text \<open>What the manual pages of the BN functions promise, when allocations succeed.\<close>

definition bn_documented :: "('md, 'kdf, 'rng, 'z) bn_api_scheme \<Rightarrow> bool" where
  "bn_documented L \<longleftrightarrow>
     BN_new L \<and> BN_CTX_new L \<and> BN_MONT_CTX_new L \<and>
     (\<forall>bs. BN_bin2bn L bs = Some (be_val bs)) \<and>
     (\<forall>n k. n < 256 ^ k \<longrightarrow> BN_bn2binpad L n k = (int k, be_bytes k n)) \<and>
     (\<forall>n k. BN_num_bits L n \<le> int k \<longleftrightarrow> n < 2 ^ k) \<and>
     (\<forall>n. BN_num_bytes L n = (BN_num_bits L n + 7) div 8) \<and>
     (\<forall>n. BN_is_zero L n \<longleftrightarrow> n = 0) \<and> (\<forall>n. BN_is_odd L n \<longleftrightarrow> odd n) \<and>
     (\<forall>n w. BN_is_word L n w \<longleftrightarrow> n = w) \<and>
     (\<forall>a b. (0 \<le> BN_cmp L a b \<longleftrightarrow> b \<le> a)) \<and>
     (\<forall>rng n. 0 < n \<longrightarrow> snd (fst (BN_rand_range L rng n)) < n) \<and>
     (\<forall>a m. 0 < m \<longrightarrow> BN_mod L a m = (1, a mod m)) \<and>
     (\<forall>a b m. 0 < m \<longrightarrow> BN_mod_add L a b m = (1, (a + b) mod m)) \<and>
     (\<forall>a b m. 0 < m \<longrightarrow> BN_mod_sub L a b m = (1, nat ((int a - int b) mod int m))) \<and>
     (\<forall>a b m. 0 < m \<longrightarrow> BN_mod_mul L a b m = (1, (a * b) mod m)) \<and>
     (\<forall>a m. 0 < m \<longrightarrow> BN_mod_sqr L a m = (1, (a * a) mod m)) \<and>
     (\<forall>a e m. 0 < m \<longrightarrow> BN_mod_exp L a e m = (1, (a ^ e) mod m)) \<and>
     (\<forall>a m b. BN_mod_inverse L a m = Some b \<longrightarrow> b < m \<and> (a * b) mod m = 1 mod m) \<and>
     (\<forall>a m. 1 < m \<longrightarrow> coprime a m \<longrightarrow> (\<exists>b. BN_mod_inverse L a m = Some b)) \<and>
     (\<forall>a b. BN_add L a b = (1, a + b)) \<and> (\<forall>a b. b \<le> a \<longrightarrow> BN_sub L a b = (1, a - b)) \<and>
     (\<forall>a k. BN_rshift L a k = (1, a div 2 ^ k))"

text \<open>
  Montgomery multiplication for an odd modulus: a factor \<open>R\<close> with an inverse, a
  conversion that multiplies by \<open>R\<close> and a product that takes one \<open>R\<close> out again.
\<close>

definition mont_documented :: "('md, 'kdf, 'rng, 'z) bn_api_scheme \<Rightarrow> nat \<Rightarrow> bool" where
  "mont_documented L m \<longleftrightarrow>
     BN_MONT_CTX_set L m = 1 \<and>
     (\<forall>a e. a < m \<longrightarrow> BN_mod_exp_mont L a e m = (1, (a ^ e) mod m)) \<and>
     (\<forall>a e. a < m \<longrightarrow> BN_mod_exp_mont_consttime L a e m = (1, (a ^ e) mod m)) \<and>
     (\<exists>R S. (R * S) mod m = 1 mod m \<and>
        (\<forall>a. a < m \<longrightarrow> BN_to_montgomery L a m = (1, (a * R) mod m)) \<and>
        (\<forall>a b. a < m \<longrightarrow> b < m \<longrightarrow> BN_mod_mul_montgomery L a b m = (1, (a * b * S) mod m)))"

lemma bn_doc_alloc: "bn_documented L \<Longrightarrow> BN_new L \<and> BN_CTX_new L \<and> BN_MONT_CTX_new L"
  by (simp add: bn_documented_def)

lemma bn_doc_bin2bn: "bn_documented L \<Longrightarrow> BN_bin2bn L bs = Some (be_val bs)"
  by (simp add: bn_documented_def)

lemma bn_doc_binpad: "bn_documented L \<Longrightarrow> n < 256 ^ k \<Longrightarrow> BN_bn2binpad L n k = (int k, be_bytes k n)"
  by (simp add: bn_documented_def)

lemma bn_doc_tests:
  "bn_documented L \<Longrightarrow> BN_is_zero L n \<longleftrightarrow> n = 0"
  "bn_documented L \<Longrightarrow> BN_is_odd L n \<longleftrightarrow> odd n"
  "bn_documented L \<Longrightarrow> BN_is_word L n w \<longleftrightarrow> n = w"
  "bn_documented L \<Longrightarrow> 0 \<le> BN_cmp L a b \<longleftrightarrow> b \<le> a"
  by (simp_all add: bn_documented_def)

lemma bn_doc_arith:
  "bn_documented L \<Longrightarrow> 0 < m \<Longrightarrow> BN_mod L a m = (1, a mod m)"
  "bn_documented L \<Longrightarrow> 0 < m \<Longrightarrow> BN_mod_add L a b m = (1, (a + b) mod m)"
  "bn_documented L \<Longrightarrow> 0 < m \<Longrightarrow> BN_mod_sub L a b m = (1, nat ((int a - int b) mod int m))"
  "bn_documented L \<Longrightarrow> 0 < m \<Longrightarrow> BN_mod_mul L a b m = (1, (a * b) mod m)"
  "bn_documented L \<Longrightarrow> 0 < m \<Longrightarrow> BN_mod_sqr L a m = (1, (a * a) mod m)"
  "bn_documented L \<Longrightarrow> 0 < m \<Longrightarrow> BN_mod_exp L a e m = (1, (a ^ e) mod m)"
  "bn_documented L \<Longrightarrow> BN_add L a b = (1, a + b)"
  "bn_documented L \<Longrightarrow> b \<le> a \<Longrightarrow> BN_sub L a b = (1, a - b)"
  "bn_documented L \<Longrightarrow> BN_rshift L a k = (1, a div 2 ^ k)"
  by (simp_all add: bn_documented_def)

lemma bn_doc_inverse:
  "bn_documented L \<Longrightarrow> BN_mod_inverse L a m = Some b \<Longrightarrow> b < m \<and> (a * b) mod m = 1 mod m"
  "bn_documented L \<Longrightarrow> 1 < m \<Longrightarrow> coprime a m \<Longrightarrow> \<exists>b. BN_mod_inverse L a m = Some b"
  by (simp_all add: bn_documented_def)

lemma bn_doc_rand:
  assumes "bn_documented L" "0 < n" "BN_rand_range L rng n = ((c, k), rng')"
  shows "k < n"
proof -
  have "snd (fst (BN_rand_range L rng n)) < n" using assms(1,2) by (simp add: bn_documented_def)
  then show ?thesis by (simp add: assms(3))
qed

lemma bn_doc_bits: "bn_documented L \<Longrightarrow> BN_num_bits L n \<le> int k \<longleftrightarrow> n < 2 ^ k"
  by (simp only: bn_documented_def)

lemma bn_doc_num_bytes: "bn_documented L \<Longrightarrow> BN_num_bytes L n = (BN_num_bits L n + 7) div 8"
  by (simp only: bn_documented_def)

text \<open>Multiplying by a number in Montgomery form is multiplication modulo \<open>m\<close>.\<close>

lemma mont_doc_mul:
  assumes "mont_documented L m" "a < m" "b < m"
  shows "\<exists>b'. BN_to_montgomery L b m = (1, b') \<and> BN_mod_mul_montgomery L a b' m = (1, (a * b) mod m)"
proof -
  obtain R S where RS: "(R * S) mod m = 1 mod m"
    and to: "BN_to_montgomery L b m = (1, (b * R) mod m)"
    and mul: "\<And>c. c < m \<Longrightarrow> BN_mod_mul_montgomery L a c m = (1, (a * c * S) mod m)"
    using assms by (auto simp: mont_documented_def)
  have "(a * ((b * R) mod m) * S) mod m = ((a * S) * ((b * R) mod m)) mod m" by (simp only: ac_simps)
  also have "\<dots> = ((a * S) * (b * R)) mod m" by (simp only: mod_mult_right_eq)
  also have "\<dots> = (a * b * (R * S)) mod m" by (simp only: ac_simps)
  also have "\<dots> = (a * b * ((R * S) mod m)) mod m" by (simp only: mod_mult_right_eq)
  also have "\<dots> = (a * b) mod m" by (simp only: RS mod_mult_right_eq mult_1_right)
  finally have "BN_mod_mul_montgomery L a ((b * R) mod m) m = (1, (a * b) mod m)"
    using mul [of "(b * R) mod m"] assms(2) by (simp only: mod_less_divisor)
  with to show ?thesis by blast
qed

lemma mont_doc_set: "mont_documented L m \<Longrightarrow> BN_MONT_CTX_set L m = 1"
  by (simp add: mont_documented_def)

lemma mont_doc_exp:
  "mont_documented L m \<Longrightarrow> a < m \<Longrightarrow> BN_mod_exp_mont L a e m = (1, (a ^ e) mod m)"
  "mont_documented L m \<Longrightarrow> a < m \<Longrightarrow> BN_mod_exp_mont_consttime L a e m = (1, (a ^ e) mod m)"
  by (simp_all add: mont_documented_def)

end
