(* ===== verification/PP_Voprf.thy ===== *)
theory PP_Voprf
  imports PP_Ossl
begin

text \<open>
  The verifiable oblivious pseudorandom function on P-384: src/crypto/voprf.cpp, except for
  the map to the curve, which is in \<open>PP_Sswu\<close> with the helpers it shares. A public key is a
  point, absent until it was set, with the key-id cache of the C++ class; a private key is
  a scalar; the client and the server are their keys. The rejection loop of the proof may
  run forever, which is the value \<open>None\<close>.
\<close>

definition P384_SCALAR_SIZE :: nat where "P384_SCALAR_SIZE = 48"
definition P384_ELEMENT_SIZE :: nat where "P384_ELEMENT_SIZE = 49"
definition P384_PROOF_SIZE :: nat where "P384_PROOF_SIZE = 96"

definition CONTEXT_STRING :: bytes where
  "CONTEXT_STRING = str_bytes (''OPRFV1-'' @ [CHR 0x01] @ ''-P384-SHA384'')"
definition DST_H2C :: bytes where
  "DST_H2C = str_bytes (''HashToGroup-OPRFV1-'' @ [CHR 0x01] @ ''-P384-SHA384'')"
definition DST_H2S :: bytes where
  "DST_H2S = str_bytes (''HashToScalar-OPRFV1-'' @ [CHR 0x01] @ ''-P384-SHA384'')"
definition DST_CHALLENGE :: bytes where "DST_CHALLENGE = str_bytes ''Challenge''"
definition DST_COMPOSITE :: bytes where "DST_COMPOSITE = str_bytes ''Composite''"
definition DST_SEED_PREFIX :: bytes where "DST_SEED_PREFIX = str_bytes ''Seed-''"
definition DST_FINALIZE :: bytes where "DST_FINALIZE = str_bytes ''Finalize''"

subsection \<open>Helpers\<close>

definition constant_time_compare ::
  "('m, 'd, 'r, 'p, 'k, 'b, 't, 'z) ossl_scheme \<Rightarrow> bytes \<Rightarrow> bytes \<Rightarrow> bool" where
  "constant_time_compare L a b \<longleftrightarrow> length a = length b \<and> CRYPTO_memcmp L a b = 0"

definition append_u16 :: "bytes \<Rightarrow> nat \<Rightarrow> bytes" where
  "append_u16 out value = out @ [word_of_nat (value div 256), word_of_nat value]"

definition append_u16_len_prefixed :: "bytes \<Rightarrow> bytes \<Rightarrow> bytes" where
  "append_u16_len_prefixed out data = append_u16 out (length data) @ data"

definition append_string :: "bytes \<Rightarrow> bytes \<Rightarrow> bytes" where
  "append_string out value = out @ value"

definition finalize_output ::
  "('m, 'd, 'r, 'p, 'k, 'b, 't, 'z) ossl_scheme \<Rightarrow> bytes \<Rightarrow> bytes \<Rightarrow> bytes result" where
  "finalize_output L input issued_element =
     (if 0xFFFF < length input \<or> 0xFFFF < length issued_element then
        Err INVALID_LENGTH ''VOPRF finalize input too large''
      else
        (let hash_input = [];
             hash_input = append_u16_len_prefixed hash_input input;
             hash_input = append_u16_len_prefixed hash_input issued_element;
             hash_input = hash_input @ DST_FINALIZE
         in sha384 L hash_input))"

definition point_to_bytes ::
  "('m, 'd, 'r, 'p, 'k, 'b, 't, 'z) ossl_scheme \<Rightarrow> 't \<Rightarrow> bytes result" where
  "point_to_bytes L point =
     (if \<not> BN_CTX_new L then Err CRYPTO_ERROR ''Failed to create BN context''
      else
        (let len = EC_POINT_point2oct_size L point
         in if len = 0 then Err CRYPTO_ERROR ''Failed to get point size''
            else
              (case EC_POINT_point2oct L point of (n, out) \<Rightarrow>
                 if n \<noteq> len then Err CRYPTO_ERROR ''Failed to serialize point'' else Ok out)))"

definition bytes_to_point ::
  "('m, 'd, 'r, 'p, 'k, 'b, 't, 'z) ossl_scheme \<Rightarrow> bytes \<Rightarrow> 't option" where
  "bytes_to_point L data =
     (if length data \<noteq> P384_ELEMENT_SIZE \<or> (data ! 0 \<noteq> 0x02 \<and> data ! 0 \<noteq> 0x03) then None
      else if \<not> BN_CTX_new L then None
      else if \<not> EC_POINT_new L then None
      else
        (case EC_POINT_oct2point L data of (r, point) \<Rightarrow>
           if r \<noteq> 1 then None
           else if EC_POINT_is_on_curve L point \<noteq> 1 \<or> EC_POINT_is_at_infinity L point = 1 then None
           else Some point))"

subsection \<open>Hashing to field elements and scalars\<close>

definition strxor :: "bytes \<Rightarrow> bytes \<Rightarrow> bytes" where
  "strxor a b = map2 (\<lambda>x y. x XOR y) a b"

function xmd_loop ::
  "('m, 'd, 'r, 'p, 'k, 'b, 't, 'z) ossl_scheme \<Rightarrow> bytes \<Rightarrow> bytes \<Rightarrow> nat \<Rightarrow> nat \<Rightarrow> bytes \<Rightarrow> bytes \<Rightarrow> bytes result"
where
  "xmd_loop L dst_prime b_0 ell i b_prev uniform_bytes =
     (if ell < i then Ok uniform_bytes
      else
        (let xored = strxor b_0 b_prev;
             b_i_input = xored @ [word_of_nat i] @ dst_prime
         in try_bind (sha384 L b_i_input) (\<lambda>b_i.
              xmd_loop L dst_prime b_0 ell (i + 1) b_i (uniform_bytes @ b_i))))"
  by pat_completeness auto
termination
  by (relation "measure (\<lambda>(L, dst_prime, b_0, ell, i, b_prev, uniform_bytes). Suc ell - i)") auto

declare xmd_loop.simps [simp del]

text \<open>\<open>resize\<close> cuts the last block or, when asked for no byte at all, the first one.\<close>

definition expand_message_xmd ::
  "('m, 'd, 'r, 'p, 'k, 'b, 't, 'z) ossl_scheme \<Rightarrow> bytes \<Rightarrow> bytes \<Rightarrow> nat \<Rightarrow> bytes result" where
  "expand_message_xmd L msg dst len_in_bytes =
     (let b_in_bytes = 48; s_in_bytes = 128
      in if 255 * b_in_bytes < len_in_bytes \<or> 255 < length dst then
           Err CRYPTO_ERROR ''Invalid expand_message_xmd parameters''
         else
           (let ell = (len_in_bytes + b_in_bytes - 1) div b_in_bytes;
                dst_prime = dst @ [word_of_nat (length dst)];
                z_pad = replicate s_in_bytes 0;
                l_i_b_str = [word_of_nat (len_in_bytes div 256), word_of_nat len_in_bytes];
                msg_prime = z_pad @ msg @ l_i_b_str @ [0] @ dst_prime
            in try_bind (sha384 L msg_prime) (\<lambda>b_0.
               try_bind (sha384 L (b_0 @ [1] @ dst_prime)) (\<lambda>b_1.
               try_bind (xmd_loop L dst_prime b_0 ell 2 b_1 b_1) (\<lambda>uniform_bytes.
                 Ok (take len_in_bytes (uniform_bytes
                       @ replicate (len_in_bytes - length uniform_bytes) 0)))))))"

definition hash_to_scalar ::
  "('m, 'd, 'r, 'p, 'k, 'b, 't, 'z) ossl_scheme \<Rightarrow> bytes \<Rightarrow> nat result" where
  "hash_to_scalar L input =
     try_bind (expand_message_xmd L input DST_H2S 72) (\<lambda>uniform.
       if \<not> BN_new L then Err CRYPTO_ERROR ''Failed to hash to scalar''
       else
         (case BN_bin2bn L uniform of
            None \<Rightarrow> Err CRYPTO_ERROR ''Failed to hash to scalar''
          | Some scalar \<Rightarrow>
              (case EC_GROUP_get_order L of (ok, order) \<Rightarrow>
                 if ok \<noteq> 1 then Err CRYPTO_ERROR ''Failed to hash to scalar''
                 else
                   (case BN_mod L scalar order of (ok, scalar) \<Rightarrow>
                      if ok \<noteq> 1 then Err CRYPTO_ERROR ''Failed to hash to scalar'' else Ok scalar))))"

subsection \<open>The proof that two discrete logarithms are equal\<close>

definition compute_composite_scalar ::
  "('m, 'd, 'r, 'p, 'k, 'b, 't, 'z) ossl_scheme \<Rightarrow> 't \<Rightarrow> 't \<Rightarrow> 't \<Rightarrow> nat result" where
  "compute_composite_scalar L B C D =
     (case (point_to_bytes L B, point_to_bytes L C, point_to_bytes L D) of
        (Inr Bm, Inr Ci, Inr Di) \<Rightarrow>
          (let seed_dst = append_string (append_string [] DST_SEED_PREFIX) CONTEXT_STRING;
               seed_transcript = append_u16_len_prefixed [] Bm;
               seed_transcript = append_u16_len_prefixed seed_transcript seed_dst
           in try_bind (sha384 L seed_transcript) (\<lambda>seed.
                let composite_transcript = append_u16_len_prefixed [] seed;
                    composite_transcript = append_u16 composite_transcript 0;
                    composite_transcript = append_u16_len_prefixed composite_transcript Ci;
                    composite_transcript = append_u16_len_prefixed composite_transcript Di;
                    composite_transcript = append_string composite_transcript DST_COMPOSITE
                in hash_to_scalar L composite_transcript))
      | _ \<Rightarrow> Err CRYPTO_ERROR ''Failed to serialize composite inputs'')"

definition compute_composites ::
  "('m, 'd, 'r, 'p, 'k, 'b, 't, 'z) ossl_scheme \<Rightarrow> 't \<Rightarrow> 't \<Rightarrow> 't \<Rightarrow> ('t \<times> 't) result" where
  "compute_composites L B C D =
     try_bind (compute_composite_scalar L B C D) (\<lambda>di.
       if \<not> EC_POINT_new L then Err CRYPTO_ERROR ''Failed to compute composites''
       else
         (case (EC_POINT_mul L None (Some (C, di)), EC_POINT_mul L None (Some (D, di))) of
            ((ok1, M), (ok2, Z)) \<Rightarrow>
              if ok1 \<noteq> 1 \<or> ok2 \<noteq> 1 then Err CRYPTO_ERROR ''Failed to compute composites'' else Ok (M, Z)))"

definition compute_dleq_challenge ::
  "('m, 'd, 'r, 'p, 'k, 'b, 't, 'z) ossl_scheme \<Rightarrow> 't \<Rightarrow> 't \<Rightarrow> 't \<Rightarrow> 't \<Rightarrow> 't \<Rightarrow> nat result" where
  "compute_dleq_challenge L B M Z t2 t3 =
     (case (point_to_bytes L B, point_to_bytes L M, point_to_bytes L Z, point_to_bytes L t2,
            point_to_bytes L t3) of
        (Inr Bm, Inr a0, Inr a1, Inr a2, Inr a3) \<Rightarrow>
          (let transcript = append_u16_len_prefixed [] Bm;
               transcript = append_u16_len_prefixed transcript a0;
               transcript = append_u16_len_prefixed transcript a1;
               transcript = append_u16_len_prefixed transcript a2;
               transcript = append_u16_len_prefixed transcript a3;
               transcript = append_string transcript DST_CHALLENGE
           in hash_to_scalar L transcript)
      | _ \<Rightarrow> Err CRYPTO_ERROR ''Failed to serialize challenge inputs'')"

text \<open>The loop that draws the commitment scalar of a proof.\<close>

partial_function (option) draw_scalar ::
  "('m, 'd, 'r, 'p, 'k, 'b, 't, 'z) ossl_scheme \<Rightarrow> nat \<Rightarrow> ('r, nat) proc" where
  "draw_scalar L order rng =
     (case BN_rand_range L rng order of ((ok, t), rng') \<Rightarrow>
        if ok = 0 then Some (Err CRYPTO_ERROR ''Failed to generate random scalar'', rng')
        else if BN_is_zero L t then draw_scalar L order rng'
        else Some (Ok t, rng'))"

definition generate_dleq_proof ::
  "('m, 'd, 'r, 'p, 'k, 'b, 't, 'z) ossl_scheme \<Rightarrow> nat \<Rightarrow> 't \<Rightarrow> 't \<Rightarrow> 't \<Rightarrow> ('r, bytes) proc" where
  "generate_dleq_proof L k Y R Z =
     (case EC_GROUP_get_order L of (ok, order) \<Rightarrow>
        if \<not> BN_new L \<or> ok \<noteq> 1 then liftM (Err CRYPTO_ERROR ''Failed to get group order'')
        else
          tryM (liftM (compute_composites L Y R Z)) (\<lambda>(M, composite_Z).
          tryM (draw_scalar L order) (\<lambda>t.
            case EC_POINT_mul L (Some t) None of (ok1, A) \<Rightarrow>
              if \<not> EC_POINT_new L \<or> ok1 \<noteq> 1 then liftM (Err CRYPTO_ERROR ''Failed to compute A'')
              else
                (case EC_POINT_mul L None (Some (M, t)) of (ok2, B_pt) \<Rightarrow>
                   if ok2 \<noteq> 1 then liftM (Err CRYPTO_ERROR ''Failed to compute B'')
                   else
                     tryM (liftM (compute_dleq_challenge L Y M composite_Z A B_pt)) (\<lambda>c.
                       let ck = snd (BN_mod_mul L c k order);
                           s = snd (BN_mod_sub L t ck order)
                       in case (BN_bn2binpad L c P384_SCALAR_SIZE, BN_bn2binpad L s P384_SCALAR_SIZE) of
                            ((c_len, c_bytes), (s_len, s_bytes)) \<Rightarrow>
                              if c_len \<noteq> int P384_SCALAR_SIZE \<or> s_len \<noteq> int P384_SCALAR_SIZE then
                                liftM (Err CRYPTO_ERROR ''Failed to serialize proof'')
                              else liftM (Ok (c_bytes @ s_bytes)))))))"

definition verify_dleq_proof ::
  "('m, 'd, 'r, 'p, 'k, 'b, 't, 'z) ossl_scheme \<Rightarrow> 't \<Rightarrow> 't \<Rightarrow> 't \<Rightarrow> bytes \<Rightarrow> bool result" where
  "verify_dleq_proof L Y R Z proof_bytes =
     (if length proof_bytes \<noteq> P384_PROOF_SIZE then Err VERIFICATION_FAILED ''Invalid proof size''
      else
        (case (BN_bin2bn L (take P384_SCALAR_SIZE proof_bytes),
               BN_bin2bn L (take P384_SCALAR_SIZE (drop P384_SCALAR_SIZE proof_bytes))) of
           (Some c, Some s) \<Rightarrow>
             (case EC_GROUP_get_order L of (ok, order) \<Rightarrow>
                if \<not> BN_new L \<or> ok \<noteq> 1 then Err CRYPTO_ERROR ''Failed to get group order''
                else if 0 \<le> BN_cmp L c order \<or> 0 \<le> BN_cmp L s order then
                  Err VERIFICATION_FAILED ''Proof scalars out of range''
                else
                  try_bind (compute_composites L Y R Z) (\<lambda>(M, composite_Z).
                    case EC_POINT_mul L (Some s) (Some (Y, c)) of (ok1, A_prime) \<Rightarrow>
                      if \<not> EC_POINT_new L \<or> ok1 \<noteq> 1 then Err CRYPTO_ERROR (''Failed to compute A'' @ [CHR 0x27])
                      else
                        (case (EC_POINT_mul L None (Some (M, s)), EC_POINT_mul L None (Some (composite_Z, c))) of
                           ((ok2, sM), (ok3, cZ)) \<Rightarrow>
                             (case EC_POINT_add L sM cZ of (ok4, B_prime) \<Rightarrow>
                                if ok2 \<noteq> 1 \<or> ok3 \<noteq> 1 \<or> ok4 \<noteq> 1 then
                                  Err CRYPTO_ERROR (''Failed to compute B'' @ [CHR 0x27])
                                else
                                  try_bind (compute_dleq_challenge L Y M composite_Z A_prime B_prime)
                                    (\<lambda>c_prime.
                                      Ok (constant_time_compare L
                                            (snd (BN_bn2binpad L c P384_SCALAR_SIZE))
                                            (snd (BN_bn2binpad L c_prime P384_SCALAR_SIZE))))))))
         | _ \<Rightarrow> Err CRYPTO_ERROR ''Failed to parse proof''))"

subsection \<open>Documented behaviour of the group\<close>

text \<open>
  \<open>pt k\<close> is the generator times \<open>k\<close>. The group is cyclic of the prime order \<open>q\<close>, addition and
  multiplication by scalars act on the exponents, and a point other than the point at
  infinity has a compressed encoding of 49 bytes that starts with 2 or 3 and is decoded to
  the point again. Whatever is decoded or built from coordinates is a point of the group.
\<close>

definition group_documented ::
  "('m, 'd, 'r, 'p, 'k, 'b, 't, 'z) ossl_scheme \<Rightarrow> nat \<Rightarrow> (nat \<Rightarrow> 't) \<Rightarrow> bool" where
  "group_documented L q pt \<longleftrightarrow>
     EC_GROUP_new_by_curve_name L \<and> EC_POINT_new L \<and> EC_GROUP_get_order L = (1, q) \<and>
     1 < q \<and> q < 256 ^ 48 \<and> (\<forall>k. k mod q \<noteq> 0 \<longrightarrow> coprime k q) \<and>
     (\<forall>a b. pt a = pt b \<longleftrightarrow> a mod q = b mod q) \<and>
     (\<forall>a b. EC_POINT_add L (pt a) (pt b) = (1, pt (a + b))) \<and>
     (\<forall>g. EC_POINT_mul L (Some g) None = (1, pt g)) \<and>
     (\<forall>a m. EC_POINT_mul L None (Some (pt a, m)) = (1, pt (a * m))) \<and>
     (\<forall>g a m. EC_POINT_mul L (Some g) (Some (pt a, m)) = (1, pt (g + a * m))) \<and>
     (\<forall>x y p. EC_POINT_set_affine_coordinates L x y = (1, p) \<longrightarrow> (\<exists>a. p = pt a)) \<and>
     (\<forall>a b. length a = length b \<longrightarrow> (CRYPTO_memcmp L a b = 0 \<longleftrightarrow> a = b))"

definition encoding_documented ::
  "('m, 'd, 'r, 'p, 'k, 'b, 't, 'z) ossl_scheme \<Rightarrow> nat \<Rightarrow> (nat \<Rightarrow> 't) \<Rightarrow> bool" where
  "encoding_documented L q pt \<longleftrightarrow>
     (\<forall>a. EC_POINT_is_on_curve L (pt a) = 1) \<and>
     (\<forall>a. EC_POINT_is_at_infinity L (pt a) = 1 \<longleftrightarrow> a mod q = 0) \<and>
     (\<forall>a. EC_POINT_point2oct_size L (pt a) = (if a mod q = 0 then 1 else 49)) \<and>
     (\<forall>a. fst (EC_POINT_point2oct L (pt a)) = (if a mod q = 0 then 1 else 49)) \<and>
     (\<forall>a. length (snd (EC_POINT_point2oct L (pt a))) = (if a mod q = 0 then 1 else 49)) \<and>
     (\<forall>a. a mod q \<noteq> 0 \<longrightarrow> snd (EC_POINT_point2oct L (pt a)) ! 0 \<in> {2, 3} \<and>
        EC_POINT_oct2point L (snd (EC_POINT_point2oct L (pt a))) = (1, pt a)) \<and>
     (\<forall>bs p. EC_POINT_oct2point L bs = (1, p) \<longrightarrow> (\<exists>a. p = pt a \<and>
        (length bs = 49 \<longrightarrow> bs ! 0 \<in> {2, 3} \<longrightarrow> snd (EC_POINT_point2oct L p) = bs)))"

definition ec_documented ::
  "('m, 'd, 'r, 'p, 'k, 'b, 't, 'z) ossl_scheme \<Rightarrow> nat \<Rightarrow> (nat \<Rightarrow> 't) \<Rightarrow> bool" where
  "ec_documented L q pt \<longleftrightarrow> bn_documented L \<and> group_documented L q pt \<and> encoding_documented L q pt"

lemma ec_doc_bn: "ec_documented L q pt \<Longrightarrow> bn_documented L"
  by (simp add: ec_documented_def)

lemma group_doc:
  assumes "ec_documented L q pt"
  shows "EC_GROUP_new_by_curve_name L" "EC_POINT_new L" "EC_GROUP_get_order L = (1, q)" "1 < q" "q < 256 ^ 48"
    "k mod q \<noteq> 0 \<Longrightarrow> coprime k q" "pt a = pt b \<longleftrightarrow> a mod q = b mod q"
    "EC_POINT_add L (pt a) (pt b) = (1, pt (a + b))" "EC_POINT_mul L (Some g) None = (1, pt g)"
    "EC_POINT_mul L None (Some (pt a, m)) = (1, pt (a * m))"
    "EC_POINT_mul L (Some g) (Some (pt a, m)) = (1, pt (g + a * m))"
    "EC_POINT_set_affine_coordinates L x y = (1, p) \<Longrightarrow> \<exists>a. p = pt a"
  using assms by (auto simp: ec_documented_def group_documented_def)

lemma compare_doc:
  "ec_documented L q pt \<Longrightarrow> constant_time_compare L a b \<longleftrightarrow> a = b"
  by (auto simp: ec_documented_def group_documented_def constant_time_compare_def)

definition enc :: "('m, 'd, 'r, 'p, 'k, 'b, 't, 'z) ossl_scheme \<Rightarrow> 't \<Rightarrow> bytes" where
  "enc L p = snd (EC_POINT_point2oct L p)"

lemma enc_doc:
  assumes "ec_documented L q pt"
  shows "EC_POINT_is_on_curve L (pt a) = 1" "EC_POINT_is_at_infinity L (pt a) = 1 \<longleftrightarrow> a mod q = 0"
    "EC_POINT_point2oct_size L (pt a) = (if a mod q = 0 then 1 else 49)"
    "EC_POINT_point2oct L (pt a) = (if a mod q = 0 then 1 else 49, enc L (pt a))"
    "length (enc L (pt a)) = (if a mod q = 0 then 1 else 49)"
    "a mod q \<noteq> 0 \<Longrightarrow> enc L (pt a) ! 0 = 2 \<or> enc L (pt a) ! 0 = 3"
    "a mod q \<noteq> 0 \<Longrightarrow> EC_POINT_oct2point L (enc L (pt a)) = (1, pt a)"
    "EC_POINT_oct2point L bs = (1, p) \<Longrightarrow> \<exists>a. p = pt a \<and>
       (length bs = 49 \<longrightarrow> bs ! 0 \<in> {2, 3} \<longrightarrow> enc L p = bs)"
  using assms
  by (auto simp: ec_documented_def encoding_documented_def enc_def intro: prod_eqI)

lemma point_to_bytes_doc:
  assumes "ec_documented L q pt"
  shows "point_to_bytes L (pt a) = Ok (enc L (pt a))"
  using enc_doc(1-7) [OF assms, where a = a] bn_doc_alloc [OF ec_doc_bn [OF assms]]
  by (simp add: point_to_bytes_def)

lemma bytes_to_point_enc:
  assumes "ec_documented L q pt" "a mod q \<noteq> 0"
  shows "bytes_to_point L (enc L (pt a)) = Some (pt a)"
  using enc_doc(1-7) [OF assms(1), where a = a] assms(2) bn_doc_alloc [OF ec_doc_bn [OF assms(1)]]
    group_doc(2) [OF assms(1)]
  by (auto simp: bytes_to_point_def P384_ELEMENT_SIZE_def)

lemma bytes_to_point_Some:
  assumes "ec_documented L q pt" "bytes_to_point L bs = Some p"
  shows "\<exists>a. p = pt a \<and> a mod q \<noteq> 0 \<and> bs = enc L (pt a)"
proof -
  have len: "length bs = 49" "bs ! 0 \<in> {2, 3}" and p: "EC_POINT_oct2point L bs = (1, p)"
    and inf: "EC_POINT_is_at_infinity L p \<noteq> 1"
    using assms(2) by (auto simp: bytes_to_point_def P384_ELEMENT_SIZE_def split: if_splits prod.splits)
  from enc_doc(8) [OF assms(1) p] obtain a where a: "p = pt a" "enc L p = bs" using len by blast
  then show ?thesis using inf enc_doc(2) [OF assms(1), where a = a] by blast
qed

lemma product_nonzero:
  assumes "ec_documented L q pt" "a mod q \<noteq> 0" "b mod q \<noteq> 0"
  shows "(a * b) mod q \<noteq> 0"
proof
  assume "(a * b) mod q = 0"
  then have "q dvd a * b" by (simp add: mod_eq_0_iff_dvd)
  moreover have "coprime q a" using group_doc(6) [OF assms(1,2)] by (simp add: coprime_commute)
  ultimately have "q dvd b" by (simp add: coprime_dvd_mult_right_iff)
  then show False using assms(3) by simp
qed

subsection \<open>Completeness of the proof\<close>

lemma hash_to_scalar_less:
  assumes "ec_documented L q pt" "hash_to_scalar L input = Ok c"
  shows "c < q"
  using assms(2) group_doc(3,4) [OF assms(1)] bn_doc_arith(1) [OF ec_doc_bn [OF assms(1)], of q]
  by (auto simp: hash_to_scalar_def try_bind_Ok_iff split: if_splits option.splits prod.splits)

lemma compute_composites_pt:
  assumes "ec_documented L q pt" "compute_composites L (pt k) (pt a) (pt b) = Ok (M, Z)"
  shows "\<exists>d. compute_composite_scalar L (pt k) (pt a) (pt b) = Ok d \<and> M = pt (a * d) \<and> Z = pt (b * d)"
  using assms(2) group_doc [OF assms(1)]
  by (auto simp: compute_composites_def try_bind_Ok_iff split: if_splits prod.splits)

lemma draw_scalar_sound:
  assumes "draw_scalar L q rng = Some y"
  shows "bn_documented L \<longrightarrow> 0 < q \<longrightarrow> (\<forall>t. fst y = Ok t \<longrightarrow> 0 < t \<and> t < q)"
proof (rule draw_scalar.raw_induct [where P = "\<lambda>L q rng y. bn_documented L \<longrightarrow> 0 < q \<longrightarrow>
      (\<forall>t. fst y = Ok t \<longrightarrow> 0 < t \<and> t < q)", OF _ assms], intro impI)
  fix rec L q rng y
  assume IH: "\<And>L q rng y. rec L q rng = Some y \<Longrightarrow> bn_documented L \<longrightarrow> 0 < q \<longrightarrow>
      (\<forall>t. fst y = Ok t \<longrightarrow> 0 < t \<and> t < q)"
    and body: "(case BN_rand_range L rng q of ((ok, t), rng') \<Rightarrow>
        if ok = 0 then Some (Err CRYPTO_ERROR ''Failed to generate random scalar'', rng')
        else if BN_is_zero L t then rec L q rng'
        else Some (Ok t, rng')) = Some y"
    and doc: "bn_documented L" "0 < q"
  obtain ok t rng' where draw: "BN_rand_range L rng q = ((ok, t), rng')" by (metis prod.collapse)
  show "\<forall>t. fst y = Ok t \<longrightarrow> 0 < t \<and> t < q"
    using body IH [of L q rng' y] doc bn_doc_rand [OF doc draw] bn_doc_tests(1) [OF doc(1), of t]
    by (auto simp: draw split: if_splits)
qed

text \<open>The response makes both verification equations return to the commitments.\<close>

lemma response_eq:
  assumes "0 < (q :: nat)"
  shows "(nat ((int t - int ((c * k) mod q)) mod int q) + c * k) mod q = t mod q"
proof -
  let ?s = "nat ((int t - int ((c * k) mod q)) mod int q)"
  have "int ?s = (int t - int ((c * k) mod q)) mod int q" using assms by simp
  then have "int ((?s + c * k) mod q) = ((int t - int ((c * k) mod q)) mod int q + int (c * k)) mod int q"
    by (simp only: zmod_int of_nat_add)
  also have "\<dots> = (int t - int (c * k) mod int q + int (c * k)) mod int q"
    by (simp only: mod_add_left_eq zmod_int)
  also have "\<dots> = (int t - int (c * k) + int (c * k)) mod int q"
    by (metis mod_add_left_eq mod_diff_right_eq)
  also have "\<dots> = int (t mod q)" by (simp only: diff_add_cancel zmod_int)
  finally show ?thesis by (simp only: of_nat_eq_iff)
qed

theorem dleq_complete:
  assumes doc: "ec_documented L q pt"
    and gen: "generate_dleq_proof L k (pt k) (pt r) (pt (r * k)) rng = Some (Ok pi, rng')"
  shows "verify_dleq_proof L (pt k) (pt r) (pt (r * k)) pi = Ok True \<and> length pi = P384_PROOF_SIZE"
proof -
  note bn = ec_doc_bn [OF doc] and gr = group_doc [OF doc]
  have q: "0 < q" using gr(4) by simp
  obtain M Z where comp: "compute_composites L (pt k) (pt r) (pt (r * k)) = Ok (M, Z)"
    using gen gr(3) bn_doc_alloc [OF bn]
    by (cases "compute_composites L (pt k) (pt r) (pt (r * k))") (auto simp: generate_dleq_proof_def)
  from compute_composites_pt [OF doc comp] obtain d where M: "M = pt (r * d)" and Z: "Z = pt (r * k * d)"
    by blast
  obtain t c where ch: "compute_dleq_challenge L (pt k) M Z (pt t) (pt (r * d * t)) = Ok c"
    and rest: "pi = snd (BN_bn2binpad L c 48)
      @ snd (BN_bn2binpad L (snd (BN_mod_sub L t (snd (BN_mod_mul L c k q)) q)) 48)"
    using gen gr(3,2) bn_doc_alloc [OF bn]
    by (auto simp: generate_dleq_proof_def comp tryM_Some_Ok_iff P384_SCALAR_SIZE_def Let_def M gr(9,10)
        case_prod_unfold
        simp del: tryM_liftM split: if_splits)
  let ?s = "nat ((int t - int ((c * k) mod q)) mod int q)"
  have s: "snd (BN_mod_sub L t (snd (BN_mod_mul L c k q)) q) = ?s"
    by (simp add: bn_doc_arith(3,4) [OF bn q])
  obtain input where "hash_to_scalar L input = Ok c"
    using ch by (auto simp: compute_dleq_challenge_def Let_def split: sum.splits)
  then have c: "c < q" by (rule hash_to_scalar_less [OF doc])
  have sq: "?s < q" using q by (simp add: nat_less_iff)
  have fits: "c < 256 ^ 48" "?s < 256 ^ 48" using c sq gr(5) by linarith+
  have pi: "pi = be_bytes 48 c @ be_bytes 48 ?s"
    using rest by (simp add: s bn_doc_binpad [OF bn fits(1)] bn_doc_binpad [OF bn fits(2)])
  have A: "pt (?s + k * c) = pt t"
    using response_eq [OF q, of t c k] by (simp add: gr(7) mult.commute)
  have "r * d * ?s + r * k * d * c = r * d * (?s + c * k)" by (simp add: algebra_simps)
  then have "(r * d * ?s + r * k * d * c) mod q = (r * d * ((?s + c * k) mod q)) mod q"
    by (simp only: mod_mult_right_eq)
  also have "\<dots> = (r * d * t) mod q" by (simp only: response_eq [OF q] mod_mult_right_eq)
  finally have B: "pt (r * d * ?s + r * k * d * c) = pt (r * d * t)" by (simp add: gr(7))
  have "verify_dleq_proof L (pt k) (pt r) (pt (r * k)) pi = Ok True"
    using ch c sq
    by (simp add: verify_dleq_proof_def P384_PROOF_SIZE_def P384_SCALAR_SIZE_def pi comp
        bn_doc_bin2bn [OF bn] be_val_be_bytes [OF fits(1)] be_val_be_bytes [OF fits(2)] gr(3)
        bn_doc_alloc [OF bn] bn_doc_tests(4) [OF bn] gr(11) gr(2) A M Z gr(10) gr(8) B
        compare_doc [OF doc])
  then show ?thesis by (simp add: pi P384_PROOF_SIZE_def)
qed

end
