(* ===== verification/PP_Sswu.thy ===== *)
theory PP_Sswu
  imports PP_Voprf
begin

text \<open>
  Hashing to the curve in src/crypto/voprf.cpp: \<open>map_to_curve_sswu\<close> and \<open>hash_to_curve\<close>.
  The first is a straight line of big-number operations whose return codes the code
  ignores, with two branch-free selections by a byte mask; it is proved to compute the
  simplified SWU map of RFC 9380 as a formula over the integers modulo \<open>p\<close>. The expansion
  of the message is proved to be the chain of hashes of RFC 9380.
\<close>

subsection \<open>The code\<close>

text \<open>\<open>BN_bin2bn(bytes, len, x)\<close> keeps \<open>x\<close> when it fails.\<close>

definition bin2bn_into :: "('m, 'd, 'r, 'p, 'k, 'b, 't, 'z) ossl_scheme \<Rightarrow> bytes \<Rightarrow> nat \<Rightarrow> nat" where
  "bin2bn_into L bs x = (case BN_bin2bn L bs of None \<Rightarrow> x | Some v \<Rightarrow> v)"

text \<open>\<open>a[i] ^= mask & (a[i] ^ b[i])\<close> with a mask of all ones or all zeros.\<close>

definition ct_select :: "bool \<Rightarrow> bytes \<Rightarrow> bytes \<Rightarrow> bytes" where
  "ct_select flag a b =
     (let mask = (word_of_int (- of_bool flag) :: byte)
      in map2 (\<lambda>x y. x XOR (mask AND (x XOR y))) a b)"

definition curve_rhs ::
  "('m, 'd, 'r, 'p, 'k, 'b, 't, 'z) ossl_scheme \<Rightarrow> nat \<Rightarrow> nat \<Rightarrow> nat \<Rightarrow> nat \<Rightarrow> nat" where
  "curve_rhs L x A B p =
     (let gx = snd (BN_mod_sqr L x p);
          gx = snd (BN_mod_add L gx A p);
          gx = snd (BN_mod_mul L gx x p)
      in snd (BN_mod_add L gx B p))"

definition sqrt_candidate :: "('m, 'd, 'r, 'p, 'k, 'b, 't, 'z) ossl_scheme \<Rightarrow> nat \<Rightarrow> nat \<Rightarrow> nat" where
  "sqrt_candidate L gx p =
     (let e = snd (BN_add L p 1);
          e = snd (BN_rshift L e 2)
      in snd (BN_mod_exp L gx e p))"

definition map_to_curve_sswu :: "('m, 'd, 'r, 'p, 'k, 'b, 't, 'z) ossl_scheme \<Rightarrow> nat \<Rightarrow> 't result" where
  "map_to_curve_sswu L u =
     (if \<not> BN_new L then Err CRYPTO_ERROR ''Failed to allocate bignums''
      else
        (let (p, A, B) = EC_GROUP_get_curve L;
             Z = snd (BN_sub L p 12);
             tv1 = snd (BN_mod_sqr L u p);
             tv3 = snd (BN_mod_mul L Z tv1 p);
             tv5 = snd (BN_mod_sqr L tv3 p);
             tv5 = snd (BN_mod_add L tv5 tv3 p);
             tv4 = snd (BN_mod_add L tv5 1 p);
             tv4 = snd (BN_mod_mul L tv4 B p);
             tv6 = (if BN_is_zero L tv5 then snd (BN_mod_mul L Z A p)
                    else snd (BN_mod_mul L tv5 (snd (BN_sub L p A)) p))
         in case BN_mod_inverse L tv6 p of
              None \<Rightarrow> Err CRYPTO_ERROR ''Failed to compute inverse''
            | Some tv6_inv \<Rightarrow>
                (let x = snd (BN_mod_mul L tv4 tv6_inv p);
                     gx = curve_rhs L x A B p;
                     y = sqrt_candidate L gx p;
                     y_sq = snd (BN_mod_sqr L y p);
                     p_bytes = nat (BN_num_bytes L p);
                     is_square = constant_time_compare L (snd (BN_bn2binpad L y_sq p_bytes))
                                   (snd (BN_bn2binpad L gx p_bytes));
                     x2 = snd (BN_mod_mul L tv3 x p);
                     gx2 = curve_rhs L x2 A B p;
                     y2 = sqrt_candidate L gx2 p;
                     x1_bytes = ct_select (\<not> is_square) (snd (BN_bn2binpad L x p_bytes))
                                  (snd (BN_bn2binpad L x2 p_bytes));
                     y1_bytes = ct_select (\<not> is_square) (snd (BN_bn2binpad L y p_bytes))
                                  (snd (BN_bn2binpad L y2 p_bytes));
                     x = bin2bn_into L x1_bytes x;
                     y = bin2bn_into L y1_bytes y;
                     sgn0_u = BN_is_odd L u;
                     sgn0_y = BN_is_odd L y;
                     neg_y = snd (BN_sub L p y);
                     y_bytes = ct_select (sgn0_u \<noteq> sgn0_y) (snd (BN_bn2binpad L y p_bytes))
                                 (snd (BN_bn2binpad L neg_y p_bytes));
                     y = bin2bn_into L y_bytes y
                 in case EC_POINT_set_affine_coordinates L x y of (ok, point) \<Rightarrow>
                      if \<not> EC_POINT_new L \<or> ok \<noteq> 1 then Err CRYPTO_ERROR ''Failed to create point''
                      else Ok point)))"

text \<open>
  The two numbers read from the expansion are used without a check of the pointers, so a
  failure there is the unspecified value of \<open>the\<close>.
\<close>

definition hash_to_curve :: "('m, 'd, 'r, 'p, 'k, 'b, 't, 'z) ossl_scheme \<Rightarrow> bytes \<Rightarrow> 't result" where
  "hash_to_curve L input =
     (if INT_MAX < length input then Err CRYPTO_ERROR ''Input too large''
      else
        (let l = 72
         in try_bind (expand_message_xmd L input DST_H2C (2 * l)) (\<lambda>expanded.
              if \<not> BN_CTX_new L then Err CRYPTO_ERROR ''Failed to create context''
              else
                (let (p, _, _) = EC_GROUP_get_curve L;
                     u0 = snd (BN_mod L (the (BN_bin2bn L (take l expanded))) p);
                     u1 = snd (BN_mod L (the (BN_bin2bn L (take l (drop l expanded)))) p)
                 in try_bind (map_to_curve_sswu L u0) (\<lambda>Q0.
                    try_bind (map_to_curve_sswu L u1) (\<lambda>Q1.
                      case EC_POINT_add L Q0 Q1 of (ok, R) \<Rightarrow>
                        if \<not> EC_POINT_new L \<or> ok \<noteq> 1 then Err CRYPTO_ERROR ''Point addition failed''
                        else Ok R))))))"

subsection \<open>The expansion of a message\<close>

text \<open>Block \<open>i\<close> of the output, counted from 1, as RFC 9380 defines it.\<close>

fun xmd_block :: "(bytes \<Rightarrow> bytes) \<Rightarrow> bytes \<Rightarrow> bytes \<Rightarrow> nat \<Rightarrow> bytes" where
  "xmd_block H dst_prime b_0 0 = []"
| "xmd_block H dst_prime b_0 (Suc 0) = H (b_0 @ [1] @ dst_prime)"
| "xmd_block H dst_prime b_0 (Suc (Suc i)) =
     H (strxor b_0 (xmd_block H dst_prime b_0 (Suc i)) @ [word_of_nat (Suc (Suc i))] @ dst_prime)"

definition xmd_reference :: "(bytes \<Rightarrow> bytes) \<Rightarrow> bytes \<Rightarrow> bytes \<Rightarrow> nat \<Rightarrow> bytes" where
  "xmd_reference H msg dst len =
     (let dst_prime = dst @ [word_of_nat (length dst)];
          b_0 = H (replicate 128 0 @ msg @ [word_of_nat (len div 256), word_of_nat len] @ [0] @ dst_prime)
      in take len (concat (map (xmd_block H dst_prime b_0) [1..<Suc ((len + 47) div 48)])))"

lemma xmd_loop_blocks:
  assumes doc: "evp_documented L H" and "0 < i"
  shows "xmd_loop L dst_prime b_0 (i + k) (Suc i) (xmd_block (H EVP_sha384) dst_prime b_0 i) out
    = Ok (out @ concat (map (xmd_block (H EVP_sha384) dst_prime b_0) [Suc i..<Suc (i + k)]))"
  using assms(2)
proof (induction k arbitrary: i out)
  case 0
  then show ?case by (subst xmd_loop.simps) simp
next
  case (Suc k)
  obtain j where i: "i = Suc j" using Suc.prems by (cases i) auto
  have block: "H EVP_sha384 (strxor b_0 (xmd_block (H EVP_sha384) dst_prime b_0 i) @ [word_of_nat (Suc i)] @ dst_prime)
      = xmd_block (H EVP_sha384) dst_prime b_0 (Suc i)" by (simp add: i)
  have "xmd_loop L dst_prime b_0 (i + Suc k) (Suc i) (xmd_block (H EVP_sha384) dst_prime b_0 i) out
      = xmd_loop L dst_prime b_0 (Suc i + k) (Suc (Suc i)) (xmd_block (H EVP_sha384) dst_prime b_0 (Suc i))
          (out @ xmd_block (H EVP_sha384) dst_prime b_0 (Suc i))"
    by (subst xmd_loop.simps)
      (simp add: sha384_documented [OF doc] Let_def del: xmd_block.simps of_nat_Suc flip: block)
  also have "\<dots> = Ok (out @ xmd_block (H EVP_sha384) dst_prime b_0 (Suc i)
      @ concat (map (xmd_block (H EVP_sha384) dst_prime b_0) [Suc (Suc i)..<Suc (Suc i + k)]))"
    using Suc.IH [of "Suc i"] by (simp del: xmd_block.simps upt_Suc)
  also have "xmd_block (H EVP_sha384) dst_prime b_0 (Suc i)
        @ concat (map (xmd_block (H EVP_sha384) dst_prime b_0) [Suc (Suc i)..<Suc (Suc i + k)])
      = concat (map (xmd_block (H EVP_sha384) dst_prime b_0) [Suc i..<Suc (i + Suc k)])"
    by (simp add: upt_conv_Cons del: xmd_block.simps upt_Suc)
  finally show ?case .
qed

lemma length_xmd_block:
  assumes "evp_documented L H" "0 < i"
  shows "length (xmd_block (H EVP_sha384) dst_prime b_0 i) = 48"
  using assms(2) documented_len [OF assms(1), of EVP_sha384]
  by (cases "(H EVP_sha384, dst_prime, b_0, i)" rule: xmd_block.cases) auto

lemma length_xmd_blocks:
  "evp_documented L H \<Longrightarrow>
     length (concat (map (xmd_block (H EVP_sha384) dst_prime b_0) [1..<Suc k])) = 48 * k"
  by (induction k) (simp_all add: length_xmd_block del: xmd_block.simps)

theorem expand_message_xmd_reference:
  assumes doc: "evp_documented L H" and len: "0 < len" "len \<le> 255 * 48" and dst: "length dst \<le> 255"
  shows "expand_message_xmd L msg dst len = Ok (xmd_reference (H EVP_sha384) msg dst len)
    \<and> length (xmd_reference (H EVP_sha384) msg dst len) = len"
proof -
  define dst_prime where "dst_prime = dst @ [word_of_nat (length dst) :: byte]"
  define b_0 where "b_0 = H EVP_sha384 (replicate 128 0 @ msg
    @ [word_of_nat (len div 256), word_of_nat len] @ [0] @ dst_prime)"
  define k where "k = (len + 47) div 48 - 1"
  have k: "(len + 47) div 48 = Suc k" using len(1) by (simp add: k_def)
  define blocks where "blocks = concat (map (xmd_block (H EVP_sha384) dst_prime b_0) [1..<Suc (Suc k)])"
  have lb: "length blocks = 48 * Suc k" unfolding blocks_def by (rule length_xmd_blocks [OF doc])
  have "(len + 47) div 48 * 48 + (len + 47) mod 48 = len + 47" by (rule div_mult_mod_eq)
  then have enough: "len \<le> length blocks"
    using mod_less_divisor [of 48 "len + 47"] unfolding k lb by linarith
  have "xmd_loop L dst_prime b_0 (Suc 0 + k) (Suc (Suc 0)) (xmd_block (H EVP_sha384) dst_prime b_0 (Suc 0))
      (xmd_block (H EVP_sha384) dst_prime b_0 (Suc 0)) = Ok blocks"
    unfolding xmd_loop_blocks [OF doc zero_less_Suc] blocks_def
    by (simp add: upt_conv_Cons del: upt_Suc)
  then have loop: "xmd_loop L dst_prime b_0 ((len + 48 - 1) div 48) 2 (H EVP_sha384 (b_0 @ [1] @ dst_prime))
      (H EVP_sha384 (b_0 @ [1] @ dst_prime)) = Ok blocks"
    using k by (simp add: numeral_2_eq_2 add.commute [of 47 len])
  have ref: "xmd_reference (H EVP_sha384) msg dst len = take len blocks"
    unfolding xmd_reference_def Let_def k blocks_def b_0_def dst_prime_def ..
  have "expand_message_xmd L msg dst len = Ok (take len blocks)"
    using loop len dst enough
    by (simp add: expand_message_xmd_def Let_def sha384_documented [OF doc] b_0_def dst_prime_def)
  then show ?thesis using enough by (simp add: ref)
qed

subsection \<open>The map to the curve\<close>

definition swu_g :: "nat \<Rightarrow> nat \<Rightarrow> nat \<Rightarrow> nat \<Rightarrow> nat" where
  "swu_g p A B x = (x ^ 3 + A * x + B) mod p"

definition swu_sqrt :: "nat \<Rightarrow> nat \<Rightarrow> nat" where
  "swu_sqrt p a = (a ^ ((p + 1) div 4)) mod p"

text \<open>
  The simplified SWU map with \<open>Z = -12\<close>, over numbers below \<open>p\<close>; \<open>invert\<close> gives the inverse of a
  number modulo \<open>p\<close> when it has one.
\<close>

definition sswu_reference ::
  "(nat \<Rightarrow> nat option) \<Rightarrow> nat \<Rightarrow> nat \<Rightarrow> nat \<Rightarrow> nat \<Rightarrow> (nat \<times> nat) option" where
  "sswu_reference invert p A B u =
     (let Z = p - 12;
          w = (Z * u ^ 2) mod p;
          v = (w ^ 2 + w) mod p
      in case invert ((if v = 0 then Z * A else v * (p - A)) mod p) of
           None \<Rightarrow> None
         | Some i \<Rightarrow>
             (let x1 = ((v + 1) * B * i) mod p;
                  y1 = swu_sqrt p (swu_g p A B x1);
                  x2 = (w * x1) mod p;
                  y2 = swu_sqrt p (swu_g p A B x2);
                  square = (y1 ^ 2 mod p = swu_g p A B x1);
                  x = (if square then x1 else x2);
                  y = (if square then y1 else y2)
              in Some (x, if odd u \<noteq> odd y then p - y else y)))"

lemma ct_select_eq: "length a = length b \<Longrightarrow> ct_select flag a b = (if flag then b else a)"
proof -
  assume len: "length a = length b"
  have "(x :: byte) XOR ((- 1) AND (x XOR y)) = y" for x y by (simp flip: xor.assoc)
  then show ?thesis using len by (intro nth_equalityI) (auto simp: ct_select_def Let_def)
qed

lemma curve_rhs_eq:
  assumes "bn_documented L" "0 < p"
  shows "curve_rhs L x A B p = swu_g p A B x"
proof -
  have "(((x * x mod p + A) mod p * x) mod p + B) mod p = ((x * x + A) * x + B) mod p"
    by (metis mod_add_left_eq mod_mult_left_eq)
  also have "(x * x + A) * x + B = x ^ 3 + A * x + B" by (simp add: algebra_simps power3_eq_cube)
  finally show ?thesis by (simp add: curve_rhs_def swu_g_def Let_def bn_doc_arith [OF assms(1)] assms(2))
qed

lemma sqrt_candidate_eq:
  "bn_documented L \<Longrightarrow> 0 < p \<Longrightarrow> sqrt_candidate L a p = swu_sqrt p a"
  by (simp add: sqrt_candidate_def swu_sqrt_def bn_doc_arith Let_def)

lemma num_bytes_fits:
  assumes "bn_documented L"
  shows "n < 256 ^ nat (BN_num_bytes L n)"
proof -
  let ?b = "nat (BN_num_bits L n)" let ?k = "nat (BN_num_bytes L n)"
  have "BN_num_bits L n \<le> int ?b" by simp
  then have "n < 2 ^ ?b" by (simp only: bn_doc_bits [OF assms])
  also have "?b \<le> 8 * ?k" using bn_doc_num_bytes [OF assms, of n] by linarith
  then have "(2 :: nat) ^ ?b \<le> 2 ^ (8 * ?k)" by (rule power_increasing) simp
  also have "(2 :: nat) ^ (8 * ?k) = 256 ^ ?k" by (simp add: power_mult)
  finally show ?thesis .
qed

lemma select_number:
  assumes "bn_documented L" "a < 256 ^ k" "b < 256 ^ k"
  shows "bin2bn_into L (ct_select flag (snd (BN_bn2binpad L a k)) (snd (BN_bn2binpad L b k))) z
    = (if flag then b else a)"
  using assms
  by (simp add: bin2bn_into_def bn_doc_bin2bn [OF assms(1)] bn_doc_binpad ct_select_eq be_val_be_bytes)

text \<open>Executing a \<open>let\<close> whose value is known, one at a time.\<close>

lemma let_eqI: "t = v \<Longrightarrow> f v = r \<Longrightarrow> Let t f = r"
  by simp

lemma case_Some_eqI: "x = Some v \<Longrightarrow> f v = r \<Longrightarrow> (case x of None \<Rightarrow> z | Some v \<Rightarrow> f v) = r"
  by simp

text \<open>
  The intermediate values of the map: \<open>Z u\<^sup>2\<close>, the number under the fraction, the denominator, and
  the pair selected once the denominator's inverse \<open>i\<close> is known.
\<close>

definition swu_w :: "nat \<Rightarrow> nat \<Rightarrow> nat" where
  "swu_w p u = ((p - 12) * u ^ 2) mod p"

definition swu_v :: "nat \<Rightarrow> nat \<Rightarrow> nat" where
  "swu_v p u = (swu_w p u ^ 2 + swu_w p u) mod p"

definition swu_t :: "nat \<Rightarrow> nat \<Rightarrow> nat \<Rightarrow> nat" where
  "swu_t p A u = (if swu_v p u = 0 then (p - 12) * A else swu_v p u * (p - A)) mod p"

definition swu_x1 :: "nat \<Rightarrow> nat \<Rightarrow> nat \<Rightarrow> nat \<Rightarrow> nat" where
  "swu_x1 p B u i = ((swu_v p u + 1) * B * i) mod p"

definition swu_select :: "nat \<Rightarrow> nat \<Rightarrow> nat \<Rightarrow> nat \<Rightarrow> nat \<Rightarrow> nat \<times> nat" where
  "swu_select p A B x1 x2 =
     (if swu_sqrt p (swu_g p A B x1) ^ 2 mod p = swu_g p A B x1
      then (x1, swu_sqrt p (swu_g p A B x1)) else (x2, swu_sqrt p (swu_g p A B x2)))"

definition swu_sign :: "nat \<Rightarrow> nat \<Rightarrow> nat \<Rightarrow> nat" where
  "swu_sign p u y = (if odd u \<noteq> odd y then p - y else y)"

lemma sswu_reference_steps:
  "sswu_reference invert p A B u =
     (case invert (swu_t p A u) of
        None \<Rightarrow> None
      | Some i \<Rightarrow>
          (case swu_select p A B (swu_x1 p B u i) ((swu_w p u * swu_x1 p B u i) mod p) of
             (x, y) \<Rightarrow> Some (x, swu_sign p u y)))"
proof (cases "invert (swu_t p A u)")
  case None
  then show ?thesis
    by (simp only: sswu_reference_def swu_t_def swu_v_def swu_w_def Let_def option.case)
next
  case (Some i)
  have "sswu_reference invert p A B u =
      (case swu_select p A B (swu_x1 p B u i) ((swu_w p u * swu_x1 p B u i) mod p) of
         (x, y) \<Rightarrow> Some (x, swu_sign p u y))"
    unfolding sswu_reference_def
    apply (rule let_eqI [OF refl], rule let_eqI [OF swu_w_def [symmetric]],
        rule let_eqI [OF swu_v_def [symmetric]], rule case_Some_eqI [OF Some [unfolded swu_t_def]],
        rule let_eqI [OF swu_x1_def [symmetric]])
    apply (cases "swu_sqrt p (swu_g p A B (swu_x1 p B u i)) ^ 2 mod p = swu_g p A B (swu_x1 p B u i)")
    apply (simp_all only: Let_def swu_select_def swu_sign_def if_True if_False prod.case simp_thms)
    done
  then show ?thesis by (simp only: Some option.case)
qed

lemma sswu_denominator_steps:
  assumes bn: "bn_documented L" and p: "12 < p" "A \<le> p"
  shows "snd (BN_sub L p 12) = p - 12" "snd (BN_mod_sqr L u p) = (u * u) mod p"
    "snd (BN_mod_mul L (p - 12) ((u * u) mod p) p) = swu_w p u"
    "snd (BN_mod_sqr L (swu_w p u) p) = (swu_w p u * swu_w p u) mod p"
    "snd (BN_mod_add L ((swu_w p u * swu_w p u) mod p) (swu_w p u) p) = swu_v p u"
    "snd (BN_mod_add L (swu_v p u) 1 p) = (swu_v p u + 1) mod p"
    "snd (BN_mod_mul L ((swu_v p u + 1) mod p) B p) = ((swu_v p u + 1) * B) mod p"
    "(if BN_is_zero L (swu_v p u) then snd (BN_mod_mul L (p - 12) A p)
      else snd (BN_mod_mul L (swu_v p u) (snd (BN_sub L p A)) p)) = swu_t p A u"
    "snd (BN_mod_mul L (((swu_v p u + 1) * B) mod p) i p) = swu_x1 p B u i"
proof -
  have p0: "0 < p" using p by simp
  note arith = bn_doc_arith(2-6) [OF bn p0] bn_doc_arith(7-9) [OF bn]
  show "snd (BN_sub L p 12) = p - 12" "snd (BN_mod_sqr L u p) = (u * u) mod p"
    "snd (BN_mod_mul L (p - 12) ((u * u) mod p) p) = swu_w p u"
    "snd (BN_mod_sqr L (swu_w p u) p) = (swu_w p u * swu_w p u) mod p"
    "snd (BN_mod_add L (swu_v p u) 1 p) = (swu_v p u + 1) mod p"
    using p by (simp_all add: arith swu_w_def mod_mult_right_eq power2_eq_square)
  show "snd (BN_mod_add L ((swu_w p u * swu_w p u) mod p) (swu_w p u) p) = swu_v p u"
    by (simp add: arith swu_v_def mod_add_left_eq power2_eq_square)
  show "snd (BN_mod_mul L ((swu_v p u + 1) mod p) B p) = ((swu_v p u + 1) * B) mod p"
    "snd (BN_mod_mul L (((swu_v p u + 1) * B) mod p) i p) = swu_x1 p B u i"
    by (simp_all only: arith snd_conv mod_mult_left_eq swu_x1_def)
  show "(if BN_is_zero L (swu_v p u) then snd (BN_mod_mul L (p - 12) A p)
      else snd (BN_mod_mul L (swu_v p u) (snd (BN_sub L p A)) p)) = swu_t p A u"
    using p by (simp add: arith swu_t_def bn_doc_tests [OF bn])
qed

text \<open>The branch-free selections, on numbers that fit the bytes of \<open>p\<close>.\<close>

lemma sswu_selection_steps:
  fixes p :: nat
  assumes doc: "ec_documented L q pt" and le: "a \<le> p" "b \<le> p"
  defines "k \<equiv> nat (BN_num_bytes L p)"
  shows "constant_time_compare L (snd (BN_bn2binpad L a k)) (snd (BN_bn2binpad L b k)) = (a = b)"
    "bin2bn_into L (ct_select flag (snd (BN_bn2binpad L a k)) (snd (BN_bn2binpad L b k))) z = (if flag then b else a)"
proof -
  note bn = ec_doc_bn [OF doc]
  have fits: "a < 256 ^ k" "b < 256 ^ k"
    using le num_bytes_fits [OF bn, of p] by (simp_all add: k_def)
  show "constant_time_compare L (snd (BN_bn2binpad L a k)) (snd (BN_bn2binpad L b k)) = (a = b)"
    by (simp add: compare_doc [OF doc] bn_doc_binpad [OF bn] fits be_bytes_inject)
  show "bin2bn_into L (ct_select flag (snd (BN_bn2binpad L a k)) (snd (BN_bn2binpad L b k))) z = (if flag then b else a)"
    by (rule select_number [OF bn fits])
qed

text \<open>The code without an inverse of the denominator, and with one.\<close>

lemma sswu_code_no_inverse:
  assumes doc: "ec_documented L q pt" and curve: "EC_GROUP_get_curve L = (p, A, B)"
    and p: "12 < p" "A \<le> p" and none: "BN_mod_inverse L (swu_t p A u) p = None"
  shows "map_to_curve_sswu L u = Err CRYPTO_ERROR ''Failed to compute inverse''"
proof -
  note e = sswu_denominator_steps [OF ec_doc_bn [OF doc] p]
  have alloc: "BN_new L" using bn_doc_alloc [OF ec_doc_bn [OF doc]] by simp
  show ?thesis
    unfolding map_to_curve_sswu_def if_not_P [OF not_not [THEN iffD2, OF alloc]]
    apply (rule let_eqI [OF curve], unfold prod.case)
    apply (rule let_eqI [OF e(1)], rule let_eqI [OF e(2)], rule let_eqI [OF e(3)], rule let_eqI [OF e(4)],
        rule let_eqI [OF e(5)], rule let_eqI [OF e(6)], rule let_eqI [OF e(7)], rule let_eqI [OF e(8)])
    apply (simp only: none option.case)
    done
qed

lemma sswu_code_inverse:
  assumes doc: "ec_documented L q pt" and curve: "EC_GROUP_get_curve L = (p, A, B)"
    and p: "12 < p" "A \<le> p" and inv: "BN_mod_inverse L (swu_t p A u) p = Some i"
    and pair: "swu_select p A B (swu_x1 p B u i) ((swu_w p u * swu_x1 p B u i) mod p) = (x, y)"
  shows "map_to_curve_sswu L u =
    (case EC_POINT_set_affine_coordinates L x (swu_sign p u y) of (ok, point) \<Rightarrow>
       if ok \<noteq> 1 then Err CRYPTO_ERROR ''Failed to create point'' else Ok point)"
proof -
  note bn = ec_doc_bn [OF doc]
  have p0: "0 < p" using p by simp
  note e = sswu_denominator_steps [OF bn p]
  note arith = bn_doc_arith(2-6) [OF bn p0] bn_doc_arith(7-9) [OF bn]
  note sel = sswu_selection_steps [OF doc]
  have alloc: "BN_new L" "EC_POINT_new L" using bn_doc_alloc [OF bn] group_doc(2) [OF doc] by simp_all
  define x1 x2 where x: "x1 = swu_x1 p B u i" "x2 = (swu_w p u * x1) mod p"
  define g1 y1 y2 where g: "g1 = swu_g p A B x1" "y1 = swu_sqrt p g1" "y2 = swu_sqrt p (swu_g p A B x2)"
  have small: "x1 \<le> p" "x2 \<le> p" "g1 \<le> p" "y1 \<le> p" "y2 \<le> p" "y1 * y1 mod p \<le> p"
    using p0 by (simp_all add: x g swu_x1_def swu_g_def swu_sqrt_def less_imp_le)
  have xy: "x = (if \<not> y1 * y1 mod p = g1 then x2 else x1)" "y = (if \<not> y1 * y1 mod p = g1 then y2 else y1)"
    using pair unfolding swu_select_def x g by (auto simp: power2_eq_square split: if_splits)
  have yp: "y \<le> p" using small by (simp add: xy)
  have f1: "snd (BN_mod_mul L (((swu_v p u + 1) * B) mod p) i p) = x1" unfolding x by (rule e(9))
  have f5: "snd (BN_mod_mul L (swu_w p u) x1 p) = x2" by (simp add: arith x)
  have f3: "snd (BN_mod_sqr L y1 p) = y1 * y1 mod p" by (simp add: arith)
  have f9: "snd (BN_sub L p y) = p - y" using yp by (simp add: arith)
  have root: "curve_rhs L x1 A B p = g1" "sqrt_candidate L g1 p = y1"
    "curve_rhs L x2 A B p = swu_g p A B x2" "sqrt_candidate L (swu_g p A B x2) p = y2"
    by (simp_all only: g curve_rhs_eq [OF bn p0] sqrt_candidate_eq [OF bn p0])
  note step = sel(2) [OF small(1,2), of "y1 * y1 mod p \<noteq> g1" x1, folded xy(1)]
    sel(2) [OF small(4,5), of "y1 * y1 mod p \<noteq> g1" y1, folded xy(2)]
    sel(2) [OF yp diff_le_self, of "odd u \<noteq> odd y" _ y]
  note odd = bn_doc_tests(2) [OF bn]
  show ?thesis
    unfolding map_to_curve_sswu_def if_not_P [OF not_not [THEN iffD2, OF alloc(1)]]
    apply (rule let_eqI [OF curve], unfold prod.case)
    apply (rule let_eqI [OF e(1)], rule let_eqI [OF e(2)], rule let_eqI [OF e(3)], rule let_eqI [OF e(4)],
        rule let_eqI [OF e(5)], rule let_eqI [OF e(6)], rule let_eqI [OF e(7)], rule let_eqI [OF e(8)])
    apply (rule case_Some_eqI [OF inv])
    apply (rule let_eqI [OF f1], rule let_eqI [OF root(1)], rule let_eqI [OF root(2)],
        rule let_eqI [OF f3], rule let_eqI [OF refl], rule let_eqI [OF sel(1) [OF small(6,3)]],
        rule let_eqI [OF f5], rule let_eqI [OF root(3)], rule let_eqI [OF root(4)],
        rule let_eqI [OF refl], rule let_eqI [OF refl], rule let_eqI [OF step(1)], rule let_eqI [OF step(2)],
        rule let_eqI [OF odd], rule let_eqI [OF odd], rule let_eqI [OF f9], rule let_eqI [OF refl],
        rule let_eqI [OF step(3)])
    apply (simp add: alloc swu_sign_def)
    done
qed

theorem map_to_curve_sswu_reference:
  assumes doc: "ec_documented L q pt" and curve: "EC_GROUP_get_curve L = (p, A, B)"
    and p: "12 < p" "A \<le> p"
  shows "map_to_curve_sswu L u =
    (case sswu_reference (\<lambda>a. BN_mod_inverse L a p) p A B u of
       None \<Rightarrow> Err CRYPTO_ERROR ''Failed to compute inverse''
     | Some (x, y) \<Rightarrow>
         (case EC_POINT_set_affine_coordinates L x y of (ok, point) \<Rightarrow>
            if ok \<noteq> 1 then Err CRYPTO_ERROR ''Failed to create point'' else Ok point))"
proof (cases "BN_mod_inverse L (swu_t p A u) p")
  case None
  then show ?thesis by (simp add: sswu_reference_steps sswu_code_no_inverse [OF assms])
next
  case (Some i)
  obtain x y where pair: "swu_select p A B (swu_x1 p B u i) ((swu_w p u * swu_x1 p B u i) mod p) = (x, y)"
    by fastforce
  show ?thesis by (simp add: sswu_reference_steps Some pair sswu_code_inverse [OF assms Some pair])
qed

text \<open>Whenever one of the two candidates has a root, the selected pair is on the curve.\<close>

lemma sswu_reference_on_curve:
  assumes ref: "sswu_reference invert p A B u = Some (x, y)" and p: "0 < p"
    and root: "swu_sqrt p (swu_g p A B x) ^ 2 mod p = swu_g p A B x"
  shows "y ^ 2 mod p = swu_g p A B x"
proof -
  obtain f x1 x2 y0 where "x = (if f then x1 else x2)"
    and "y0 = (if f then swu_sqrt p (swu_g p A B x1) else swu_sqrt p (swu_g p A B x2))"
    and "y = (if odd u \<noteq> odd y0 then p - y0 else y0)"
    using ref unfolding sswu_reference_def Let_def by (split option.split_asm) (blast, simp only: option.inject prod.inject, blast)
  then obtain r where r: "r = swu_sqrt p (swu_g p A B x)" and y: "y = r \<or> y = p - r"
    by (cases f) (simp_all split: if_splits)
  have rp: "r \<le> p" using p by (simp add: r swu_sqrt_def less_imp_le)
  have "(p - r) ^ 2 mod p = r ^ 2 mod p"
  proof -
    have "int ((p - r) ^ 2) = (int p - int r) ^ 2" using rp by (simp only: of_nat_power of_nat_diff)
    also have "\<dots> = int p * (int p - 2 * int r) + int (r ^ 2)"
      by (simp add: power2_eq_square algebra_simps)
    finally have "int ((p - r) ^ 2) = int p * (int p - 2 * int r) + int (r ^ 2)" .
    then have "int ((p - r) ^ 2 mod p) = int (r ^ 2 mod p)" by (simp add: zmod_int)
    then show ?thesis by (simp only: of_nat_eq_iff)
  qed
  then show ?thesis using y root by (auto simp: r)
qed

lemma hash_to_curve_pt:
  assumes doc: "ec_documented L q pt" and "hash_to_curve L input = Ok h"
  shows "\<exists>a. h = pt a"
proof -
  have map: "map_to_curve_sswu L u = Ok Q \<Longrightarrow> \<exists>a. Q = pt a" for u Q
    using group_doc(12) [OF doc]
    by (fastforce simp: map_to_curve_sswu_def Let_def split: if_split_asm prod.split_asm option.split_asm)
  show ?thesis
    using assms(2) group_doc(8) [OF doc]
    by (auto simp: hash_to_curve_def try_bind_Ok_iff Let_def case_prod_unfold dest!: map split: if_splits)
qed

end
