(* ===== verification/PP_Voprf_Protocol.thy ===== *)
theory PP_Voprf_Protocol
  imports PP_Sswu
begin

text \<open>
  The keys, the client and the server of src/crypto/voprf.cpp. The group is a singleton of
  the process, so a key is its point or its scalar, absent until it was set. The last
  section proves that a blinded, evaluated and finalised input is the output that the
  server recomputes from its key.
\<close>

record VoprfFinalizationData =
  vfd_blind_scalar :: bytes
  vfd_blinded_element :: bytes
  vfd_input :: bytes

record VoprfEvaluation =
  ve_evaluated_element :: bytes
  ve_proof :: bytes

record 'pt VoprfPublicKey =
  vpk_point :: "'pt option"
  vpk_cached_key_id :: TokenKeyId
  vpk_key_id_computed :: bool

record VoprfPrivateKey =
  vsk_scalar :: "nat option"

definition VoprfPublicKey_new :: "'pt VoprfPublicKey" where
  "VoprfPublicKey_new = \<lparr>vpk_point = None, vpk_cached_key_id = replicate 32 0, vpk_key_id_computed = False\<rparr>"

subsection \<open>Public keys\<close>

definition VoprfPublicKey_from_bytes ::
  "('m, 'd, 'r, 'p, 'k, 'b, 't, 'z) ossl_scheme \<Rightarrow> bytes \<Rightarrow> 't VoprfPublicKey result" where
  "VoprfPublicKey_from_bytes L data =
     (if \<not> EC_GROUP_new_by_curve_name L then Err CRYPTO_ERROR ''Failed to get curve group''
      else
        (case bytes_to_point L data of
           None \<Rightarrow> Err INVALID_KEY ''Failed to parse public key''
         | Some point \<Rightarrow> Ok (VoprfPublicKey_new\<lparr>vpk_point := Some point\<rparr>)))"

definition VoprfPublicKey_to_bytes ::
  "('m, 'd, 'r, 'p, 'k, 'b, 't, 'z) ossl_scheme \<Rightarrow> 't VoprfPublicKey \<Rightarrow> bytes result" where
  "VoprfPublicKey_to_bytes L key =
     (case vpk_point key of
        None \<Rightarrow> Err INVALID_KEY ''Key not initialized''
      | Some point \<Rightarrow>
          if \<not> EC_GROUP_new_by_curve_name L then Err CRYPTO_ERROR ''Failed to get curve group''
          else point_to_bytes L point)"

definition VoprfPublicKey_key_id ::
  "('m, 'd, 'r, 'p, 'k, 'b, 't, 'z) ossl_scheme \<Rightarrow> 't VoprfPublicKey
     \<Rightarrow> TokenKeyId result \<times> 't VoprfPublicKey" where
  "VoprfPublicKey_key_id L key =
     (if vpk_key_id_computed key then (Ok (vpk_cached_key_id key), key)
      else
        (case VoprfPublicKey_to_bytes L key of
           Inl e \<Rightarrow> (Inl e, key)
         | Inr encoded \<Rightarrow>
             (case sha256 L encoded of
                Inl e \<Rightarrow> (Inl e, key)
              | Inr hash \<Rightarrow>
                  (Ok hash, key\<lparr>vpk_cached_key_id := hash, vpk_key_id_computed := True\<rparr>))))"

definition VoprfPublicKey_is_valid :: "'t VoprfPublicKey \<Rightarrow> bool" where
  "VoprfPublicKey_is_valid key \<longleftrightarrow> vpk_point key \<noteq> None"

subsection \<open>Private keys\<close>

definition VoprfPrivateKey_generate ::
  "('m, 'd, 'r, 'p, 'k, 'b, 't, 'z) ossl_scheme \<Rightarrow> ('r, VoprfPrivateKey \<times> 't VoprfPublicKey) proc" where
  "VoprfPrivateKey_generate L =
     (if \<not> EC_GROUP_new_by_curve_name L then liftM (Err CRYPTO_ERROR ''Failed to get curve group'')
      else
        (case EC_GROUP_get_order L of (ok, order) \<Rightarrow>
           if \<not> BN_CTX_new L \<or> \<not> BN_new L \<or> ok \<noteq> 1 then
             liftM (Err CRYPTO_ERROR ''Failed to get group order'')
           else
             drawM (\<lambda>rng.
               case BN_rand_range L rng order of ((ok, scalar), rng') \<Rightarrow>
                 (if ok = 0 \<or> BN_is_zero L scalar then Err CRYPTO_ERROR ''Key generation failed''
                  else
                    (case EC_POINT_mul L (Some scalar) None of (ok, pub_point) \<Rightarrow>
                       if \<not> EC_POINT_new L \<or> ok \<noteq> 1 then
                         Err CRYPTO_ERROR ''Public key computation failed''
                       else
                         Ok (\<lparr>vsk_scalar = Some scalar\<rparr>,
                             VoprfPublicKey_new\<lparr>vpk_point := Some pub_point\<rparr>)), rng'))))"

definition VoprfPrivateKey_from_bytes ::
  "('m, 'd, 'r, 'p, 'k, 'b, 't, 'z) ossl_scheme \<Rightarrow> bytes \<Rightarrow> VoprfPrivateKey result" where
  "VoprfPrivateKey_from_bytes L data =
     (if length data \<noteq> P384_SCALAR_SIZE then Err INVALID_KEY ''Invalid private key length''
      else if \<not> EC_GROUP_new_by_curve_name L then Err CRYPTO_ERROR ''Failed to get curve group''
      else
        (case BN_bin2bn L data of
           None \<Rightarrow> Err INVALID_KEY ''Failed to parse private key''
         | Some scalar \<Rightarrow>
             (case EC_GROUP_get_order L of (ok, order) \<Rightarrow>
                if \<not> BN_CTX_new L \<or> \<not> BN_new L \<or> ok \<noteq> 1 \<or> BN_is_zero L scalar
                   \<or> 0 \<le> BN_cmp L scalar order then
                  Err INVALID_KEY ''Invalid private key scalar''
                else Ok \<lparr>vsk_scalar = Some scalar\<rparr>)))"

definition VoprfPrivateKey_to_bytes ::
  "('m, 'd, 'r, 'p, 'k, 'b, 't, 'z) ossl_scheme \<Rightarrow> VoprfPrivateKey \<Rightarrow> bytes result" where
  "VoprfPrivateKey_to_bytes L key =
     (case vsk_scalar key of
        None \<Rightarrow> Err INVALID_KEY ''Key not initialized''
      | Some scalar \<Rightarrow>
          (case BN_bn2binpad L scalar P384_SCALAR_SIZE of (n, out) \<Rightarrow>
             if n \<noteq> int P384_SCALAR_SIZE then Err CRYPTO_ERROR ''Failed to serialize private key''
             else Ok out))"

definition VoprfPrivateKey_public_key ::
  "('m, 'd, 'r, 'p, 'k, 'b, 't, 'z) ossl_scheme \<Rightarrow> VoprfPrivateKey \<Rightarrow> 't VoprfPublicKey result" where
  "VoprfPrivateKey_public_key L key =
     (case vsk_scalar key of
        None \<Rightarrow> Err INVALID_KEY ''Key not initialized''
      | Some scalar \<Rightarrow>
          if \<not> EC_GROUP_new_by_curve_name L then Err CRYPTO_ERROR ''Failed to get curve group''
          else
            (case EC_POINT_mul L (Some scalar) None of (ok, pub_point) \<Rightarrow>
               if \<not> BN_CTX_new L \<or> \<not> EC_POINT_new L \<or> ok \<noteq> 1 then
                 Err CRYPTO_ERROR ''Public key computation failed''
               else Ok (VoprfPublicKey_new\<lparr>vpk_point := Some pub_point\<rparr>)))"

definition VoprfPrivateKey_is_valid :: "VoprfPrivateKey \<Rightarrow> bool" where
  "VoprfPrivateKey_is_valid key \<longleftrightarrow> vsk_scalar key \<noteq> None"

subsection \<open>The client\<close>

definition VoprfClient_blind ::
  "('m, 'd, 'r, 'p, 'k, 'b, 't, 'z) ossl_scheme \<Rightarrow> bytes \<Rightarrow> ('r, VoprfFinalizationData) proc" where
  "VoprfClient_blind L input =
     (if \<not> EC_GROUP_new_by_curve_name L then liftM (Err CRYPTO_ERROR ''Failed to get curve group'')
      else
        tryM (liftM (hash_to_curve L input)) (\<lambda>h.
          case EC_GROUP_get_order L of (ok, order) \<Rightarrow>
            if \<not> BN_CTX_new L \<or> \<not> BN_new L \<or> ok \<noteq> 1 then
              liftM (Err CRYPTO_ERROR ''Failed to get group order'')
            else
              drawM (\<lambda>rng.
                case BN_rand_range L rng order of ((ok, r), rng') \<Rightarrow>
                  (if ok = 0 \<or> BN_is_zero L r then
                     Err BLINDING_FAILED ''Failed to generate blinding scalar''
                   else
                     (case EC_POINT_mul L None (Some (h, r)) of (ok, R) \<Rightarrow>
                        if \<not> EC_POINT_new L \<or> ok \<noteq> 1 then
                          Err BLINDING_FAILED ''Failed to compute blinded element''
                        else
                          try_bind (point_to_bytes L R) (\<lambda>blinded_bytes.
                            Ok \<lparr>vfd_blind_scalar = snd (BN_bn2binpad L r P384_SCALAR_SIZE),
                                vfd_blinded_element = blinded_bytes, vfd_input = input\<rparr>)), rng'))))"

definition VoprfClient_finalize ::
  "('m, 'd, 'r, 'p, 'k, 'b, 't, 'z) ossl_scheme \<Rightarrow> 't VoprfPublicKey \<Rightarrow> VoprfFinalizationData
     \<Rightarrow> VoprfEvaluation \<Rightarrow> bytes result" where
  "VoprfClient_finalize L public_key fin evaluation =
     (if \<not> EC_GROUP_new_by_curve_name L then Err CRYPTO_ERROR ''Failed to get curve group''
      else if INT_MAX < length (ve_evaluated_element evaluation)
              \<or> length (ve_proof evaluation) \<noteq> P384_PROOF_SIZE
              \<or> INT_MAX < length (vfd_blind_scalar fin)
              \<or> INT_MAX < length (vfd_blinded_element fin) then
        Err CRYPTO_ERROR ''Invalid input sizes''
      else
        (case bytes_to_point L (ve_evaluated_element evaluation) of
           None \<Rightarrow> Err UNBLINDING_FAILED ''Invalid evaluated element''
         | Some Z \<Rightarrow>
             (case bytes_to_point L (vfd_blinded_element fin) of
                None \<Rightarrow> Err UNBLINDING_FAILED ''Invalid blinded element''
              | Some R \<Rightarrow>
                  if \<not> BN_CTX_new L then Err CRYPTO_ERROR ''Failed to create context''
                  else
                    try_bind (VoprfPublicKey_to_bytes L public_key) (\<lambda>pub_bytes.
                      case bytes_to_point L pub_bytes of
                        None \<Rightarrow> Err CRYPTO_ERROR ''Failed to parse public key''
                      | Some Y \<Rightarrow>
                          try_bind (verify_dleq_proof L Y R Z (ve_proof evaluation)) (\<lambda>valid.
                            if \<not> valid then
                              Err VERIFICATION_FAILED
                                ''DLEQ proof verification failed - evaluation may be malicious''
                            else
                              (case EC_GROUP_get_order L of (ok, order) \<Rightarrow>
                                 if \<not> BN_new L \<or> ok \<noteq> 1 then Err CRYPTO_ERROR ''Failed to get group order''
                                 else
                                   (case BN_mod_inverse L (the (BN_bin2bn L (vfd_blind_scalar fin))) order of
                                      None \<Rightarrow> Err UNBLINDING_FAILED ''Failed to compute inverse''
                                    | Some r_inv \<Rightarrow>
                                        (case EC_POINT_mul L None (Some (Z, r_inv)) of (ok, N) \<Rightarrow>
                                           if \<not> EC_POINT_new L \<or> ok \<noteq> 1 then
                                             Err UNBLINDING_FAILED ''Failed to unblind''
                                           else
                                             try_bind (point_to_bytes L N) (\<lambda>output_point.
                                               finalize_output L (vfd_input fin) output_point)))))))))"

subsection \<open>The server\<close>

definition VoprfServer_blind_evaluate ::
  "('m, 'd, 'r, 'p, 'k, 'b, 't, 'z) ossl_scheme \<Rightarrow> VoprfPrivateKey \<Rightarrow> bytes \<Rightarrow> ('r, VoprfEvaluation) proc" where
  "VoprfServer_blind_evaluate L private_key blinded_element =
     (if \<not> EC_GROUP_new_by_curve_name L then liftM (Err CRYPTO_ERROR ''Failed to get curve group'')
      else if INT_MAX < length blinded_element then liftM (Err CRYPTO_ERROR ''Blinded element too large'')
      else
        (case bytes_to_point L blinded_element of
           None \<Rightarrow> liftM (Err CRYPTO_ERROR ''Invalid blinded element'')
         | Some R \<Rightarrow>
             if \<not> BN_CTX_new L then liftM (Err CRYPTO_ERROR ''Failed to create context'')
             else
               tryM (liftM (VoprfPrivateKey_to_bytes L private_key)) (\<lambda>scalar_bytes.
                 let k = the (BN_bin2bn L scalar_bytes)
                 in case EC_POINT_mul L None (Some (R, k)) of (ok, Z) \<Rightarrow>
                      if \<not> EC_POINT_new L \<or> ok \<noteq> 1 then liftM (Err CRYPTO_ERROR ''Evaluation failed'')
                      else
                        tryM (liftM (VoprfPrivateKey_public_key L private_key)) (\<lambda>pub_key.
                        tryM (liftM (VoprfPublicKey_to_bytes L pub_key)) (\<lambda>pub_bytes.
                          case bytes_to_point L pub_bytes of
                            None \<Rightarrow> liftM (Err CRYPTO_ERROR ''Failed to get public key point'')
                          | Some Y \<Rightarrow>
                              tryM (generate_dleq_proof L k Y R Z) (\<lambda>proof_bytes.
                              tryM (liftM (point_to_bytes L Z)) (\<lambda>z_bytes.
                                liftM (Ok \<lparr>ve_evaluated_element = z_bytes, ve_proof = proof_bytes\<rparr>))))))))"

definition VoprfServer_verify_finalize ::
  "('m, 'd, 'r, 'p, 'k, 'b, 't, 'z) ossl_scheme \<Rightarrow> VoprfPrivateKey \<Rightarrow> bytes \<Rightarrow> bytes \<Rightarrow> bool result" where
  "VoprfServer_verify_finalize L private_key input finalized =
     (if \<not> EC_GROUP_new_by_curve_name L then Err CRYPTO_ERROR ''Failed to get curve group''
      else if INT_MAX < length input then Err CRYPTO_ERROR ''Input too large''
      else
        try_bind (hash_to_curve L input) (\<lambda>h.
          if \<not> BN_CTX_new L then Err CRYPTO_ERROR ''Failed to create context''
          else
            try_bind (VoprfPrivateKey_to_bytes L private_key) (\<lambda>scalar_bytes.
              let k = the (BN_bin2bn L scalar_bytes)
              in case EC_POINT_mul L None (Some (h, k)) of (ok, expected) \<Rightarrow>
                   if \<not> EC_POINT_new L \<or> ok \<noteq> 1 then
                     Err VERIFICATION_FAILED ''Failed to compute expected output''
                   else
                     try_bind (point_to_bytes L expected) (\<lambda>expected_bytes.
                     try_bind (finalize_output L input expected_bytes) (\<lambda>expected_hash.
                       Ok (constant_time_compare L finalized expected_hash))))))"

definition VoprfServer_public_key ::
  "('m, 'd, 'r, 'p, 'k, 'b, 't, 'z) ossl_scheme \<Rightarrow> VoprfPrivateKey \<Rightarrow> 't VoprfPublicKey result" where
  "VoprfServer_public_key L private_key = VoprfPrivateKey_public_key L private_key"

subsection \<open>Keys round-trip\<close>

lemma scalar_round_trip:
  assumes doc: "ec_documented L q pt" and k: "0 < k" "k < q"
  shows "VoprfPrivateKey_to_bytes L \<lparr>vsk_scalar = Some k\<rparr> = Ok (be_bytes 48 k)"
    "VoprfPrivateKey_from_bytes L (be_bytes 48 k) = Ok \<lparr>vsk_scalar = Some k\<rparr>"
proof -
  note bn = ec_doc_bn [OF doc] and gr = group_doc [OF doc]
  have fits: "k < 256 ^ 48" using k gr(5) by linarith
  show "VoprfPrivateKey_to_bytes L \<lparr>vsk_scalar = Some k\<rparr> = Ok (be_bytes 48 k)"
    by (simp add: VoprfPrivateKey_to_bytes_def P384_SCALAR_SIZE_def bn_doc_binpad [OF bn fits])
  show "VoprfPrivateKey_from_bytes L (be_bytes 48 k) = Ok \<lparr>vsk_scalar = Some k\<rparr>"
    using k by (simp add: VoprfPrivateKey_from_bytes_def P384_SCALAR_SIZE_def gr(1,3) bn_doc_bin2bn [OF bn]
      bn_doc_alloc [OF bn] bn_doc_tests [OF bn] be_val_be_bytes [OF fits])
qed

lemma VoprfPublicKey_from_bytes_iff:
  assumes "ec_documented L q pt"
  shows "VoprfPublicKey_from_bytes L bs = Ok key \<longleftrightarrow>
    (\<exists>a. a mod q \<noteq> 0 \<and> key = VoprfPublicKey_new\<lparr>vpk_point := Some (pt a)\<rparr>
      \<and> VoprfPublicKey_to_bytes L key = Ok bs)"
proof
  assume "VoprfPublicKey_from_bytes L bs = Ok key"
  then obtain p where "bytes_to_point L bs = Some p" "key = VoprfPublicKey_new\<lparr>vpk_point := Some p\<rparr>"
    by (auto simp: VoprfPublicKey_from_bytes_def split: if_splits option.splits)
  with bytes_to_point_Some [OF assms] obtain a where
    "a mod q \<noteq> 0" "bs = enc L (pt a)" "key = VoprfPublicKey_new\<lparr>vpk_point := Some (pt a)\<rparr>" by blast
  then show "\<exists>a. a mod q \<noteq> 0 \<and> key = VoprfPublicKey_new\<lparr>vpk_point := Some (pt a)\<rparr>
      \<and> VoprfPublicKey_to_bytes L key = Ok bs"
    using group_doc(1) [OF assms] point_to_bytes_doc [OF assms]
    by (auto simp: VoprfPublicKey_to_bytes_def intro!: exI [of _ a])
next
  assume "\<exists>a. a mod q \<noteq> 0 \<and> key = VoprfPublicKey_new\<lparr>vpk_point := Some (pt a)\<rparr>
      \<and> VoprfPublicKey_to_bytes L key = Ok bs"
  then show "VoprfPublicKey_from_bytes L bs = Ok key"
    using group_doc(1) [OF assms] point_to_bytes_doc [OF assms] bytes_to_point_enc [OF assms]
    by (auto simp: VoprfPublicKey_to_bytes_def VoprfPublicKey_from_bytes_def)
qed

subsection \<open>Completeness of the protocol\<close>

lemma blind_scalar_nonzero:
  assumes doc: "ec_documented L q pt" and "VoprfClient_blind L input rng = Some (Ok fin, rng')"
  shows "\<exists>a r. hash_to_curve L input = Ok (pt a) \<and> 0 < r \<and> r < q
    \<and> fin = \<lparr>vfd_blind_scalar = be_bytes 48 r, vfd_blinded_element = enc L (pt (a * r)), vfd_input = input\<rparr>"
proof -
  note bn = ec_doc_bn [OF doc] and gr = group_doc [OF doc]
  have q: "0 < q" using gr(4) by simp
  obtain h where h: "hash_to_curve L input = Ok h"
    using assms(2) gr(1) by (cases "hash_to_curve L input") (auto simp: VoprfClient_blind_def)
  then obtain a where a: "h = pt a" using hash_to_curve_pt [OF doc] by blast
  obtain ok r rng1 where draw: "BN_rand_range L rng q = ((ok, r), rng1)" by (metis prod.collapse)
  have r: "0 < r" and fin: "fin = \<lparr>vfd_blind_scalar = snd (BN_bn2binpad L r 48),
      vfd_blinded_element = enc L (pt (a * r)), vfd_input = input\<rparr>"
    using assms(2) gr(1,2,3) bn_doc_alloc [OF bn]
    by (auto simp: VoprfClient_blind_def h a draw P384_SCALAR_SIZE_def bn_doc_tests [OF bn] gr(10)
        point_to_bytes_doc [OF doc] split: if_splits)
  have "r < q" by (rule bn_doc_rand [OF bn q draw])
  then have "r < 256 ^ 48" using gr(5) by linarith
  then show ?thesis using h a r fin \<open>r < q\<close> by (auto simp: bn_doc_binpad [OF bn])
qed

lemma blind_evaluate_Ok:
  assumes doc: "ec_documented L q pt" and k: "0 < k" "k < q"
    and eval: "VoprfServer_blind_evaluate L \<lparr>vsk_scalar = Some k\<rparr> (enc L (pt b)) rng = Some (Ok ev, rng')"
  shows "b mod q \<noteq> 0 \<and> ve_evaluated_element ev = enc L (pt (b * k)) \<and> length (ve_proof ev) = P384_PROOF_SIZE
    \<and> verify_dleq_proof L (pt k) (pt b) (pt (b * k)) (ve_proof ev) = Ok True"
proof -
  note bn = ec_doc_bn [OF doc] and gr = group_doc [OF doc]
  have fits: "k < 256 ^ 48" and km: "k mod q \<noteq> 0" using k gr(5) by simp_all
  obtain R where R: "bytes_to_point L (enc L (pt b)) = Some R"
    using eval gr(1) by (cases "bytes_to_point L (enc L (pt b))")
      (auto simp: VoprfServer_blind_evaluate_def split: if_splits)
  then obtain c where c: "R = pt c" "c mod q \<noteq> 0" "enc L (pt b) = enc L (pt c)"
    using bytes_to_point_Some [OF doc R] by blast
  have b: "b mod q \<noteq> 0"
  proof
    assume "b mod q = 0"
    then have "length (enc L (pt c)) = 1" using enc_doc(5) [OF doc, of b] c(3) by simp
    then show False using enc_doc(5) [OF doc, of c] c(2) by simp
  qed
  have Rb: "R = pt b" using R bytes_to_point_enc [OF doc b] by simp
  obtain pi rng1 where gen: "generate_dleq_proof L k (pt k) (pt b) (pt (b * k)) rng = Some (Ok pi, rng1)"
    and ev: "ev = \<lparr>ve_evaluated_element = enc L (pt (b * k)), ve_proof = pi\<rparr>"
    using eval gr(1,2) bn_doc_alloc [OF bn]
    by (auto simp: VoprfServer_blind_evaluate_def R Rb Let_def tryM_Some_Ok_iff scalar_round_trip [OF doc k]
        bn_doc_bin2bn [OF bn] be_val_be_bytes [OF fits] gr(9,10) VoprfPrivateKey_public_key_def
        VoprfPublicKey_to_bytes_def point_to_bytes_doc [OF doc] bytes_to_point_enc [OF doc km]
        simp del: tryM_liftM split: if_splits)
  show ?thesis using dleq_complete [OF doc gen] b by (simp add: ev)
qed

theorem voprf_complete:
  assumes doc: "ec_documented L q pt" and evp: "evp_documented L H"
    and k: "0 < k" "k < q" and pub: "vpk_point public_key = Some (pt k)"
    and len: "length input \<le> 0xFFFF"
    and blind: "VoprfClient_blind L input rng = Some (Ok fin, rng1)"
    and eval: "VoprfServer_blind_evaluate L \<lparr>vsk_scalar = Some k\<rparr> (vfd_blinded_element fin) rng2
      = Some (Ok ev, rng3)"
  shows "\<exists>out. VoprfClient_finalize L public_key fin ev = Ok out
    \<and> VoprfServer_verify_finalize L \<lparr>vsk_scalar = Some k\<rparr> input out = Ok True \<and> length out = 48"
proof -
  note bn = ec_doc_bn [OF doc] and gr = group_doc [OF doc]
  have kfits: "k < 256 ^ 48" and km: "k mod q \<noteq> 0" using k gr(5) by simp_all
  obtain a r where h: "hash_to_curve L input = Ok (pt a)" and r: "0 < r" "r < q"
    and fin: "fin = \<lparr>vfd_blind_scalar = be_bytes 48 r, vfd_blinded_element = enc L (pt (a * r)), vfd_input = input\<rparr>"
    using blind_scalar_nonzero [OF doc blind] by blast
  have rfits: "r < 256 ^ 48" and rm: "r mod q \<noteq> 0" using r gr(5) by simp_all
  have "VoprfServer_blind_evaluate L \<lparr>vsk_scalar = Some k\<rparr> (enc L (pt (a * r))) rng2 = Some (Ok ev, rng3)"
    using eval by (simp add: fin)
  from blind_evaluate_Ok [OF doc k this] have b: "(a * r) mod q \<noteq> 0"
    and z: "ve_evaluated_element ev = enc L (pt (a * r * k))"
    and lp: "length (ve_proof ev) = P384_PROOF_SIZE"
    and ver: "verify_dleq_proof L (pt k) (pt (a * r)) (pt (a * r * k)) (ve_proof ev) = Ok True" by auto
  have zm: "(a * r * k) mod q \<noteq> 0" by (rule product_nonzero [OF doc b km])
  obtain ri where ri: "BN_mod_inverse L r q = Some ri"
    using bn_doc_inverse(2) [OF bn gr(4) gr(6) [OF rm]] by blast
  have one: "(r * ri) mod q = 1 mod q" using bn_doc_inverse(1) [OF bn ri] by simp
  have "(a * r * k * ri) mod q = (a * k * (r * ri)) mod q" by (simp only: ac_simps)
  also have "\<dots> = (a * k * ((r * ri) mod q)) mod q" by (simp only: mod_mult_right_eq)
  also have "\<dots> = (a * k) mod q" by (simp only: one mod_mult_right_eq mult_1_right)
  finally have N: "pt (a * r * k * ri) = pt (a * k)" by (simp add: gr(7))
  have le: "length (enc L (pt c)) \<le> 49" for c by (simp add: enc_doc(5) [OF doc])
  have small: "\<not> 65535 < length (enc L (pt (a * k)))" "\<not> 2147483647 < length (enc L (pt c))" for c
    using le [of "a * k"] le [of c] by simp_all
  define out where "out = H EVP_sha384 (append_u16_len_prefixed (append_u16_len_prefixed [] input)
    (enc L (pt (a * k))) @ DST_FINALIZE)"
  have fo: "finalize_output L input (enc L (pt (a * k))) = Ok out"
    using len small(1) by (simp add: finalize_output_def sha384_documented [OF evp] out_def Let_def)
  have "VoprfClient_finalize L public_key fin ev = Ok out"
    using bn_doc_alloc [OF bn] gr(1-3)
    by (simp add: VoprfClient_finalize_def z lp small(2) fin INT_MAX_def bytes_to_point_enc [OF doc zm]
        bytes_to_point_enc [OF doc b] VoprfPublicKey_to_bytes_def pub point_to_bytes_doc [OF doc]
        bytes_to_point_enc [OF doc km] ver bn_doc_bin2bn [OF bn] be_val_be_bytes [OF rfits] ri gr(10) N fo)
  moreover have "VoprfServer_verify_finalize L \<lparr>vsk_scalar = Some k\<rparr> input out = Ok True"
    using bn_doc_alloc [OF bn] gr(1-2) len
    by (simp add: VoprfServer_verify_finalize_def INT_MAX_def h scalar_round_trip [OF doc k] Let_def
        bn_doc_bin2bn [OF bn] be_val_be_bytes [OF kfits] gr(10) point_to_bytes_doc [OF doc] fo
        compare_doc [OF doc])
  moreover have "length out = 48" using documented_len [OF evp, of EVP_sha384] by (simp add: out_def)
  ultimately show ?thesis by blast
qed

end
