(* ===== verification/PP_Field.thy ===== *)
theory PP_Field
  imports Main
begin

text \<open>
  The integers modulo a prime: Fermat's theorem, Euler's criterion and the square roots that
  a power gives when the prime is 3 modulo 4. The proofs about hashing to the curve and the
  sample RSA key use them.
\<close>

definition prime_modulus :: "nat \<Rightarrow> bool" where
  "prime_modulus p \<longleftrightarrow> 1 < p \<and> (\<forall>k. 0 < k \<longrightarrow> k < p \<longrightarrow> coprime p k)"

lemma prime_modulus_gt: "prime_modulus p \<Longrightarrow> 1 < p"
  by (simp add: prime_modulus_def)

lemma prime_modulus_coprime: "prime_modulus p \<Longrightarrow> 0 < k \<Longrightarrow> k < p \<Longrightarrow> coprime p k"
  by (simp add: prime_modulus_def)

lemma prime_modulus_unit: "prime_modulus p \<Longrightarrow> k mod p \<noteq> 0 \<Longrightarrow> coprime k p"
  using prime_modulus_coprime [of p "k mod p"] prime_modulus_gt [of p]
  by (metis bot_nat_0.not_eq_extremum coprime_commute coprime_mod_right_iff mod_less_divisor zero_less_one order_less_trans less_numeral_extra(3))

lemma nonzero_mult: "prime_modulus p \<Longrightarrow> a mod p \<noteq> 0 \<Longrightarrow> b mod p \<noteq> 0 \<Longrightarrow> (a * b) mod p \<noteq> 0"
  by (metis coprime_dvd_mult_right_iff coprime_commute mod_0_imp_dvd mod_eq_0_iff_dvd prime_modulus_unit)

lemma mod_power_cong: "(a :: nat) mod n = b mod n \<Longrightarrow> (a ^ k) mod n = (b ^ k) mod n"
  by (metis power_mod)

subsection \<open>Fermat's theorem\<close>

lemma choose_divisible:
  assumes "\<And>k. 0 < k \<Longrightarrow> k < p \<Longrightarrow> coprime p k" "0 < k" "k < p"
  shows "(p :: nat) dvd p choose k"
proof -
  have "p dvd k * (p choose k)" using times_binomial_minus1_eq [OF assms(2), of p] by simp
  then show ?thesis using coprime_dvd_mult_right_iff assms by blast
qed

lemma fermat:
  assumes prime: "prime_modulus p"
  shows "a ^ p mod p = a mod p"
proof (induction a)
  case (Suc a)
  note co = prime_modulus_coprime [OF prime] and p = prime_modulus_gt [OF prime]
  have "(a + 1) ^ p = (\<Sum>k\<le>p. (p choose k) * a ^ k)"
    using binomial [of a 1 p] by simp
  also have "{..p} = insert 0 (insert p {1..<p})" using p by auto
  also have "(\<Sum>k \<in> insert 0 (insert p {1..<p}). (p choose k) * a ^ k)
      = 1 + (a ^ p + (\<Sum>k = 1..<p. (p choose k) * a ^ k))" using p by simp
  finally have eq: "Suc a ^ p = 1 + (a ^ p + (\<Sum>k = 1..<p. (p choose k) * a ^ k))" by simp
  have "p dvd (\<Sum>k = 1..<p. (p choose k) * a ^ k)"
    using choose_divisible [OF co] by (intro dvd_sum) simp
  then have "Suc a ^ p mod p = (1 + a ^ p) mod p" unfolding eq by (auto elim!: dvdE simp: add.assoc [symmetric])
  also have "\<dots> = (1 + a) mod p" using Suc by (metis mod_add_right_eq)
  finally show ?case by simp
qed (use prime_modulus_gt [OF prime] in \<open>simp add: power_0_left\<close>)

lemma fermat_step:
  assumes prime: "prime_modulus p"
  shows "a ^ Suc (c * (p - 1)) mod p = a mod p"
proof (induction c)
  case (Suc c)
  have "a ^ Suc (Suc c * (p - 1)) = a ^ (Suc (c * (p - 1)) + (p - 1))" by (simp add: add.commute)
  also have "\<dots> = a ^ Suc (c * (p - 1)) * a ^ (p - 1)" by (rule power_add)
  finally have eq: "a ^ Suc (Suc c * (p - 1)) = a ^ Suc (c * (p - 1)) * a ^ (p - 1)" .
  have "a ^ Suc (Suc c * (p - 1)) mod p = (a * a ^ (p - 1)) mod p"
    unfolding eq by (rule mod_mult_cong [OF Suc refl])
  also have "a * a ^ (p - 1) = a ^ p" using prime_modulus_gt [OF prime] by (simp flip: power_Suc)
  finally show ?case using fermat [OF prime] by simp
qed simp

subsection \<open>Euler's criterion\<close>

lemma fermat_unit:
  assumes "prime_modulus p" "a mod p \<noteq> 0"
  shows "a ^ (p - 1) mod p = 1"
proof -
  note p = prime_modulus_gt [OF assms(1)]
  have "a * a ^ (p - 1) = a ^ p" using p by (simp flip: power_Suc)
  then have "(a * a ^ (p - 1)) mod p = (a * 1) mod p" using fermat [OF assms(1), of a] by simp
  then have "int (a * a ^ (p - 1)) mod int p = int (a * 1) mod int p" by (simp only: flip: zmod_int)
  then have "int p dvd int a * (int (a ^ (p - 1)) - 1)"
    by (simp add: mod_eq_dvd_iff right_diff_distrib)
  moreover have "coprime (int p) (int a)" using prime_modulus_unit [OF assms] by (simp add: coprime_commute)
  ultimately have "int p dvd int (a ^ (p - 1)) - 1" by (simp add: coprime_dvd_mult_right_iff)
  then have "int (a ^ (p - 1)) mod int p = 1 mod int p" by (simp add: mod_eq_dvd_iff)
  then have "int (a ^ (p - 1) mod p) = int (1 mod p)" by (simp only: zmod_int of_nat_1)
  then have "a ^ (p - 1) mod p = 1 mod p" by (simp only: of_nat_eq_iff)
  then show ?thesis using p by simp
qed

definition euler :: "nat \<Rightarrow> nat \<Rightarrow> nat" where
  "euler p a = a ^ ((p - 1) div 2) mod p"

lemma euler_cong: "a mod p = b mod p \<Longrightarrow> euler p a = euler p b"
  unfolding euler_def by (rule mod_power_cong)

lemma euler_mult: "euler p (a * b) = (euler p a * euler p b) mod p"
  by (simp add: euler_def power_mult_distrib mod_mult_eq)

lemma euler_cases:
  assumes "prime_modulus p" "odd p" "a mod p \<noteq> 0"
  shows "euler p a = 1 \<or> euler p a = p - 1"
proof -
  note p = prime_modulus_gt [OF assms(1)]
  define s where "s = euler p a"
  have sp: "s < p" using p by (simp add: s_def euler_def)
  have "s ^ 2 mod p = (a ^ ((p - 1) div 2)) ^ 2 mod p" by (simp add: s_def euler_def power_mod)
  also have "\<dots> = a ^ (p - 1) mod p" using assms(2) p by (simp flip: power_mult)
  also have "\<dots> = 1 mod p" using fermat_unit [OF assms(1,3)] p by simp
  finally have "int (s ^ 2) mod int p = int 1 mod int p" by (simp only: flip: zmod_int)
  then have "int p dvd int (s ^ 2) - 1" by (simp add: mod_eq_dvd_iff)
  moreover have "int (s ^ 2) - 1 = (int s - 1) * (int s + 1)" by (simp add: power2_eq_square algebra_simps)
  ultimately have dvd: "int p dvd (int s - 1) * (int s + 1)" by simp
  have "s = 1 \<or> s = p - 1"
  proof (rule ccontr)
    assume ne: "\<not> (s = 1 \<or> s = p - 1)"
    have "coprime p (s + 1)" by (rule prime_modulus_coprime [OF assms(1)]) (use ne sp p in arith)+
    then have "coprime (int p) (int s + 1)" by (metis coprime_int_iff of_nat_1 of_nat_add)
    then have "int p dvd int s - 1" using dvd by (simp add: coprime_dvd_mult_left_iff)
    then have "int s mod int p = 1 mod int p" by (simp add: mod_eq_dvd_iff)
    then show False using ne sp p by simp
  qed
  then show ?thesis by (simp add: s_def)
qed

lemma square_root_power:
  assumes "p mod 4 = 3" "euler p a = 1 \<or> a mod p = 0"
  shows "((a ^ ((p + 1) div 4)) mod p) ^ 2 mod p = a mod p"
proof -
  have "p = 4 * (p div 4) + 3" using mult_div_mod_eq [of 4 p] assms(1) by simp
  then obtain k where k: "p = 4 * k + 3" by blast
  have "((a ^ ((p + 1) div 4)) mod p) ^ 2 mod p = (a ^ ((p + 1) div 4)) ^ 2 mod p" by (simp add: power_mod)
  also have "(a ^ ((p + 1) div 4)) ^ 2 = a ^ ((p + 1) div 4 * 2)" by (rule power_mult [symmetric])
  also have "(p + 1) div 4 * 2 = Suc ((p - 1) div 2)" by (simp add: k)
  also have "a ^ Suc ((p - 1) div 2) = a * a ^ ((p - 1) div 2)" by (rule power_Suc)
  also have "(a * a ^ ((p - 1) div 2)) mod p = a mod p"
    using assms(2)
  proof
    assume "euler p a = 1"
    moreover have "1 mod p = 1" using k by (intro mod_less) linarith
    ultimately have "a ^ ((p - 1) div 2) mod p = 1 mod p" by (simp only: euler_def)
    from mod_mult_cong [OF refl this, of a] show ?thesis by (simp only: mult_1_right)
  next
    assume "a mod p = 0"
    then have "p dvd a" by (rule mod_0_imp_dvd)
    then show ?thesis by (simp add: dvd_imp_mod_0)
  qed
  finally show ?thesis .
qed

end
