(* ===== verification/PP_Blind_Rsa.thy ===== *)
theory PP_Blind_Rsa
  imports PP_Ossl PP_Field
begin

text \<open>
  Blind RSA signatures: src/crypto/blind_rsa.cpp and the RSA functions of
  src/crypto/compat.hpp it calls (the branch for OpenSSL 3). A key is the OpenSSL object,
  absent until it was set, with the key-id cache of the C++ class; \<open>key_id\<close> returns the key
  with its cache filled. The rejection loop of \<open>blind\<close> may run forever, which is the
  value \<open>None\<close>. The last sections state what OpenSSL documents of an RSASSA-PSS key pair
  and prove that a blinded, signed and unblinded message verifies.
\<close>

subsection \<open>Keys and their encodings\<close>

definition RSA_BITS :: int where "RSA_BITS = 2048"
definition SALT_LENGTH :: int where "SALT_LENGTH = 48"
definition RSA_MODULUS_SIZE :: int where "RSA_MODULUS_SIZE = 256"
definition RSA_PUBLIC_EXPONENT :: nat where "RSA_PUBLIC_EXPONENT = 65537"

definition sanitized_error :: string where
  "sanitized_error = ''Cryptographic operation failed''"

record BlindingData =
  bd_inverse :: bytes
  bd_blinded_msg :: bytes

record 'pkey BlindRsaPublicKey =
  bpk_pkey :: "'pkey option"
  bpk_original_spki :: bytes
  bpk_cached_key_id :: TokenKeyId
  bpk_key_id_computed :: bool

record 'pkey BlindRsaPrivateKey =
  bsk_pkey :: "'pkey option"

definition BlindRsaPublicKey_new :: "'p BlindRsaPublicKey" where
  "BlindRsaPublicKey_new =
     \<lparr>bpk_pkey = None, bpk_original_spki = [], bpk_cached_key_id = replicate 32 0,
      bpk_key_id_computed = False\<rparr>"

definition digest_ok :: "('m, 'd, 'r, 'p, 'k, 'b, 'z) rsa_api_scheme \<Rightarrow> digest_param \<Rightarrow> 'p \<Rightarrow> bool" where
  "digest_ok L param pkey \<longleftrightarrow>
     (case EVP_PKEY_get_utf8_string_param L pkey param of (r, sv) \<Rightarrow>
        r = 1 \<and> (sv = ''SHA384'' \<or> sv = ''SHA-384'' \<or> sv = ''SHA2-384''))"

definition validate_rsa_params ::
  "('m, 'd, 'r, 'p, 'k, 'b, 'z) rsa_api_scheme \<Rightarrow> 'p \<Rightarrow> int \<Rightarrow> nat \<Rightarrow> unit result" where
  "validate_rsa_params L pkey expected_bits expected_e =
     (if EVP_PKEY_base_id L pkey \<noteq> EVP_PKEY_RSA_PSS L then Err INVALID_KEY ''Not an RSASSA-PSS key''
      else
        (let (rn, n) = EVP_PKEY_get_bn_param L pkey PARAM_RSA_N;
             (re, e) = EVP_PKEY_get_bn_param L pkey PARAM_RSA_E
         in if rn \<noteq> 1 \<or> re \<noteq> 1 then Err INVALID_KEY ''Missing RSA key parameters''
            else if BN_num_bits L n \<noteq> expected_bits \<or> \<not> BN_is_word L e expected_e then
              Err INVALID_KEY ''RSA key must be RSA-2048 with exponent 65537''
            else
              (let (rs, salt_len) = EVP_PKEY_get_saltlen_param L pkey
               in if rs \<noteq> 1 \<or> salt_len \<noteq> 48 then
                    Err INVALID_KEY ''RSASSA-PSS key must use 48-byte salt''
                  else if \<not> digest_ok L PARAM_RSA_DIGEST pkey \<or> \<not> digest_ok L PARAM_RSA_MGF1_DIGEST pkey then
                    Err INVALID_KEY ''RSASSA-PSS key must use SHA-384 and MGF1-SHA-384''
                  else Ok ())))"

definition emsa_pss_encode ::
  "('m, 'd, 'r, 'p, 'k, 'b, 'z) rsa_api_scheme \<Rightarrow> 'p \<Rightarrow> bytes \<Rightarrow> int \<Rightarrow> ('r, bytes) proc" where
  "emsa_pss_encode L pkey msg_hash salt_len =
     (if \<not> EVP_PKEY_get1_RSA L pkey then liftM (Err INVALID_KEY ''Failed to get RSA key'')
      else drawM (\<lambda>rng.
        case RSA_padding_add_PKCS1_PSS_mgf1 L rng pkey msg_hash EVP_sha384 EVP_sha384 salt_len of
          ((r, encoded), rng') \<Rightarrow>
            (if r \<noteq> 1 then Err CRYPTO_ERROR sanitized_error else Ok encoded, rng')))"

definition parse_public_key_spki ::
  "('m, 'd, 'r, 'p, 'k, 'b, 'z) rsa_api_scheme \<Rightarrow> bytes \<Rightarrow> 'p option" where
  "parse_public_key_spki L spki = d2i_PUBKEY L spki"

definition parse_private_key_der ::
  "('m, 'd, 'r, 'p, 'k, 'b, 'z) rsa_api_scheme \<Rightarrow> bytes \<Rightarrow> 'p option" where
  "parse_private_key_der L der = d2i_AutoPrivateKey L der"

definition marshal_public_key ::
  "('m, 'd, 'r, 'p, 'k, 'b, 'z) rsa_api_scheme \<Rightarrow> 'p \<Rightarrow> bytes result" where
  "marshal_public_key L pkey =
     (let len = i2d_PUBKEY_size L pkey
      in if len \<le> 0 then Err CRYPTO_ERROR ''Failed to compute SPKI size''
         else
           (case i2d_PUBKEY L pkey of (r, out) \<Rightarrow>
              if r \<noteq> len then Err CRYPTO_ERROR ''Failed to encode SPKI'' else Ok out))"

definition marshal_private_key ::
  "('m, 'd, 'r, 'p, 'k, 'b, 'z) rsa_api_scheme \<Rightarrow> 'p \<Rightarrow> bytes result" where
  "marshal_private_key L pkey =
     (let len = i2d_PrivateKey_size L pkey
      in if len \<le> 0 then Err CRYPTO_ERROR ''Failed to compute PKCS#8 size''
         else
           (case i2d_PrivateKey L pkey of (r, out) \<Rightarrow>
              if r \<noteq> len then Err CRYPTO_ERROR ''Failed to encode PKCS#8'' else Ok out))"

definition rsa_public_key_from_components ::
  "('m, 'd, 'r, 'p, 'k, 'b, 'z) rsa_api_scheme \<Rightarrow> nat \<Rightarrow> nat \<Rightarrow> 'p option" where
  "rsa_public_key_from_components L n e =
     (case OSSL_PARAM_BLD_new L of
        None \<Rightarrow> None
      | Some bld \<Rightarrow>
          (case and_then (OSSL_PARAM_BLD_push_BN L bld PARAM_RSA_N n) (\<lambda>bld.
                and_then (OSSL_PARAM_BLD_push_BN L bld PARAM_RSA_E e) (\<lambda>bld.
                and_then (OSSL_PARAM_BLD_push_utf8_string L bld PARAM_RSA_DIGEST ''SHA384'') (\<lambda>bld.
                and_then (OSSL_PARAM_BLD_push_utf8_string L bld PARAM_RSA_MASKGENFUNC ''MGF1'') (\<lambda>bld.
                and_then (OSSL_PARAM_BLD_push_utf8_string L bld PARAM_RSA_MGF1_DIGEST ''SHA384'') (\<lambda>bld.
                and_then (OSSL_PARAM_BLD_push_saltlen L bld 48) Some))))) of
             None \<Rightarrow> None
           | Some bld \<Rightarrow>
               (case OSSL_PARAM_BLD_to_param L bld of
                  None \<Rightarrow> None
                | Some params \<Rightarrow>
                    (case EVP_PKEY_CTX_new_from_name L ''RSA-PSS'' of
                       None \<Rightarrow> None
                     | Some ctx \<Rightarrow>
                         and_then (EVP_PKEY_fromdata_init L ctx) (\<lambda>ctx.
                         and_then (EVP_PKEY_fromdata L ctx params) (\<lambda>pkey. pkey))))))"

definition generate_rsa_pss_keypair ::
  "('m, 'd, 'r, 'p, 'k, 'b, 'z) rsa_api_scheme \<Rightarrow> int \<Rightarrow> int \<Rightarrow> 'r \<Rightarrow> 'p option \<times> 'r" where
  "generate_rsa_pss_keypair L bits salt_len rng =
     (case EVP_PKEY_CTX_new_rsa_pss L of
        None \<Rightarrow> (None, rng)
      | Some ctx \<Rightarrow>
          (case and_then (EVP_PKEY_keygen_init L ctx) (\<lambda>ctx.
                and_then (set_rsa_keygen_bits L ctx bits) (\<lambda>ctx.
                and_then (set_rsa_pss_keygen_md L ctx EVP_sha384) (\<lambda>ctx.
                and_then (set_rsa_pss_keygen_mgf1_md L ctx EVP_sha384) (\<lambda>ctx.
                and_then (set_rsa_pss_keygen_saltlen L ctx salt_len) Some)))) of
             None \<Rightarrow> (None, rng)
           | Some ctx \<Rightarrow>
               (case EVP_PKEY_keygen L rng ctx of ((r, pkey), rng') \<Rightarrow>
                  (if r \<noteq> 1 then None else pkey, rng'))))"

definition rsa_get_bn_param ::
  "('m, 'd, 'r, 'p, 'k, 'b, 'z) rsa_api_scheme \<Rightarrow> 'p \<Rightarrow> rsa_param \<Rightarrow> nat option" where
  "rsa_get_bn_param L pkey name =
     (case EVP_PKEY_get_bn_param L pkey name of (r, raw) \<Rightarrow> if r \<noteq> 1 then None else Some raw)"

definition rsa_get_secure_bn_param ::
  "('m, 'd, 'r, 'p, 'k, 'b, 'z) rsa_api_scheme \<Rightarrow> 'p \<Rightarrow> rsa_param \<Rightarrow> nat option" where
  "rsa_get_secure_bn_param L pkey name =
     (case EVP_PKEY_get_bn_param L pkey name of (r, raw) \<Rightarrow> if r \<noteq> 1 then None else Some raw)"

subsection \<open>The public key\<close>

definition BlindRsaPublicKey_from_spki ::
  "('m, 'd, 'r, 'p, 'k, 'b, 'z) rsa_api_scheme \<Rightarrow> bytes \<Rightarrow> 'p BlindRsaPublicKey result" where
  "BlindRsaPublicKey_from_spki L spki =
     (if INT_MAX < length spki then Err INVALID_KEY ''SPKI data too large''
      else
        (case parse_public_key_spki L spki of
           None \<Rightarrow> Err INVALID_KEY sanitized_error
         | Some pkey \<Rightarrow>
             try_bind (validate_rsa_params L pkey RSA_BITS RSA_PUBLIC_EXPONENT) (\<lambda>_.
               Ok (BlindRsaPublicKey_new\<lparr>bpk_pkey := Some pkey, bpk_original_spki := spki\<rparr>))))"

definition BlindRsaPublicKey_from_components ::
  "('m, 'd, 'r, 'p, 'k, 'b, 'z) rsa_api_scheme \<Rightarrow> bytes \<Rightarrow> bytes \<Rightarrow> 'p BlindRsaPublicKey result" where
  "BlindRsaPublicKey_from_components L modulus exponent =
     (if INT_MAX < length modulus \<or> INT_MAX < length exponent then
        Err INVALID_KEY ''Key component too large''
      else
        (case (BN_bin2bn L modulus, BN_bin2bn L exponent) of
           (Some n, Some e) \<Rightarrow>
             (case rsa_public_key_from_components L n e of
                None \<Rightarrow> Err CRYPTO_ERROR ''Failed to create RSA key''
              | Some pkey \<Rightarrow>
                  try_bind (validate_rsa_params L pkey RSA_BITS RSA_PUBLIC_EXPONENT) (\<lambda>_.
                    Ok (BlindRsaPublicKey_new\<lparr>bpk_pkey := Some pkey\<rparr>)))
         | _ \<Rightarrow> Err INVALID_KEY ''Failed to create bignums''))"

definition BlindRsaPublicKey_to_spki ::
  "('m, 'd, 'r, 'p, 'k, 'b, 'z) rsa_api_scheme \<Rightarrow> 'p BlindRsaPublicKey \<Rightarrow> bytes result" where
  "BlindRsaPublicKey_to_spki L key =
     (case bpk_pkey key of
        None \<Rightarrow> Err INVALID_KEY ''Key not initialized''
      | Some pkey \<Rightarrow> marshal_public_key L pkey)"

definition BlindRsaPublicKey_key_id ::
  "('m, 'd, 'r, 'p, 'k, 'b, 'z) rsa_api_scheme \<Rightarrow> 'p BlindRsaPublicKey
     \<Rightarrow> TokenKeyId result \<times> 'p BlindRsaPublicKey" where
  "BlindRsaPublicKey_key_id L key =
     (if bpk_key_id_computed key then (Ok (bpk_cached_key_id key), key)
      else
        (case (if bpk_original_spki key \<noteq> [] then Ok (bpk_original_spki key)
               else BlindRsaPublicKey_to_spki L key) of
           Inl e \<Rightarrow> (Inl e, key)
         | Inr spki \<Rightarrow>
             (case sha256 L spki of
                Inl e \<Rightarrow> (Inl e, key)
              | Inr hash \<Rightarrow>
                  (Ok hash, key\<lparr>bpk_cached_key_id := hash, bpk_key_id_computed := True\<rparr>))))"

definition BlindRsaPublicKey_is_valid :: "'p BlindRsaPublicKey \<Rightarrow> bool" where
  "BlindRsaPublicKey_is_valid key \<longleftrightarrow> bpk_pkey key \<noteq> None"

definition do_emsa_pss_encode ::
  "('m, 'd, 'r, 'p, 'k, 'b, 'z) rsa_api_scheme \<Rightarrow> 'p \<Rightarrow> bytes \<Rightarrow> ('r, bytes) proc" where
  "do_emsa_pss_encode L pkey msg =
     tryM (liftM (sha384 L msg)) (\<lambda>mHash. emsa_pss_encode L pkey mHash SALT_LENGTH)"

text \<open>The loop that draws the blinding factor and its inverse.\<close>

partial_function (option) blind_factor ::
  "('m, 'd, 'r, 'p, 'k, 'b, 'z) rsa_api_scheme \<Rightarrow> nat \<Rightarrow> ('r, nat \<times> nat) proc" where
  "blind_factor L n rng =
     (case BN_rand_range L rng n of ((ok, r), rng') \<Rightarrow>
        if ok = 0 then Some (Err BLINDING_FAILED ''Failed to generate r'', rng')
        else if BN_is_zero L r then blind_factor L n rng'
        else
          (case BN_mod_inverse L r n of
             None \<Rightarrow> blind_factor L n rng'
           | Some r_inv \<Rightarrow> Some (Ok (r, r_inv), rng')))"

definition BlindRsaPublicKey_blind ::
  "('m, 'd, 'r, 'p, 'k, 'b, 'z) rsa_api_scheme \<Rightarrow> 'p BlindRsaPublicKey \<Rightarrow> bytes \<Rightarrow> ('r, BlindingData) proc" where
  "BlindRsaPublicKey_blind L key msg =
     (case bpk_pkey key of
        None \<Rightarrow> liftM (Err INVALID_KEY ''Key not initialized'')
      | Some pkey \<Rightarrow>
          (case (rsa_get_bn_param L pkey PARAM_RSA_N, rsa_get_bn_param L pkey PARAM_RSA_E) of
             (Some n, Some e) \<Rightarrow>
               (let mod_size = BN_num_bytes L n
                in if mod_size \<noteq> RSA_MODULUS_SIZE then liftM (Err INVALID_KEY ''Unexpected RSA modulus size'')
                   else
                     tryM (do_emsa_pss_encode L pkey msg) (\<lambda>encoded.
                       case BN_bin2bn L encoded of
                         None \<Rightarrow> liftM (Err CRYPTO_ERROR ''Failed to convert message'')
                       | Some m \<Rightarrow>
                           if \<not> BN_CTX_new L \<or> \<not> BN_new L \<or> \<not> BN_MONT_CTX_new L then
                             liftM (Err CRYPTO_ERROR ''Failed to allocate bignums'')
                           else if BN_MONT_CTX_set L n \<noteq> 1 then
                             liftM (Err CRYPTO_ERROR ''Failed to create Montgomery context'')
                           else
                             tryM (blind_factor L n) (\<lambda>(r, r_inv).
                               case BN_mod_exp_mont L r e n of (ok1, x) \<Rightarrow>
                               (case BN_to_montgomery L x n of (ok2, x_mont) \<Rightarrow>
                               (case BN_mod_mul_montgomery L m x_mont n of (ok3, blinded) \<Rightarrow>
                                 if ok1 \<noteq> 1 \<or> ok2 \<noteq> 1 \<or> ok3 \<noteq> 1 then
                                   liftM (Err BLINDING_FAILED ''Failed to blind message'')
                                 else
                                   (case BN_bn2binpad L r_inv (nat mod_size) of (l1, inverse_bytes) \<Rightarrow>
                                   (case BN_bn2binpad L blinded (nat mod_size) of (l2, blinded_bytes) \<Rightarrow>
                                     if l1 \<noteq> mod_size \<or> l2 \<noteq> mod_size then
                                       liftM (Err BLINDING_FAILED ''Failed to serialize'')
                                     else
                                       liftM (Ok \<lparr>bd_inverse = inverse_bytes,
                                                  bd_blinded_msg = blinded_bytes\<rparr>))))))))
           | _ \<Rightarrow> liftM (Err CRYPTO_ERROR ''Failed to get key params'')))"

definition BlindRsaPublicKey_verify ::
  "('m, 'd, 'r, 'p, 'k, 'b, 'z) rsa_api_scheme \<Rightarrow> 'p BlindRsaPublicKey \<Rightarrow> bytes \<Rightarrow> bytes \<Rightarrow> bool result" where
  "BlindRsaPublicKey_verify L key msg signature =
     (case bpk_pkey key of
        None \<Rightarrow> Err INVALID_KEY ''Key not initialized''
      | Some pkey \<Rightarrow>
          (case EVP_MD_CTX_new L of
             None \<Rightarrow> Err CRYPTO_ERROR ''Failed to create context''
           | Some md_ctx \<Rightarrow>
               (case and_then (EVP_DigestVerifyInit L md_ctx EVP_sha384 pkey) (\<lambda>ctx.
                     and_then (set_rsa_padding L ctx RSA_PKCS1_PSS_PADDING) (\<lambda>ctx.
                     and_then (set_rsa_pss_saltlen L ctx SALT_LENGTH) (\<lambda>ctx.
                     and_then (set_rsa_mgf1_md L ctx EVP_sha384) (\<lambda>ctx.
                       Some (EVP_DigestVerify L ctx signature msg))))) of
                  None \<Rightarrow> Err VERIFICATION_FAILED ''Verification setup failed''
                | Some r \<Rightarrow> Ok (r = 1))))"

text \<open>The blinding data is passed by reference: \<open>finalize\<close> returns it as it leaves it.\<close>

definition BlindRsaPublicKey_finalize ::
  "('m, 'd, 'r, 'p, 'k, 'b, 'z) rsa_api_scheme \<Rightarrow> 'p BlindRsaPublicKey \<Rightarrow> bytes \<Rightarrow> BlindingData \<Rightarrow> bytes
     \<Rightarrow> bytes result \<times> BlindingData" where
  "BlindRsaPublicKey_finalize L key blind_sig blinding_data msg =
     (case bpk_pkey key of
        None \<Rightarrow> (Err INVALID_KEY ''Key not initialized'', blinding_data)
      | Some pkey \<Rightarrow>
          if INT_MAX < length blind_sig \<or> INT_MAX < length (bd_inverse blinding_data) then
            (Err CRYPTO_ERROR ''Input too large'', blinding_data)
          else
            (case rsa_get_bn_param L pkey PARAM_RSA_N of
               None \<Rightarrow> (Err CRYPTO_ERROR ''Failed to get modulus'', blinding_data)
             | Some n \<Rightarrow>
                 (let mod_size = BN_num_bytes L n
                  in if mod_size \<noteq> RSA_MODULUS_SIZE then
                       (Err INVALID_KEY ''Unexpected RSA modulus size'', blinding_data)
                     else if length blind_sig \<noteq> nat mod_size
                          \<or> length (bd_inverse blinding_data) \<noteq> nat mod_size then
                       (Err INVALID_LENGTH ''Blind signature and inverse must match modulus length'',
                        blinding_data)
                     else
                       (case (BN_bin2bn L blind_sig, BN_bin2bn L (bd_inverse blinding_data)) of
                          (Some z, Some r_inv) \<Rightarrow>
                            if \<not> BN_CTX_new L \<or> \<not> BN_new L \<or> \<not> BN_MONT_CTX_new L then
                              (Err CRYPTO_ERROR ''Failed to allocate bignums'', blinding_data)
                            else if BN_is_zero L z \<or> 0 \<le> BN_cmp L z n then
                              (Err UNBLINDING_FAILED ''Blind signature out of range'', blinding_data)
                            else
                              (case BN_to_montgomery L r_inv n of (ok1, r_inv_mont) \<Rightarrow>
                              (case BN_mod_mul_montgomery L z r_inv_mont n of (ok2, sig) \<Rightarrow>
                                if BN_MONT_CTX_set L n \<noteq> 1 \<or> ok1 \<noteq> 1 \<or> ok2 \<noteq> 1 then
                                  (Err UNBLINDING_FAILED ''Failed to unblind'', blinding_data)
                                else
                                  (let result = snd (BN_bn2binpad L sig (nat mod_size));
                                       blinding_data = blinding_data\<lparr>bd_inverse := []\<rparr>
                                   in if BlindRsaPublicKey_verify L key msg result \<noteq> Ok True then
                                        (Err VERIFICATION_FAILED
                                           ''Unblinded signature verification failed'', blinding_data)
                                      else (Ok result, blinding_data))))
                        | _ \<Rightarrow> (Err CRYPTO_ERROR ''Failed to allocate bignums'', blinding_data)))))"

subsection \<open>The private key\<close>

definition BlindRsaPrivateKey_public_key ::
  "('m, 'd, 'r, 'p, 'k, 'b, 'z) rsa_api_scheme \<Rightarrow> 'p BlindRsaPrivateKey \<Rightarrow> 'p BlindRsaPublicKey result" where
  "BlindRsaPrivateKey_public_key L key =
     (case bsk_pkey key of
        None \<Rightarrow> Err INVALID_KEY ''Key not initialized''
      | Some pkey \<Rightarrow> try_bind (marshal_public_key L pkey) (BlindRsaPublicKey_from_spki L))"

definition BlindRsaPrivateKey_generate ::
  "('m, 'd, 'r, 'p, 'k, 'b, 'z) rsa_api_scheme
     \<Rightarrow> ('r, 'p BlindRsaPrivateKey \<times> 'p BlindRsaPublicKey) proc" where
  "BlindRsaPrivateKey_generate L =
     drawM (\<lambda>rng.
       case generate_rsa_pss_keypair L RSA_BITS SALT_LENGTH rng of
         (None, rng') \<Rightarrow> (Err CRYPTO_ERROR ''Key generation failed'', rng')
       | (Some pkey, rng') \<Rightarrow>
           (let private_key = \<lparr>bsk_pkey = Some pkey\<rparr>
            in (try_bind (BlindRsaPrivateKey_public_key L private_key) (\<lambda>public_key.
                  Ok (private_key, public_key)), rng')))"

definition BlindRsaPrivateKey_from_pkcs8 ::
  "('m, 'd, 'r, 'p, 'k, 'b, 'z) rsa_api_scheme \<Rightarrow> bytes \<Rightarrow> 'p BlindRsaPrivateKey result" where
  "BlindRsaPrivateKey_from_pkcs8 L pkcs8 =
     (if INT_MAX < length pkcs8 then Err INVALID_KEY ''PKCS#8 data too large''
      else
        (case parse_private_key_der L pkcs8 of
           None \<Rightarrow> Err INVALID_KEY sanitized_error
         | Some pkey \<Rightarrow>
             try_bind (validate_rsa_params L pkey RSA_BITS RSA_PUBLIC_EXPONENT) (\<lambda>_.
               Ok \<lparr>bsk_pkey = Some pkey\<rparr>)))"

definition BlindRsaPrivateKey_to_pkcs8 ::
  "('m, 'd, 'r, 'p, 'k, 'b, 'z) rsa_api_scheme \<Rightarrow> 'p BlindRsaPrivateKey \<Rightarrow> bytes result" where
  "BlindRsaPrivateKey_to_pkcs8 L key =
     (case bsk_pkey key of
        None \<Rightarrow> Err INVALID_KEY ''Key not initialized''
      | Some pkey \<Rightarrow> marshal_private_key L pkey)"

definition BlindRsaPrivateKey_blind_sign ::
  "('m, 'd, 'r, 'p, 'k, 'b, 'z) rsa_api_scheme \<Rightarrow> 'p BlindRsaPrivateKey \<Rightarrow> bytes \<Rightarrow> bytes result" where
  "BlindRsaPrivateKey_blind_sign L key blinded_msg =
     (case bsk_pkey key of
        None \<Rightarrow> Err INVALID_KEY ''Key not initialized''
      | Some pkey \<Rightarrow>
          if INT_MAX < length blinded_msg then Err CRYPTO_ERROR ''Blinded message too large''
          else
            (case (rsa_get_bn_param L pkey PARAM_RSA_N, rsa_get_secure_bn_param L pkey PARAM_RSA_D) of
               (Some n, Some d) \<Rightarrow>
                 (let mod_size = BN_num_bytes L n
                  in if mod_size \<noteq> RSA_MODULUS_SIZE then Err INVALID_KEY ''Unexpected RSA modulus size''
                     else if length blinded_msg \<noteq> nat mod_size then
                       Err INVALID_LENGTH ''Blinded message must match RSA modulus size''
                     else
                       (case BN_bin2bn L blinded_msg of
                          None \<Rightarrow> Err CRYPTO_ERROR ''Failed to allocate bignums''
                        | Some m \<Rightarrow>
                            if \<not> BN_CTX_new L \<or> \<not> BN_MONT_CTX_new L \<or> \<not> BN_new L then
                              Err CRYPTO_ERROR ''Failed to allocate bignums''
                            else if BN_is_zero L m \<or> 0 \<le> BN_cmp L m n then
                              Err INVALID_LENGTH ''Blinded message representative out of range''
                            else if BN_MONT_CTX_set L n \<noteq> 1 then
                              Err CRYPTO_ERROR ''Failed to create Montgomery context''
                            else
                              (case BN_mod_exp_mont_consttime L m d n of (ok, sig) \<Rightarrow>
                                 if ok \<noteq> 1 then Err CRYPTO_ERROR ''Blind sign failed''
                                 else Ok (snd (BN_bn2binpad L sig (nat mod_size))))))
             | _ \<Rightarrow> Err CRYPTO_ERROR ''Failed to get key parameters''))"

definition BlindRsaPrivateKey_sign ::
  "('m, 'd, 'r, 'p, 'k, 'b, 'z) rsa_api_scheme \<Rightarrow> 'p BlindRsaPrivateKey \<Rightarrow> bytes \<Rightarrow> ('r, bytes) proc" where
  "BlindRsaPrivateKey_sign L key msg =
     (case bsk_pkey key of
        None \<Rightarrow> liftM (Err INVALID_KEY ''Key not initialized'')
      | Some pkey \<Rightarrow>
          (case EVP_MD_CTX_new L of
             None \<Rightarrow> liftM (Err CRYPTO_ERROR ''Failed to create context'')
           | Some md_ctx \<Rightarrow>
               (case and_then (EVP_DigestSignInit L md_ctx EVP_sha384 pkey) (\<lambda>ctx.
                     and_then (set_rsa_padding L ctx RSA_PKCS1_PSS_PADDING) (\<lambda>ctx.
                     and_then (set_rsa_pss_saltlen L ctx SALT_LENGTH) (\<lambda>ctx.
                     and_then (set_rsa_mgf1_md L ctx EVP_sha384) (\<lambda>ctx.
                     and_then (EVP_DigestSign_size L ctx msg) (\<lambda>sig_len. Some (ctx, sig_len)))))) of
                  None \<Rightarrow> liftM (Err CRYPTO_ERROR ''Sign failed'')
                | Some (ctx, sig_len) \<Rightarrow>
                    drawM (\<lambda>rng.
                      case EVP_DigestSign L rng ctx msg sig_len of ((r, signature), rng') \<Rightarrow>
                        (if r \<noteq> 1 then Err CRYPTO_ERROR ''Sign failed'' else Ok signature, rng')))))"

definition BlindRsaPrivateKey_is_valid :: "'p BlindRsaPrivateKey \<Rightarrow> bool" where
  "BlindRsaPrivateKey_is_valid key \<longleftrightarrow> bsk_pkey key \<noteq> None"

subsection \<open>The arithmetic of blinding\<close>

text \<open>
  The signature of the blinded message is the signature of the message times the factor,
  so multiplying by the inverse of the factor leaves the signature of the message.
\<close>

lemma unblinded_signature:
  fixes n :: nat
  assumes key: "\<forall>m < n. m ^ (e * d) mod n = m" and inv: "(r * ri) mod n = 1 mod n"
  shows "((((m * r ^ e) ^ d) mod n) * ri) mod n = m ^ d mod n"
proof (cases "n = 0")
  case True
  then show ?thesis using inv by (simp add: mult.assoc flip: power_mult)
next
  case False
  then have "(r mod n) ^ (e * d) mod n = r mod n" using key by simp
  then have r: "r ^ (e * d) mod n = r mod n" by (simp add: power_mod)
  have "((((m * r ^ e) ^ d) mod n) * ri) mod n = ((m * r ^ e) ^ d * ri) mod n" by (simp only: mod_mult_left_eq)
  also have "\<dots> = (m ^ d * r ^ (e * d) * ri) mod n" by (simp only: power_mult_distrib power_mult)
  also have "\<dots> = (m ^ d * r * ri) mod n"
    by (intro mod_mult_cong refl) (simp add: r)
  also have "\<dots> = (m ^ d * (r * ri)) mod n" by (simp only: mult.assoc)
  also have "\<dots> = (m ^ d * 1) mod n" by (intro mod_mult_cong refl) (simp add: inv)
  finally show ?thesis by (simp only: mult_1_right)
qed

lemma blinded_nonzero:
  fixes n :: nat
  assumes inv: "(r * ri) mod n = 1 mod n" and m: "0 < m" "m < n"
  shows "(m * r ^ e) mod n \<noteq> 0"
proof
  assume "(m * r ^ e) mod n = 0"
  then have "(m * r ^ e * ri ^ e) mod n = 0" by (metis mod_mult_left_eq mult_zero_left mod_0)
  moreover have "(m * r ^ e * ri ^ e) mod n = (m * (r * ri) ^ e) mod n"
    by (simp only: power_mult_distrib mult.assoc)
  moreover have "(m * (r * ri) ^ e) mod n = (m * 1 ^ e) mod n"
    by (intro mod_mult_cong mod_power_cong refl) (simp add: inv)
  ultimately show False using m by simp
qed

lemma signature_nonzero:
  fixes n :: nat
  assumes key: "\<forall>m < n. m ^ (e * d) mod n = m" and "0 < e" "0 < b" "b < n"
  shows "b ^ d mod n \<noteq> 0"
proof
  assume "b ^ d mod n = 0"
  then have "(b ^ d) ^ e mod n = 0 ^ e mod n" by (metis power_mod)
  then have "b ^ (e * d) mod n = 0" using assms(2) zero_power [where ?'a = nat, of e] by (simp add: mult.commute flip: power_mult)
  then show False using key assms by simp
qed

lemma signature_verifies:
  fixes n :: nat
  assumes key: "\<forall>m < n. m ^ (e * d) mod n = m" and "m < n"
  shows "(m ^ d mod n) ^ e mod n = m"
  using assms by (simp add: power_mod mult.commute flip: power_mult)

subsection \<open>Documented behaviour of an RSASSA-PSS key\<close>

text \<open>
  \<open>em_ok hash em\<close> is the check of an encoded message of RFC 8017 with SHA-384, MGF1 with
  SHA-384 and 48 bytes of salt. A padding call that succeeds makes such a message, smaller
  than the modulus and, since it ends in 0xBC, not zero. Verification takes a signature to
  the power \<open>e\<close> and checks the result.
\<close>

definition verify_documented ::
  "('m, 'd, 'r, 'p, 'k, 'b, 'z) rsa_api_scheme \<Rightarrow> (EVP_MD \<Rightarrow> bytes \<Rightarrow> bytes) \<Rightarrow> (bytes \<Rightarrow> bytes \<Rightarrow> bool)
     \<Rightarrow> 'p \<Rightarrow> nat \<Rightarrow> nat \<Rightarrow> bool" where
  "verify_documented L H em_ok pkey n e \<longleftrightarrow>
     (\<exists>c0 c1 c2 c3 c4. EVP_MD_CTX_new L = Some c0 \<and> EVP_DigestVerifyInit L c0 EVP_sha384 pkey = (1, c1) \<and>
        set_rsa_padding L c1 RSA_PKCS1_PSS_PADDING = (1, c2) \<and> set_rsa_pss_saltlen L c2 SALT_LENGTH = (1, c3) \<and>
        set_rsa_mgf1_md L c3 EVP_sha384 = (1, c4) \<and>
        (\<forall>sig msg. EVP_DigestVerify L c4 sig msg = 1 \<longleftrightarrow>
           length sig = 256 \<and> be_val sig < n \<and>
           em_ok (H EVP_sha384 msg) (be_bytes 256 (be_val sig ^ e mod n))))"

definition padding_documented ::
  "('m, 'd, 'r, 'p, 'k, 'b, 'z) rsa_api_scheme \<Rightarrow> (bytes \<Rightarrow> bytes \<Rightarrow> bool) \<Rightarrow> 'p \<Rightarrow> nat \<Rightarrow> bool" where
  "padding_documented L em_ok pkey n \<longleftrightarrow>
     (\<forall>rng hash em rng'.
        RSA_padding_add_PKCS1_PSS_mgf1 L rng pkey hash EVP_sha384 EVP_sha384 SALT_LENGTH = ((1, em), rng') \<longrightarrow>
        length hash = 48 \<longrightarrow> length em = 256 \<and> 0 < be_val em \<and> be_val em < n \<and> em_ok hash em)"

definition public_key_documented ::
  "('m, 'd, 'r, 'p, 'k, 'b, 'z) rsa_api_scheme \<Rightarrow> (EVP_MD \<Rightarrow> bytes \<Rightarrow> bytes) \<Rightarrow> (bytes \<Rightarrow> bytes \<Rightarrow> bool)
     \<Rightarrow> 'p \<Rightarrow> nat \<Rightarrow> nat \<Rightarrow> bool" where
  "public_key_documented L H em_ok pkey n e \<longleftrightarrow>
     EVP_PKEY_get_bn_param L pkey PARAM_RSA_N = (1, n) \<and> EVP_PKEY_get_bn_param L pkey PARAM_RSA_E = (1, e) \<and>
     BN_num_bits L n = RSA_BITS \<and> 0 < e \<and> mont_documented L n \<and>
     padding_documented L em_ok pkey n \<and> verify_documented L H em_ok pkey n e"

definition private_key_documented ::
  "('m, 'd, 'r, 'p, 'k, 'b, 'z) rsa_api_scheme \<Rightarrow> 'p \<Rightarrow> nat \<Rightarrow> nat \<Rightarrow> nat \<Rightarrow> bool" where
  "private_key_documented L pkey n e d \<longleftrightarrow>
     EVP_PKEY_get_bn_param L pkey PARAM_RSA_N = (1, n) \<and> EVP_PKEY_get_bn_param L pkey PARAM_RSA_D = (1, d) \<and>
     (\<forall>m < n. m ^ (e * d) mod n = m)"

lemma modulus_size:
  assumes "bn_documented L" "BN_num_bits L n = RSA_BITS"
  shows "BN_num_bytes L n = 256" "n < 256 ^ 256" "1 < n"
proof -
  show "BN_num_bytes L n = 256" using bn_doc_num_bytes [OF assms(1)] assms(2) by (simp add: RSA_BITS_def)
  have "n < 2 ^ 2048" using bn_doc_bits [OF assms(1), of n 2048] assms(2) by (simp add: RSA_BITS_def)
  also have "(2 :: nat) ^ 2048 = (2 ^ 8) ^ 256" by (simp only: flip: power_mult) simp
  finally show "n < 256 ^ 256" by simp
  show "1 < n" using bn_doc_bits [OF assms(1), of n 1] assms(2) by (simp add: RSA_BITS_def)
qed

lemma verify_documented_eq:
  assumes "verify_documented L H em_ok pkey n e" "bpk_pkey key = Some pkey"
  shows "BlindRsaPublicKey_verify L key msg sig =
    Ok (length sig = 256 \<and> be_val sig < n \<and> em_ok (H EVP_sha384 msg) (be_bytes 256 (be_val sig ^ e mod n)))"
  using assms by (auto simp: verify_documented_def BlindRsaPublicKey_verify_def)

subsection \<open>Issuing a blind signature\<close>

definition factor_ok :: "nat \<Rightarrow> (nat \<times> nat) result \<Rightarrow> bool" where
  "factor_ok n y \<longleftrightarrow>
     (case y of Inl e \<Rightarrow> err_code e = BLINDING_FAILED
      | Inr (r, ri) \<Rightarrow> 0 < r \<and> r < n \<and> ri < n \<and> (r * ri) mod n = 1 mod n)"

lemma blind_factor_sound:
  assumes "blind_factor L n rng = Some y"
  shows "bn_documented L \<longrightarrow> 0 < n \<longrightarrow> factor_ok n (fst y)"
proof (rule blind_factor.raw_induct [where P = "\<lambda>L n rng y. bn_documented L \<longrightarrow> 0 < n \<longrightarrow> factor_ok n (fst y)",
      OF _ assms], intro impI)
  fix rec L n rng y
  assume IH: "\<And>L n rng y. rec L n rng = Some y \<Longrightarrow> bn_documented L \<longrightarrow> 0 < n \<longrightarrow> factor_ok n (fst y)"
    and body: "(case BN_rand_range L rng n of ((ok, r), rng') \<Rightarrow>
        if ok = 0 then Some (Err BLINDING_FAILED ''Failed to generate r'', rng')
        else if BN_is_zero L r then rec L n rng'
        else (case BN_mod_inverse L r n of None \<Rightarrow> rec L n rng'
          | Some r_inv \<Rightarrow> Some (Ok (r, r_inv), rng'))) = Some y"
    and doc: "bn_documented L" "0 < n"
  obtain ok r rng' where draw: "BN_rand_range L rng n = ((ok, r), rng')" by (metis prod.collapse)
  show "factor_ok n (fst y)"
  proof (cases "ok = 0 \<or> BN_is_zero L r \<or> BN_mod_inverse L r n = None")
    case True
    then show ?thesis using body IH [of L n rng' y] doc
      by (auto simp: draw factor_ok_def split: if_splits option.splits)
  next
    case False
    then obtain ri where ri: "BN_mod_inverse L r n = Some ri" by blast
    have "y = (Ok (r, ri), rng')" using body False by (simp add: draw ri)
    then show ?thesis
      using False bn_doc_rand [OF doc draw] bn_doc_tests(1) [OF doc(1), of r] bn_doc_inverse(1) [OF doc(1) ri]
      by (simp add: factor_ok_def)
  qed
qed

text \<open>
  The loop returns exactly when some draw is accepted or fails: the generator after \<open>k\<close>
  draws, and the test of a draw.
\<close>

fun after_draws ::
  "('m, 'd, 'r, 'p, 'k, 'b, 'z) rsa_api_scheme \<Rightarrow> nat \<Rightarrow> nat \<Rightarrow> 'r \<Rightarrow> 'r" where
  "after_draws L n 0 rng = rng"
| "after_draws L n (Suc k) rng = after_draws L n k (snd (BN_rand_range L rng n))"

definition draw_stops :: "('m, 'd, 'r, 'p, 'k, 'b, 'z) rsa_api_scheme \<Rightarrow> nat \<Rightarrow> 'r \<Rightarrow> bool" where
  "draw_stops L n rng \<longleftrightarrow>
     (case fst (BN_rand_range L rng n) of (ok, r) \<Rightarrow>
        ok = 0 \<or> \<not> BN_is_zero L r \<and> BN_mod_inverse L r n \<noteq> None)"

lemma blind_factor_unfold:
  "blind_factor L n rng =
     (if draw_stops L n rng then
        (case BN_rand_range L rng n of ((ok, r), rng') \<Rightarrow>
           Some (if ok = 0 then Err BLINDING_FAILED ''Failed to generate r''
                 else Ok (r, the (BN_mod_inverse L r n)), rng'))
      else blind_factor L n (snd (BN_rand_range L rng n)))"
proof -
  obtain ok r rng' where draw: "BN_rand_range L rng n = ((ok, r), rng')" by (metis prod.collapse)
  show ?thesis
    by (subst blind_factor.simps) (auto simp: draw draw_stops_def split: option.splits)
qed

lemma blind_factor_returns:
  assumes "draw_stops L n (after_draws L n k rng)"
  shows "blind_factor L n rng \<noteq> None"
  using assms
proof (induction k arbitrary: rng)
  case 0
  then show ?case by (subst blind_factor_unfold) (simp split: prod.splits)
next
  case (Suc k)
  then show ?case by (subst blind_factor_unfold) (simp split: prod.splits)
qed

lemma blind_factor_loops:
  assumes "blind_factor L n rng = Some y"
  shows "\<exists>k. draw_stops L n (after_draws L n k rng)"
proof (rule blind_factor.raw_induct [where P = "\<lambda>L n rng y. \<exists>k. draw_stops L n (after_draws L n k rng)",
      OF _ assms])
  fix rec L n rng y
  assume IH: "\<And>L n rng y. rec L n rng = Some y \<Longrightarrow> \<exists>k. draw_stops L n (after_draws L n k rng)"
    and body: "(case BN_rand_range L rng n of ((ok, r), rng') \<Rightarrow>
        if ok = 0 then Some (Err BLINDING_FAILED ''Failed to generate r'', rng')
        else if BN_is_zero L r then rec L n rng'
        else (case BN_mod_inverse L r n of None \<Rightarrow> rec L n rng'
          | Some r_inv \<Rightarrow> Some (Ok (r, r_inv), rng'))) = Some y"
  obtain ok r rng' where draw: "BN_rand_range L rng n = ((ok, r), rng')" by (metis prod.collapse)
  show "\<exists>k. draw_stops L n (after_draws L n k rng)"
  proof (cases "draw_stops L n rng")
    case True
    then have "draw_stops L n (after_draws L n 0 rng)" by simp
    then show ?thesis ..
  next
    case False
    then have "rec L n rng' = Some y" using body
      by (auto simp: draw draw_stops_def split: if_splits option.splits)
    then obtain k where "draw_stops L n (after_draws L n k rng')" using IH by blast
    then have "draw_stops L n (after_draws L n (Suc k) rng)" by (simp add: draw)
    then show ?thesis ..
  qed
qed

subsection \<open>Completeness\<close>

lemma do_emsa_pss_encode_Ok:
  assumes "evp_documented L H" "padding_documented L em_ok pkey n"
    and "do_emsa_pss_encode L pkey msg rng = Some (Ok em, rng')"
  shows "length em = 256 \<and> 0 < be_val em \<and> be_val em < n \<and> em_ok (H EVP_sha384 msg) em"
proof -
  have "RSA_padding_add_PKCS1_PSS_mgf1 L rng pkey (H EVP_sha384 msg) EVP_sha384 EVP_sha384 SALT_LENGTH
      = ((1, em), rng')"
    using assms(3)
    by (auto simp: do_emsa_pss_encode_def sha384_documented [OF assms(1)] emsa_pss_encode_def
        split: if_splits prod.splits)
  then show ?thesis
    using assms(2) documented_len [OF assms(1), of EVP_sha384 msg] unfolding padding_documented_def
    by (metis md_len.simps(2))
qed

text \<open>The value of a blinding: the encoded message times the power of the factor that was drawn.\<close>

lemma blind_value:
  assumes bn: "bn_documented L" and pub: "public_key_documented L H em_ok pkey n e" "bpk_pkey key = Some pkey"
    and em: "do_emsa_pss_encode L pkey msg rng = Some (Ok em, rng1)" "be_val em < n"
    and draw: "blind_factor L n rng1 = Some (Ok (r, ri), rng2)"
  shows "BlindRsaPublicKey_blind L key msg rng = Some (Ok \<lparr>bd_inverse = be_bytes 256 ri,
      bd_blinded_msg = be_bytes 256 ((be_val em * r ^ e) mod n)\<rparr>, rng2)"
proof -
  have n: "BN_num_bytes L n = 256" "n < 256 ^ 256" "1 < n"
    using modulus_size [OF bn] pub(1) by (simp_all add: public_key_documented_def)
  have get: "rsa_get_bn_param L pkey PARAM_RSA_N = Some n" "rsa_get_bn_param L pkey PARAM_RSA_E = Some e"
    and mont: "mont_documented L n"
    using pub(1) by (simp_all add: public_key_documented_def rsa_get_bn_param_def)
  have rf: "r < n" "ri < n" using blind_factor_sound [OF draw] bn n(3) by (simp_all add: factor_ok_def)
  let ?x = "(r ^ e) mod n"
  have x: "BN_mod_exp_mont L r e n = (1, ?x)" using mont_doc_exp(1) [OF mont] rf by simp
  have "?x < n" using n(3) by simp
  then obtain b' where b': "BN_to_montgomery L ?x n = (1, b')"
    "BN_mod_mul_montgomery L (be_val em) b' n = (1, (be_val em * ?x) mod n)"
    using mont_doc_mul [OF mont em(2) \<open>?x < n\<close>] by blast
  have small: "(be_val em * ?x) mod n < 256 ^ 256" "ri < 256 ^ 256"
    using n(2,3) rf mod_less_divisor [of n "be_val em * ?x"] by linarith+
  show ?thesis
    by (simp add: BlindRsaPublicKey_blind_def pub(2) get n(1) RSA_MODULUS_SIZE_def Let_def tryM_def liftM_def em(1) draw
        bn_doc_bin2bn [OF bn] bn_doc_alloc [OF bn] mont_doc_set [OF mont] x b' mod_mult_right_eq
        bn_doc_binpad [OF bn small(1), unfolded mod_mult_right_eq] bn_doc_binpad [OF bn small(2)])
qed

lemma blind_draws:
  assumes bn: "bn_documented L" and pub: "public_key_documented L H em_ok pkey n e" "bpk_pkey key = Some pkey"
    and blind: "BlindRsaPublicKey_blind L key msg rng = Some (Ok bd, rng')"
  shows "\<exists>em rng1 r ri rng2. do_emsa_pss_encode L pkey msg rng = Some (Ok em, rng1)
    \<and> blind_factor L n rng1 = Some (Ok (r, ri), rng2)"
proof -
  have n: "BN_num_bytes L n = 256" using modulus_size [OF bn] pub(1) by (simp add: public_key_documented_def)
  have get: "rsa_get_bn_param L pkey PARAM_RSA_N = Some n" "rsa_get_bn_param L pkey PARAM_RSA_E = Some e"
    and mont: "mont_documented L n"
    using pub(1) by (simp_all add: public_key_documented_def rsa_get_bn_param_def)
  show ?thesis
    using blind
    by (auto simp: BlindRsaPublicKey_blind_def pub(2) get n RSA_MODULUS_SIZE_def Let_def
        tryM_Some_Ok_iff bn_doc_bin2bn [OF bn] bn_doc_alloc [OF bn] mont_doc_set [OF mont])
qed

lemma blind_Ok:
  assumes bn: "bn_documented L" and evp: "evp_documented L H"
    and pub: "public_key_documented L H em_ok pkey n e" "bpk_pkey key = Some pkey"
    and blind: "BlindRsaPublicKey_blind L key msg rng = Some (Ok bd, rng')"
  shows "\<exists>em r ri. length em = 256 \<and> 0 < be_val em \<and> be_val em < n \<and> em_ok (H EVP_sha384 msg) em
    \<and> ri < n \<and> (r * ri) mod n = 1 mod n
    \<and> bd = \<lparr>bd_inverse = be_bytes 256 ri, bd_blinded_msg = be_bytes 256 ((be_val em * r ^ e) mod n)\<rparr>"
proof -
  have n: "1 < n" using modulus_size [OF bn] pub(1) by (simp add: public_key_documented_def)
  have pad: "padding_documented L em_ok pkey n" using pub(1) by (simp add: public_key_documented_def)
  obtain em r ri rng1 rng2 where em: "do_emsa_pss_encode L pkey msg rng = Some (Ok em, rng1)"
    and r: "blind_factor L n rng1 = Some (Ok (r, ri), rng2)"
    using blind_draws [OF bn pub blind] by blast
  note em_facts = do_emsa_pss_encode_Ok [OF evp pad em]
  have rf: "ri < n \<and> (r * ri) mod n = 1 mod n"
    using blind_factor_sound [OF r] bn n by (simp add: factor_ok_def)
  then show ?thesis using blind em_facts blind_value [OF bn pub em _ r] by auto
qed

theorem blind_signature_complete:
  assumes bn: "bn_documented L" and evp: "evp_documented L H"
    and pub: "public_key_documented L H em_ok pkey n e" "bpk_pkey key = Some pkey"
    and priv: "private_key_documented L skey n e d" "bsk_pkey sk = Some skey"
    and blind: "BlindRsaPublicKey_blind L key msg rng = Some (Ok bd, rng')"
  shows "\<exists>bs sig. BlindRsaPrivateKey_blind_sign L sk (bd_blinded_msg bd) = Ok bs \<and> length bs = 256
    \<and> BlindRsaPublicKey_finalize L key bs bd msg = (Ok sig, bd\<lparr>bd_inverse := []\<rparr>)
    \<and> length sig = 256 \<and> BlindRsaPublicKey_verify L key msg sig = Ok True"
proof -
  obtain em r ri where em: "length em = 256" "0 < be_val em" "be_val em < n" "em_ok (H EVP_sha384 msg) em"
    and ri: "ri < n" "(r * ri) mod n = 1 mod n"
    and bd: "bd = \<lparr>bd_inverse = be_bytes 256 ri, bd_blinded_msg = be_bytes 256 ((be_val em * r ^ e) mod n)\<rparr>"
    using blind_Ok [OF bn evp pub blind] by blast
  have n: "BN_num_bytes L n = 256" "n < 256 ^ 256" "1 < n"
    using modulus_size [OF bn] pub(1) by (simp_all add: public_key_documented_def)
  have get: "rsa_get_bn_param L pkey PARAM_RSA_N = Some n" and mont: "mont_documented L n"
    and e: "0 < e" and ver: "verify_documented L H em_ok pkey n e"
    using pub(1) by (simp_all add: public_key_documented_def rsa_get_bn_param_def)
  have sget: "rsa_get_bn_param L skey PARAM_RSA_N = Some n"
    "rsa_get_secure_bn_param L skey PARAM_RSA_D = Some d"
    and key: "\<forall>m < n. m ^ (e * d) mod n = m"
    using priv(1) by (simp_all add: private_key_documented_def rsa_get_bn_param_def rsa_get_secure_bn_param_def)
  let ?b = "(be_val em * r ^ e) mod n" let ?s = "?b ^ d mod n" let ?g = "(?s * ri) mod n"
  have less: "?b < n" "?s < n" "?g < n" using n(3) by simp_all
  have fits: "k < 256 ^ 256" if "k < n" for k using that n(2) by linarith
  have b0: "?b \<noteq> 0" by (rule blinded_nonzero [OF ri(2) em(2,3)])
  have s0: "?s \<noteq> 0" using signature_nonzero [OF key e _ less(1)] b0 by simp
  have g: "?g = be_val em ^ d mod n"
    using unblinded_signature [OF key ri(2), of "be_val em"] by (simp only: power_mod)
  have "be_bytes 256 (?g ^ e mod n) = em"
    using signature_verifies [OF key em(3)] be_bytes_be_val [of em] em(1) by (simp only: g)
  moreover have "be_val (be_bytes 256 ?g) = ?g" by (rule be_val_be_bytes [OF fits [OF less(3)]])
  ultimately have v: "BlindRsaPublicKey_verify L key msg (be_bytes 256 ?g) = Ok True"
    using verify_documented_eq [OF ver pub(2), of msg "be_bytes 256 ?g"] em(4) less(3) by simp
  have vals: "be_val (be_bytes 256 ?b) = ?b" "be_val (be_bytes 256 ?s) = ?s" "be_val (be_bytes 256 ri) = ri"
    by (rule be_val_be_bytes [OF fits [OF less(1)]] be_val_be_bytes [OF fits [OF less(2)]]
        be_val_be_bytes [OF fits [OF ri(1)]])+
  note tools = bn_doc_bin2bn [OF bn] bn_doc_alloc [OF bn] mont_doc_set [OF mont] bn_doc_tests [OF bn]
  have sign: "BlindRsaPrivateKey_blind_sign L sk (be_bytes 256 ?b) = Ok (be_bytes 256 ?s)"
    using b0 less(1) mont_doc_exp(2) [OF mont less(1), of d] bn_doc_binpad [OF bn fits [OF less(2)]]
    by (simp add: BlindRsaPrivateKey_blind_sign_def priv(2) sget n(1) RSA_MODULUS_SIZE_def INT_MAX_def
        tools vals)
  obtain c where c: "BN_to_montgomery L ri n = (1, c)" "BN_mod_mul_montgomery L ?s c n = (1, ?g)"
    using mont_doc_mul [OF mont less(2) ri(1)] by blast
  have "BlindRsaPublicKey_finalize L key (be_bytes 256 ?s) bd msg
      = (Ok (be_bytes 256 ?g), bd\<lparr>bd_inverse := []\<rparr>)"
    using s0 less(2) v bn_doc_binpad [OF bn fits [OF less(3)]]
    by (simp add: BlindRsaPublicKey_finalize_def pub(2) get n(1) RSA_MODULUS_SIZE_def INT_MAX_def
        bd tools vals c)
  then show ?thesis using sign v by (simp add: bd)
qed

end
