(* ===== verification/PP_Origin.thy ===== *)
theory PP_Origin
  imports PP_Blind_Rsa PP_Voprf_Protocol PP_Token PP_Challenge PP_Replay
begin

text \<open>
  The origins of src/core/origin.cpp: \<open>PublicOrigin\<close> verifies Blind RSA tokens against the
  keys it was given, \<open>PrivateOrigin\<close> checks the structure of VOPRF tokens, \<open>Origin\<close> holds
  both. An operation that asks the clock takes the time since the cache was built; one
  that computes a challenge digest returns the challenge with its cache filled.
\<close>

record OriginConfig =
  oc_issuer_name :: string
  oc_origin_names :: "string list"
  oc_redemption_window :: int
  oc_require_redemption_context :: bool
  oc_max_replay_cache_size :: nat

subsection \<open>Challenges\<close>

text \<open>The context of a new challenge: drawn when the configuration asks for one.\<close>

definition challenge_context ::
  "('m, 'd, 'r, 'z) rand_api_scheme \<Rightarrow> OriginConfig \<Rightarrow> ChallengeDigest option \<Rightarrow> 'r
     \<Rightarrow> ChallengeDigest option result \<times> 'r" where
  "challenge_context L config redemption_context rng =
     (if oc_require_redemption_context config \<and> redemption_context = None then
        (case random_bytes L 32 rng of
           (Inl e, rng') \<Rightarrow> (Inl e, rng')
         | (Inr random, rng') \<Rightarrow> (Ok (Some random), rng'))
      else (Ok redemption_context, rng))"

definition origin_challenge ::
  "('m, 'd, 'r, 'z) rand_api_scheme \<Rightarrow> OriginConfig \<Rightarrow> TokenType \<Rightarrow> ChallengeDigest option \<Rightarrow> 'r
     \<Rightarrow> TokenChallenge result \<times> 'r" where
  "origin_challenge L config type redemption_context rng =
     (case challenge_context L config redemption_context rng of
        (context_result, rng') \<Rightarrow>
          (try_bind context_result (\<lambda>ctx.
             Ok (TokenChallenge_create type (oc_issuer_name config) ctx (oc_origin_names config))), rng'))"

subsection \<open>The origin for publicly verifiable tokens\<close>

record 'p PublicOrigin =
  po_config :: OriginConfig
  po_issuer_keys :: "'p BlindRsaPublicKey list"
  po_key_indices_by_truncated_id :: "byte \<rightharpoonup> nat list"
  po_key_index_by_full_id :: "TokenKeyId \<rightharpoonup> nat"
  po_replay_cache :: ReplayCache

definition PublicOrigin_add_issuer_key ::
  "('m, 'd, 'r, 'p, 'k, 'b, 'z) rsa_api_scheme \<Rightarrow> 'p BlindRsaPublicKey \<Rightarrow> 'p PublicOrigin \<Rightarrow> 'p PublicOrigin" where
  "PublicOrigin_add_issuer_key L key origin =
     (case BlindRsaPublicKey_key_id L key of
        (Inl e, key) \<Rightarrow> origin
      | (Inr key_id, key) \<Rightarrow>
          (let index = length (po_issuer_keys origin);
               truncated = key_id ! 31;
               bucket = (case po_key_indices_by_truncated_id origin truncated of None \<Rightarrow> [] | Some is \<Rightarrow> is)
           in origin\<lparr>po_key_indices_by_truncated_id :=
                       (po_key_indices_by_truncated_id origin)(truncated \<mapsto> bucket @ [index]),
                     po_key_index_by_full_id := (po_key_index_by_full_id origin)(key_id \<mapsto> index),
                     po_issuer_keys := po_issuer_keys origin @ [key]\<rparr>))"

definition PublicOrigin_new ::
  "('m, 'd, 'r, 'p, 'k, 'b, 'z) rsa_api_scheme \<Rightarrow> OriginConfig \<Rightarrow> 'p BlindRsaPublicKey list \<Rightarrow> 'p PublicOrigin" where
  "PublicOrigin_new L config issuer_keys =
     foldl (\<lambda>origin key. PublicOrigin_add_issuer_key L key origin)
       \<lparr>po_config = config, po_issuer_keys = [], po_key_indices_by_truncated_id = Map.empty,
        po_key_index_by_full_id = Map.empty,
        po_replay_cache = ReplayCache_new (oc_redemption_window config) (oc_max_replay_cache_size config)\<rparr>
       issuer_keys"

definition PublicOrigin_remove_issuer_key :: "TokenKeyId \<Rightarrow> 'p PublicOrigin \<Rightarrow> 'p PublicOrigin" where
  "PublicOrigin_remove_issuer_key key_id origin =
     (case po_key_index_by_full_id origin key_id of
        None \<Rightarrow> origin
      | Some index \<Rightarrow>
          (let truncated = key_id ! 31;
               bucket = (case po_key_indices_by_truncated_id origin truncated of None \<Rightarrow> [] | Some is \<Rightarrow> is);
               bucket = removeAll index bucket
           in origin\<lparr>po_key_index_by_full_id := (po_key_index_by_full_id origin)(key_id := None),
                     po_key_indices_by_truncated_id :=
                       (po_key_indices_by_truncated_id origin)
                         (truncated := (if bucket = [] then None else Some bucket))\<rparr>))"

definition PublicOrigin_create_challenge ::
  "('m, 'd, 'r, 'z) rand_api_scheme \<Rightarrow> 'p PublicOrigin \<Rightarrow> ChallengeDigest option \<Rightarrow> 'r
     \<Rightarrow> TokenChallenge result \<times> 'r" where
  "PublicOrigin_create_challenge L origin redemption_context rng =
     origin_challenge L (po_config origin) BLIND_RSA redemption_context rng"

definition PublicOrigin_verify ::
  "('m, 'd, 'r, 'p, 'k, 'b, 'z) rsa_api_scheme \<Rightarrow> 'p PublicOrigin \<Rightarrow> Token \<Rightarrow> TokenChallenge
     \<Rightarrow> bool result \<times> TokenChallenge" where
  "PublicOrigin_verify L origin token expected_challenge =
     (case Token_validate token of
        Inl e \<Rightarrow> (Inl e, expected_challenge)
      | Inr _ \<Rightarrow>
          if tok_type token \<noteq> BLIND_RSA \<and> tok_type token \<noteq> PARTIALLY_BLIND_RSA then
            (Err UNSUPPORTED_TOKEN_TYPE ''PublicOrigin only supports Blind RSA tokens'', expected_challenge)
          else
            (case TokenChallenge_digest L expected_challenge of
               (Inl e, challenge) \<Rightarrow> (Inl e, challenge)
             | (Inr expected_digest, challenge) \<Rightarrow>
                 (if \<not> constant_time_equal (tok_challenge_digest token) expected_digest then
                    Err INVALID_CHALLENGE ''Challenge digest mismatch''
                  else
                    (case po_key_index_by_full_id origin (tok_key_id token) of
                       None \<Rightarrow> Err ISSUER_UNKNOWN ''Unknown issuer key''
                     | Some index \<Rightarrow>
                         (let key = po_issuer_keys origin ! index
                          in try_bind (AuthenticatorInput_serialize (authenticator_input token)) (\<lambda>auth_input_bytes.
                               BlindRsaPublicKey_verify L key auth_input_bytes (tok_authenticator token)))),
                  challenge)))"

definition PublicOrigin_verify_and_redeem ::
  "('m, 'd, 'r, 'p, 'k, 'b, 'z) rsa_api_scheme \<Rightarrow> nat \<Rightarrow> Token \<Rightarrow> TokenChallenge \<Rightarrow> 'p PublicOrigin
     \<Rightarrow> (bool result \<times> TokenChallenge) \<times> 'p PublicOrigin" where
  "PublicOrigin_verify_and_redeem L elapsed token expected_challenge origin =
     (case check_and_add elapsed (tok_nonce token) (po_replay_cache origin) of
        (fresh, cache) \<Rightarrow>
          (let origin = origin\<lparr>po_replay_cache := cache\<rparr>
           in if \<not> fresh then
                ((Err TOKEN_REPLAYED ''Token has already been redeemed'', expected_challenge), origin)
              else (PublicOrigin_verify L origin token expected_challenge, origin)))"

subsection \<open>The origin for privately verifiable tokens\<close>

record 't PrivateOrigin =
  pro_config :: OriginConfig
  pro_issuer_keys :: "'t VoprfPublicKey list"
  pro_replay_cache :: ReplayCache

definition PrivateOrigin_new :: "OriginConfig \<Rightarrow> 't VoprfPublicKey list \<Rightarrow> 't PrivateOrigin" where
  "PrivateOrigin_new config issuer_keys =
     \<lparr>pro_config = config, pro_issuer_keys = issuer_keys,
      pro_replay_cache = ReplayCache_new (oc_redemption_window config) (oc_max_replay_cache_size config)\<rparr>"

definition PrivateOrigin_create_challenge ::
  "('m, 'd, 'r, 'z) rand_api_scheme \<Rightarrow> 't PrivateOrigin \<Rightarrow> ChallengeDigest option \<Rightarrow> 'r
     \<Rightarrow> TokenChallenge result \<times> 'r" where
  "PrivateOrigin_create_challenge L origin redemption_context rng =
     origin_challenge L (pro_config origin) VOPRF_P384_SHA384 redemption_context rng"

definition PrivateOrigin_validate_structure ::
  "('m, 'd, 'z) hash_api_scheme \<Rightarrow> 't PrivateOrigin \<Rightarrow> Token \<Rightarrow> TokenChallenge
     \<Rightarrow> bool result \<times> TokenChallenge" where
  "PrivateOrigin_validate_structure L origin token expected_challenge =
     (case Token_validate token of
        Inl e \<Rightarrow> (Inl e, expected_challenge)
      | Inr _ \<Rightarrow>
          if tok_type token \<noteq> VOPRF_P384_SHA384 then
            (Err UNSUPPORTED_TOKEN_TYPE ''PrivateOrigin only supports VOPRF tokens'', expected_challenge)
          else
            (case TokenChallenge_digest L expected_challenge of
               (Inl e, challenge) \<Rightarrow> (Inl e, challenge)
             | (Inr expected_digest, challenge) \<Rightarrow>
                 (if \<not> constant_time_equal (tok_challenge_digest token) expected_digest then
                    Err INVALID_CHALLENGE ''Challenge digest mismatch''
                  else Ok True, challenge)))"

definition PrivateOrigin_would_be_replay :: "'t PrivateOrigin \<Rightarrow> Token \<Rightarrow> bool" where
  "PrivateOrigin_would_be_replay origin token \<longleftrightarrow> rc_contains (pro_replay_cache origin) (tok_nonce token)"

definition PrivateOrigin_mark_redeemed :: "nat \<Rightarrow> Token \<Rightarrow> 't PrivateOrigin \<Rightarrow> 't PrivateOrigin" where
  "PrivateOrigin_mark_redeemed elapsed token origin =
     origin\<lparr>pro_replay_cache := snd (check_and_add elapsed (tok_nonce token) (pro_replay_cache origin))\<rparr>"

subsection \<open>The unified origin\<close>

record ('p, 't) Origin =
  or_config :: OriginConfig
  or_public_origin :: "'p PublicOrigin option"
  or_private_origin :: "'t PrivateOrigin option"
  or_rsa_keys :: "'p BlindRsaPublicKey list"
  or_voprf_keys :: "'t VoprfPublicKey list"
  or_replay_cache :: ReplayCache

definition Origin_new :: "OriginConfig \<Rightarrow> ('p, 't) Origin" where
  "Origin_new config =
     \<lparr>or_config = config, or_public_origin = None, or_private_origin = None, or_rsa_keys = [],
      or_voprf_keys = [],
      or_replay_cache = ReplayCache_new (oc_redemption_window config) (oc_max_replay_cache_size config)\<rparr>"

text \<open>A key is copied by encoding it and parsing the encoding.\<close>

definition copy_rsa_key ::
  "('m, 'd, 'r, 'p, 'k, 'b, 'z) rsa_api_scheme \<Rightarrow> 'p BlindRsaPublicKey \<Rightarrow> 'p BlindRsaPublicKey result" where
  "copy_rsa_key L key = try_bind (BlindRsaPublicKey_to_spki L key) (BlindRsaPublicKey_from_spki L)"

definition copy_voprf_key ::
  "('m, 'd, 'r, 'p, 'k, 'b, 't, 'z) ossl_scheme \<Rightarrow> 't VoprfPublicKey \<Rightarrow> 't VoprfPublicKey result" where
  "copy_voprf_key L key = try_bind (VoprfPublicKey_to_bytes L key) (VoprfPublicKey_from_bytes L)"

definition Origin_add_blind_rsa_key ::
  "('m, 'd, 'r, 'p, 'k, 'b, 'z) rsa_api_scheme \<Rightarrow> 'p BlindRsaPublicKey \<Rightarrow> ('p, 't) Origin \<Rightarrow> ('p, 't) Origin" where
  "Origin_add_blind_rsa_key L key origin =
     (let origin = origin\<lparr>or_rsa_keys := or_rsa_keys origin @ [key]\<rparr>
      in case copy_rsa_key L key of
           Inl e \<Rightarrow> origin
         | Inr copy \<Rightarrow>
             origin\<lparr>or_public_origin :=
               (case or_public_origin origin of
                  None \<Rightarrow> Some (PublicOrigin_new L (or_config origin) [copy])
                | Some public_origin \<Rightarrow> Some (PublicOrigin_add_issuer_key L copy public_origin))\<rparr>)"

fun copy_voprf_keys ::
  "('m, 'd, 'r, 'p, 'k, 'b, 't, 'z) ossl_scheme \<Rightarrow> 't VoprfPublicKey list \<Rightarrow> 't VoprfPublicKey list" where
  "copy_voprf_keys L [] = []"
| "copy_voprf_keys L (key # keys) =
     (case copy_voprf_key L key of
        Inl e \<Rightarrow> copy_voprf_keys L keys
      | Inr copy \<Rightarrow> copy # copy_voprf_keys L keys)"

definition Origin_add_voprf_key ::
  "('m, 'd, 'r, 'p, 'k, 'b, 't, 'z) ossl_scheme \<Rightarrow> 't VoprfPublicKey \<Rightarrow> ('q, 't) Origin \<Rightarrow> ('q, 't) Origin" where
  "Origin_add_voprf_key L key origin =
     (let origin = origin\<lparr>or_voprf_keys := or_voprf_keys origin @ [key]\<rparr>
      in origin\<lparr>or_private_origin :=
           Some (PrivateOrigin_new (or_config origin) (copy_voprf_keys L (or_voprf_keys origin)))\<rparr>)"

definition Origin_create_challenge ::
  "('m, 'd, 'r, 'z) rand_api_scheme \<Rightarrow> ('p, 't) Origin \<Rightarrow> TokenType \<Rightarrow> ChallengeDigest option \<Rightarrow> 'r
     \<Rightarrow> TokenChallenge result \<times> 'r" where
  "Origin_create_challenge L origin type redemption_context rng =
     origin_challenge L (or_config origin) type redemption_context rng"

definition Origin_verify ::
  "('m, 'd, 'r, 'p, 'k, 'b, 'z) rsa_api_scheme \<Rightarrow> ('p, 't) Origin \<Rightarrow> Token \<Rightarrow> TokenChallenge
     \<Rightarrow> bool result \<times> TokenChallenge" where
  "Origin_verify L origin token expected_challenge =
     (if tok_type token = BLIND_RSA \<or> tok_type token = PARTIALLY_BLIND_RSA then
        (case or_public_origin origin of
           Some public_origin \<Rightarrow> PublicOrigin_verify L public_origin token expected_challenge
         | None \<Rightarrow> (Err ISSUER_UNKNOWN ''No RSA keys configured'', expected_challenge))
      else if tok_type token = VOPRF_P384_SHA384 then
        (Err UNSUPPORTED_TOKEN_TYPE ''VOPRF tokens require issuer private-key verification'',
         expected_challenge)
      else (Err UNSUPPORTED_TOKEN_TYPE ''Unsupported token type'', expected_challenge))"

definition Origin_verify_and_redeem ::
  "('m, 'd, 'r, 'p, 'k, 'b, 'z) rsa_api_scheme \<Rightarrow> nat \<Rightarrow> Token \<Rightarrow> TokenChallenge \<Rightarrow> ('p, 't) Origin
     \<Rightarrow> (bool result \<times> TokenChallenge) \<times> ('p, 't) Origin" where
  "Origin_verify_and_redeem L elapsed token expected_challenge origin =
     (case check_and_add elapsed (tok_nonce token) (or_replay_cache origin) of
        (fresh, cache) \<Rightarrow>
          (let origin = origin\<lparr>or_replay_cache := cache\<rparr>
           in if \<not> fresh then
                ((Err TOKEN_REPLAYED ''Token has already been redeemed'', expected_challenge), origin)
              else (Origin_verify L origin token expected_challenge, origin)))"

definition Origin_config :: "('p, 't) Origin \<Rightarrow> OriginConfig" where
  "Origin_config origin = or_config origin"

subsection \<open>The trusted keys of a public origin\<close>

text \<open>
  The two index maps implement a map from key ids to keys: a key that was added is found
  under its id until it is removed. A bucket of the truncated ids holds, in increasing order,
  indices of keys whose id ends in its byte; every indexed key is in its bucket.
\<close>

definition has_key_id :: "'p BlindRsaPublicKey \<Rightarrow> TokenKeyId \<Rightarrow> bool" where
  "has_key_id key kid \<longleftrightarrow> bpk_key_id_computed key \<and> bpk_cached_key_id key = kid"

definition bucket_of :: "'p PublicOrigin \<Rightarrow> byte \<Rightarrow> nat list" where
  "bucket_of origin b = (case po_key_indices_by_truncated_id origin b of None \<Rightarrow> [] | Some is \<Rightarrow> is)"

definition keys_ok :: "'p PublicOrigin \<Rightarrow> bool" where
  "keys_ok origin \<longleftrightarrow>
     (\<forall>kid i. po_key_index_by_full_id origin kid = Some i \<longrightarrow>
        i < length (po_issuer_keys origin) \<and> has_key_id (po_issuer_keys origin ! i) kid \<and>
        i \<in> set (bucket_of origin (kid ! 31))) \<and>
     (\<forall>b is. po_key_indices_by_truncated_id origin b = Some is \<longrightarrow> is \<noteq> []) \<and>
     (\<forall>b. sorted_wrt (<) (bucket_of origin b)) \<and>
     (\<forall>b. \<forall>i \<in> set (bucket_of origin b). i < length (po_issuer_keys origin) \<and>
        (\<exists>kid. has_key_id (po_issuer_keys origin ! i) kid \<and> kid ! 31 = b))"

definition trusted :: "'p PublicOrigin \<Rightarrow> TokenKeyId \<rightharpoonup> 'p BlindRsaPublicKey" where
  "trusted origin kid = map_option (\<lambda>i. po_issuer_keys origin ! i) (po_key_index_by_full_id origin kid)"

datatype 'p key_op = Add_key "'p BlindRsaPublicKey" | Remove_key TokenKeyId

fun key_step ::
  "('m, 'd, 'r, 'p, 'k, 'b, 'z) rsa_api_scheme \<Rightarrow> 'p PublicOrigin \<Rightarrow> 'p key_op \<Rightarrow> 'p PublicOrigin" where
  "key_step L origin (Add_key key) = PublicOrigin_add_issuer_key L key origin"
| "key_step L origin (Remove_key kid) = PublicOrigin_remove_issuer_key kid origin"

fun trust_step ::
  "('m, 'd, 'r, 'p, 'k, 'b, 'z) rsa_api_scheme \<Rightarrow> (TokenKeyId \<rightharpoonup> 'p BlindRsaPublicKey) \<Rightarrow> 'p key_op
     \<Rightarrow> TokenKeyId \<rightharpoonup> 'p BlindRsaPublicKey" where
  "trust_step L m (Add_key key) =
     (case BlindRsaPublicKey_key_id L key of (Inl e, key) \<Rightarrow> m | (Inr kid, key) \<Rightarrow> m(kid \<mapsto> key))"
| "trust_step L m (Remove_key kid) = m(kid := None)"

lemma key_id_cached: "BlindRsaPublicKey_key_id L key = (Inr kid, key') \<Longrightarrow> has_key_id key' kid"
  by (auto simp: BlindRsaPublicKey_key_id_def has_key_id_def split: if_splits sum.splits)

lemma has_key_id_unique: "has_key_id key a \<Longrightarrow> has_key_id key b \<Longrightarrow> a = b"
  by (simp add: has_key_id_def)

lemma bucket_of_add:
  assumes "BlindRsaPublicKey_key_id L key = (Inr kid, key')"
  shows "bucket_of (PublicOrigin_add_issuer_key L key origin) b =
    bucket_of origin b @ (if b = kid ! 31 then [length (po_issuer_keys origin)] else [])"
  using assms by (simp add: PublicOrigin_add_issuer_key_def bucket_of_def Let_def)

lemma bucket_of_remove:
  assumes "po_key_index_by_full_id origin kid = Some i"
  shows "bucket_of (PublicOrigin_remove_issuer_key kid origin) b =
    (if b = kid ! 31 then removeAll i (bucket_of origin b) else bucket_of origin b)"
  using assms by (auto simp: PublicOrigin_remove_issuer_key_def bucket_of_def Let_def)

lemma keys_ok_add:
  assumes ok: "keys_ok origin"
  shows "keys_ok (PublicOrigin_add_issuer_key L key origin)"
proof (cases "BlindRsaPublicKey_key_id L key")
  case (Pair r key')
  show ?thesis
  proof (cases r)
    case (Inl e)
    then show ?thesis using ok Pair by (simp add: PublicOrigin_add_issuer_key_def)
  next
    case (Inr kid)
    note k = Pair [unfolded Inr]
    let ?o = "PublicOrigin_add_issuer_key L key origin"
    have parts: "po_issuer_keys ?o = po_issuer_keys origin @ [key']"
      "po_key_index_by_full_id ?o = (po_key_index_by_full_id origin)(kid \<mapsto> length (po_issuer_keys origin))"
      "po_key_indices_by_truncated_id ?o = (po_key_indices_by_truncated_id origin)
         (kid ! 31 \<mapsto> bucket_of origin (kid ! 31) @ [length (po_issuer_keys origin)])"
      using k by (simp_all add: PublicOrigin_add_issuer_key_def bucket_of_def Let_def)
    have full: "j < length (po_issuer_keys origin) \<and> has_key_id (po_issuer_keys origin ! j) x \<and>
        j \<in> set (bucket_of origin (x ! 31))" if "po_key_index_by_full_id origin x = Some j" for x j
      using ok that unfolding keys_ok_def by blast
    have "j < Suc (length (po_issuer_keys origin))" if "po_key_index_by_full_id origin x = Some j" for x j
      using full [OF that] by simp
    then show ?thesis
      using ok key_id_cached [OF k] full unfolding keys_ok_def parts bucket_of_add [OF k]
      by (auto simp: nth_append sorted_wrt_append)
  qed
qed

lemma keys_ok_remove:
  assumes ok: "keys_ok origin"
  shows "keys_ok (PublicOrigin_remove_issuer_key kid origin)"
proof (cases "po_key_index_by_full_id origin kid")
  case None
  then show ?thesis using ok by (simp add: PublicOrigin_remove_issuer_key_def)
next
  case (Some i)
  let ?o = "PublicOrigin_remove_issuer_key kid origin" let ?b = "removeAll i (bucket_of origin (kid ! 31))"
  have parts: "po_issuer_keys ?o = po_issuer_keys origin"
    "po_key_index_by_full_id ?o = (po_key_index_by_full_id origin)(kid := None)"
    "po_key_indices_by_truncated_id ?o = (po_key_indices_by_truncated_id origin)
       (kid ! 31 := (if ?b = [] then None else Some ?b))"
    using Some by (simp_all add: PublicOrigin_remove_issuer_key_def bucket_of_def Let_def)
  have other: "j \<noteq> i" if "po_key_index_by_full_id origin kid' = Some j" "kid' \<noteq> kid" for kid' j
    using that Some ok has_key_id_unique unfolding keys_ok_def by metis
  have full: "j < length (po_issuer_keys origin) \<and> has_key_id (po_issuer_keys origin ! j) x \<and>
      j \<in> set (bucket_of origin (x ! 31))" if "po_key_index_by_full_id origin x = Some j" for x j
    using ok that unfolding keys_ok_def by blast
  have "j < length (po_issuer_keys origin) \<and> has_key_id (po_issuer_keys origin ! j) x \<and>
      j \<in> set (if x ! 31 = kid ! 31 then ?b else bucket_of origin (x ! 31))"
    if "((po_key_index_by_full_id origin)(kid := None)) x = Some j" for x j
    using that full [of x j] other [of x j] by (auto split: if_splits)
  moreover have "\<forall>b. sorted_wrt (<) (if b = kid ! 31 then removeAll i (bucket_of origin b) else bucket_of origin b)"
    using ok unfolding keys_ok_def by (simp add: removeAll_filter_not_eq sorted_wrt_filter)
  ultimately show ?thesis
    using ok unfolding keys_ok_def parts bucket_of_remove [OF Some] by (simp cong: if_cong) auto
qed

lemma keys_ok_step: "keys_ok origin \<Longrightarrow> keys_ok (key_step L origin op)"
  by (cases op) (simp_all add: keys_ok_add keys_ok_remove)

lemma trusted_step:
  assumes "keys_ok origin"
  shows "trusted (key_step L origin op) = trust_step L (trusted origin) op"
proof (cases op)
  case (Add_key key)
  have less: "i < length (po_issuer_keys origin)" if "po_key_index_by_full_id origin kid = Some i" for kid i
    using assms that unfolding keys_ok_def by blast
  obtain r key' where k: "BlindRsaPublicKey_key_id L key = (r, key')" by (cases "BlindRsaPublicKey_key_id L key")
  show ?thesis
  proof (cases r)
    case (Inr kid)
    have "trusted (key_step L origin op) x = trust_step L (trusted origin) op x" for x
      using less [of x] k Inr
      by (cases "po_key_index_by_full_id origin x")
        (auto simp: Add_key trusted_def PublicOrigin_add_issuer_key_def Let_def nth_append)
    then show ?thesis by blast
  qed (simp add: Add_key k PublicOrigin_add_issuer_key_def)
next
  case (Remove_key kid)
  then show ?thesis
    by (cases "po_key_index_by_full_id origin kid")
      (auto simp: fun_eq_iff trusted_def PublicOrigin_remove_issuer_key_def Let_def)
qed

definition run_key_ops ::
  "('m, 'd, 'r, 'p, 'k, 'b, 'z) rsa_api_scheme \<Rightarrow> 'p key_op list \<Rightarrow> 'p PublicOrigin \<Rightarrow> 'p PublicOrigin" where
  "run_key_ops L ops origin = foldl (key_step L) origin ops"

definition PublicOrigin_empty :: "OriginConfig \<Rightarrow> 'p PublicOrigin" where
  "PublicOrigin_empty config =
     \<lparr>po_config = config, po_issuer_keys = [], po_key_indices_by_truncated_id = Map.empty,
      po_key_index_by_full_id = Map.empty,
      po_replay_cache = ReplayCache_new (oc_redemption_window config) (oc_max_replay_cache_size config)\<rparr>"

lemma PublicOrigin_new_ops:
  "PublicOrigin_new L config keys = run_key_ops L (map Add_key keys) (PublicOrigin_empty config)"
  by (simp add: PublicOrigin_new_def run_key_ops_def PublicOrigin_empty_def foldl_map)

lemma keys_ok_empty: "keys_ok (PublicOrigin_empty config)"
  by (simp add: keys_ok_def PublicOrigin_empty_def bucket_of_def)

lemma run_key_ops_ok: "keys_ok origin \<Longrightarrow> keys_ok (run_key_ops L ops origin)"
  by (induction ops arbitrary: origin) (simp_all add: run_key_ops_def keys_ok_step)

lemma run_key_ops_trusted:
  "keys_ok origin \<Longrightarrow> trusted (run_key_ops L ops origin) = foldl (trust_step L) (trusted origin) ops"
  by (induction ops arbitrary: origin) (simp_all add: run_key_ops_def keys_ok_step trusted_step)

lemma run_key_ops_cache: "po_replay_cache (run_key_ops L ops origin) = po_replay_cache origin"
proof (induction ops arbitrary: origin)
  case (Cons op ops)
  have "po_replay_cache (key_step L origin op) = po_replay_cache origin"
    by (cases op) (auto simp: PublicOrigin_add_issuer_key_def PublicOrigin_remove_issuer_key_def Let_def
        split: prod.splits sum.splits option.splits)
  then show ?case using Cons by (simp add: run_key_ops_def)
qed (simp add: run_key_ops_def)

lemma trusted_empty [simp]: "trusted (PublicOrigin_empty config) = Map.empty"
  by (simp add: trusted_def PublicOrigin_empty_def fun_eq_iff)

text \<open>After an operation on another id, or after none, a removed key stays unknown.\<close>

lemma trust_removed:
  assumes "m kid = None" "\<forall>key. Add_key key \<in> set ops \<longrightarrow> fst (BlindRsaPublicKey_key_id L key) \<noteq> Inr kid"
  shows "foldl (trust_step L) m ops kid = None"
  using assms
proof (induction ops arbitrary: m)
  case (Cons op ops)
  have "trust_step L m op kid = None"
    using Cons.prems by (cases op) (auto split: prod.splits sum.splits)
  then show ?case using Cons by simp
qed simp

subsection \<open>When a token is accepted\<close>

lemma PublicOrigin_verify_eq:
  "fst (PublicOrigin_verify L origin token challenge) =
     (case Token_validate token of
        Inl e \<Rightarrow> Inl e
      | Inr _ \<Rightarrow>
          if tok_type token \<noteq> BLIND_RSA \<and> tok_type token \<noteq> PARTIALLY_BLIND_RSA then
            Err UNSUPPORTED_TOKEN_TYPE ''PublicOrigin only supports Blind RSA tokens''
          else
            (case fst (TokenChallenge_digest L challenge) of
               Inl e \<Rightarrow> Inl e
             | Inr d \<Rightarrow>
                 if tok_challenge_digest token \<noteq> d then Err INVALID_CHALLENGE ''Challenge digest mismatch''
                 else
                   (case trusted origin (tok_key_id token) of
                      None \<Rightarrow> Err ISSUER_UNKNOWN ''Unknown issuer key''
                    | Some key \<Rightarrow>
                        try_bind (AuthenticatorInput_serialize (authenticator_input token)) (\<lambda>input.
                          BlindRsaPublicKey_verify L key input (tok_authenticator token)))))"
  by (auto simp: PublicOrigin_verify_def trusted_def Let_def split: sum.splits prod.splits option.splits)

lemma PublicOrigin_accepts_iff:
  "fst (PublicOrigin_verify L origin token challenge) = Ok True \<longleftrightarrow>
     Token_validate token = Ok () \<and>
     (tok_type token = BLIND_RSA \<or> tok_type token = PARTIALLY_BLIND_RSA) \<and>
     fst (TokenChallenge_digest L challenge) = Ok (tok_challenge_digest token) \<and>
     (\<exists>key input. trusted origin (tok_key_id token) = Some key \<and>
        AuthenticatorInput_serialize (authenticator_input token) = Ok input \<and>
        BlindRsaPublicKey_verify L key input (tok_authenticator token) = Ok True)"
  unfolding PublicOrigin_verify_eq
  by (cases "AuthenticatorInput_serialize (authenticator_input token)") (auto split: sum.splits option.splits)

lemma PublicOrigin_verify_cache [simp]:
  "PublicOrigin_verify L (origin\<lparr>po_replay_cache := cache\<rparr>) = PublicOrigin_verify L origin"
  by (intro ext) (simp add: PublicOrigin_verify_def cong: sum.case_cong prod.case_cong option.case_cong if_cong)

lemma Origin_verify_cache [simp]:
  "Origin_verify L (origin\<lparr>or_replay_cache := cache\<rparr>) = Origin_verify L origin"
  by (intro ext) (simp add: Origin_verify_def cong: option.case_cong if_cong)

subsection \<open>Redemption\<close>

text \<open>A call to redeem a token; its outcome is final unless it says that the token was replayed.\<close>

record redeem_call =
  rd_elapsed :: nat
  rd_token :: Token
  rd_challenge :: TokenChallenge

definition replayed :: "bool result \<Rightarrow> bool" where
  "replayed r \<longleftrightarrow> (case r of Inl e \<Rightarrow> err_code e = TOKEN_REPLAYED | Inr _ \<Rightarrow> False)"

definition call_tick :: "redeem_call \<Rightarrow> u64" where "call_tick c = current_tick (rd_elapsed c)"

definition call_nonce :: "redeem_call \<Rightarrow> Nonce" where "call_nonce c = tok_nonce (rd_token c)"

definition public_redeem ::
  "('m, 'd, 'r, 'p, 'k, 'b, 'z) rsa_api_scheme \<Rightarrow> redeem_call \<Rightarrow> 'p PublicOrigin
     \<Rightarrow> bool result \<times> 'p PublicOrigin" where
  "public_redeem L c origin =
     (case PublicOrigin_verify_and_redeem L (rd_elapsed c) (rd_token c) (rd_challenge c) origin of
        ((r, _), origin) \<Rightarrow> (r, origin))"

definition origin_redeem ::
  "('m, 'd, 'r, 'p, 'k, 'b, 'z) rsa_api_scheme \<Rightarrow> redeem_call \<Rightarrow> ('p, 't) Origin
     \<Rightarrow> bool result \<times> ('p, 't) Origin" where
  "origin_redeem L c origin =
     (case Origin_verify_and_redeem L (rd_elapsed c) (rd_token c) (rd_challenge c) origin of
        ((r, _), origin) \<Rightarrow> (r, origin))"

lemma public_redeem_eq:
  "public_redeem L c origin =
     (case check_and_add_at (call_tick c) (call_nonce c) (po_replay_cache origin) of
        (fresh, cache) \<Rightarrow>
          (if fresh then fst (PublicOrigin_verify L origin (rd_token c) (rd_challenge c))
           else Err TOKEN_REPLAYED ''Token has already been redeemed'',
           origin\<lparr>po_replay_cache := cache\<rparr>))"
  by (simp add: public_redeem_def PublicOrigin_verify_and_redeem_def check_and_add_def call_tick_def
      call_nonce_def Let_def split: prod.splits)

lemma origin_redeem_eq:
  "origin_redeem L c origin =
     (case check_and_add_at (call_tick c) (call_nonce c) (or_replay_cache origin) of
        (fresh, cache) \<Rightarrow>
          (if fresh then fst (Origin_verify L origin (rd_token c) (rd_challenge c))
           else Err TOKEN_REPLAYED ''Token has already been redeemed'',
           origin\<lparr>or_replay_cache := cache\<rparr>))"
  by (simp add: origin_redeem_def Origin_verify_and_redeem_def check_and_add_def call_tick_def
      call_nonce_def Let_def split: prod.splits)

lemma rc_inv_mono: "rc_inv w m t c \<Longrightarrow> t \<le> t' \<Longrightarrow> rc_inv w m t' c"
  by (auto simp: rc_inv_def intro: order_trans)

interpretation public_redeemer: redeemer check_and_add_at rc_recorded rc_size "rc_inv w m" "rc_expired w" "Suc m"
    "public_redeem L" po_replay_cache call_tick call_nonce "\<lambda>r. \<not> replayed r"
  for w m and L :: "('m, 'd, 'r, 'p, 'k, 'b, 'z) rsa_api_scheme"
  by unfold_locales
    (auto simp: public_redeem_eq replayed_def intro: rc_inv_mono split: prod.splits if_splits)

interpretation origin_redeemer: redeemer check_and_add_at rc_recorded rc_size "rc_inv w m" "rc_expired w" "Suc m"
    "origin_redeem L" or_replay_cache call_tick call_nonce "\<lambda>r. \<not> replayed r"
  for w m and L :: "('m, 'd, 'r, 'p, 'k, 'b, 'z) rsa_api_scheme"
  by unfold_locales
    (auto simp: origin_redeem_eq replayed_def intro: rc_inv_mono split: prod.splits if_splits)

end
