(* ===== verification/PP_Token_Authenticator.thy ===== *)
theory PP_Token_Authenticator
  imports PP_Origin
begin

text \<open>
  \<open>TokenAuthenticator\<close> of src/core/token_authenticator.cpp: the keys of named issuers, an
  origin that verifies with copies of them, and a replay cache of its own: the set of the
  redeemed nonces and the queue of their entries. Times are nanoseconds of the steady clock;
  the mutex makes each operation one step. An operation that computes a challenge digest
  returns the challenge with its cache filled.
\<close>

record TokenAuthenticatorConfig =
  ac_issuer_name :: string
  ac_origin_names :: "string list"
  ac_redemption_window :: int
  ac_replay_window :: int
  ac_require_redemption_context :: bool
  ac_max_replay_cache_size :: nat

record ValidationResult =
  vr_valid :: bool
  vr_error_code :: "ErrorCode option"
  vr_error_message :: "string option"
  vr_challenge_digest :: "ChallengeDigest option"

definition ValidationResult_success :: "ChallengeDigest \<Rightarrow> ValidationResult" where
  "ValidationResult_success digest =
     \<lparr>vr_valid = True, vr_error_code = None, vr_error_message = None, vr_challenge_digest = Some digest\<rparr>"

definition ValidationResult_failure :: "ErrorCode \<Rightarrow> string \<Rightarrow> ValidationResult" where
  "ValidationResult_failure code message =
     \<lparr>vr_valid = False, vr_error_code = Some code,
      vr_error_message = (if message = [] then None else Some message), vr_challenge_digest = None\<rparr>"

record NonceEntry =
  ne_nonce :: Nonce
  ne_timestamp :: int

record ('p, 't) TokenAuthenticator =
  ta_config :: TokenAuthenticatorConfig
  ta_origin :: "('p, 't) Origin"
  ta_rsa_keys :: "string \<rightharpoonup> 'p BlindRsaPublicKey list"
  ta_voprf_keys :: "string \<rightharpoonup> 't VoprfPublicKey list"
  ta_redeemed_nonces :: "Nonce set"
  ta_nonce_entries :: "NonceEntry list"

definition DEFAULT_MAX_AUTHENTICATOR_CACHE_SIZE :: nat where
  "DEFAULT_MAX_AUTHENTICATOR_CACHE_SIZE = 100000"

text \<open>The configuration of the origin keeps the default size of its cache.\<close>

definition authenticator_origin_config :: "TokenAuthenticatorConfig \<Rightarrow> OriginConfig" where
  "authenticator_origin_config config =
     \<lparr>oc_issuer_name = ac_issuer_name config, oc_origin_names = ac_origin_names config,
      oc_redemption_window = ac_redemption_window config,
      oc_require_redemption_context = ac_require_redemption_context config,
      oc_max_replay_cache_size = 100000\<rparr>"

definition TokenAuthenticator_new :: "TokenAuthenticatorConfig \<Rightarrow> ('p, 't) TokenAuthenticator" where
  "TokenAuthenticator_new config =
     \<lparr>ta_config = config, ta_origin = Origin_new (authenticator_origin_config config),
      ta_rsa_keys = Map.empty, ta_voprf_keys = Map.empty, ta_redeemed_nonces = {}, ta_nonce_entries = []\<rparr>"

subsection \<open>The replay cache\<close>

text \<open>The two loops that drop entries from the front of the queue.\<close>

fun prune_entries :: "int \<Rightarrow> NonceEntry list \<Rightarrow> Nonce set \<Rightarrow> NonceEntry list \<times> Nonce set" where
  "prune_entries cutoff [] redeemed = ([], redeemed)"
| "prune_entries cutoff (e # es) redeemed =
     (if ne_timestamp e < cutoff then prune_entries cutoff es (redeemed - {ne_nonce e})
      else (e # es, redeemed))"

fun evict_entries :: "nat \<Rightarrow> NonceEntry list \<Rightarrow> Nonce set \<Rightarrow> NonceEntry list \<times> Nonce set" where
  "evict_entries max_size [] redeemed = ([], redeemed)"
| "evict_entries max_size (e # es) redeemed =
     (if max_size \<le> card redeemed then evict_entries max_size es (redeemed - {ne_nonce e})
      else (e # es, redeemed))"

text \<open>
  The window in nanoseconds, the unit of the clock. The code converts in 64-bit integers, which
  overflow for windows of more than 292 years; the model is exact below that.
\<close>

definition replay_window_ns :: "TokenAuthenticatorConfig \<Rightarrow> int" where
  "replay_window_ns config = ac_replay_window config * 1000000000"

definition authenticator_max_size :: "TokenAuthenticatorConfig \<Rightarrow> nat" where
  "authenticator_max_size config =
     (if ac_max_replay_cache_size config > 0 then ac_max_replay_cache_size config
      else DEFAULT_MAX_AUTHENTICATOR_CACHE_SIZE)"

definition check_and_add_nonce ::
  "int \<Rightarrow> Nonce \<Rightarrow> ('p, 't) TokenAuthenticator \<Rightarrow> bool \<times> ('p, 't) TokenAuthenticator" where
  "check_and_add_nonce now nonce auth =
     (let cutoff = now - replay_window_ns (ta_config auth);
          (entries, redeemed) = prune_entries cutoff (ta_nonce_entries auth) (ta_redeemed_nonces auth);
          max_size = authenticator_max_size (ta_config auth);
          (entries, redeemed) = evict_entries max_size entries redeemed
      in if nonce \<in> redeemed then
           (False, auth\<lparr>ta_nonce_entries := entries, ta_redeemed_nonces := redeemed\<rparr>)
         else
           (True, auth\<lparr>ta_nonce_entries := entries @ [\<lparr>ne_nonce = nonce, ne_timestamp = now\<rparr>],
                       ta_redeemed_nonces := insert nonce redeemed\<rparr>))"

subsection \<open>Issuers\<close>

definition add_to_list :: "string \<Rightarrow> 'k \<Rightarrow> (string \<rightharpoonup> 'k list) \<Rightarrow> (string \<rightharpoonup> 'k list)" where
  "add_to_list name key m =
     (case m name of
        Some keys \<Rightarrow> m(name \<mapsto> keys @ [key])
      | None \<Rightarrow> m(name \<mapsto> [key]))"

definition TokenAuthenticator_add_trusted_rsa_key ::
  "('m, 'd, 'r, 'p, 'k, 'b, 'z) rsa_api_scheme \<Rightarrow> string \<Rightarrow> 'p BlindRsaPublicKey
     \<Rightarrow> ('p, 't) TokenAuthenticator \<Rightarrow> ('p, 't) TokenAuthenticator" where
  "TokenAuthenticator_add_trusted_rsa_key L issuer_name key auth =
     (let auth = (case BlindRsaPublicKey_to_spki L key of
                    Inl e \<Rightarrow> auth
                  | Inr spki \<Rightarrow>
                      (case BlindRsaPublicKey_from_spki L spki of
                         Inl e \<Rightarrow> auth
                       | Inr key_copy \<Rightarrow>
                           auth\<lparr>ta_origin := Origin_add_blind_rsa_key L key_copy (ta_origin auth)\<rparr>))
      in auth\<lparr>ta_rsa_keys := add_to_list issuer_name key (ta_rsa_keys auth)\<rparr>)"

definition TokenAuthenticator_add_trusted_voprf_key ::
  "('m, 'd, 'r, 'p, 'k, 'b, 't, 'z) ossl_scheme \<Rightarrow> string \<Rightarrow> 't VoprfPublicKey
     \<Rightarrow> ('q, 't) TokenAuthenticator \<Rightarrow> ('q, 't) TokenAuthenticator" where
  "TokenAuthenticator_add_trusted_voprf_key L issuer_name key auth =
     (let auth = (case VoprfPublicKey_to_bytes L key of
                    Inl e \<Rightarrow> auth
                  | Inr bytes \<Rightarrow>
                      (case VoprfPublicKey_from_bytes L bytes of
                         Inl e \<Rightarrow> auth
                       | Inr key_copy \<Rightarrow>
                           auth\<lparr>ta_origin := Origin_add_voprf_key L key_copy (ta_origin auth)\<rparr>))
      in auth\<lparr>ta_voprf_keys := add_to_list issuer_name key (ta_voprf_keys auth)\<rparr>)"

definition TokenAuthenticator_remove_trusted_issuer ::
  "string \<Rightarrow> ('p, 't) TokenAuthenticator \<Rightarrow> ('p, 't) TokenAuthenticator" where
  "TokenAuthenticator_remove_trusted_issuer issuer_name auth =
     auth\<lparr>ta_rsa_keys := (ta_rsa_keys auth)(issuer_name := None),
          ta_voprf_keys := (ta_voprf_keys auth)(issuer_name := None)\<rparr>"

definition TokenAuthenticator_is_trusted :: "('p, 't) TokenAuthenticator \<Rightarrow> string \<Rightarrow> bool" where
  "TokenAuthenticator_is_trusted auth issuer_name \<longleftrightarrow>
     ta_rsa_keys auth issuer_name \<noteq> None \<or> ta_voprf_keys auth issuer_name \<noteq> None"

definition TokenAuthenticator_create_challenge ::
  "('p, 't) TokenAuthenticator \<Rightarrow> TokenType \<Rightarrow> ChallengeDigest option \<Rightarrow> string list
     \<Rightarrow> TokenChallenge result" where
  "TokenAuthenticator_create_challenge auth type redemption_context additional_origin_info =
     (let origin_info = additional_origin_info @ ac_origin_names (ta_config auth)
      in Ok (TokenChallenge_create type (ac_issuer_name (ta_config auth)) redemption_context origin_info))"

subsection \<open>Validation\<close>

text \<open>The checks that \<open>validate\<close> and \<open>validate_and_redeem\<close> share, in their order.\<close>

definition check_token ::
  "('m, 'd, 'r, 'p, 'k, 'b, 'z) rsa_api_scheme \<Rightarrow> ('p, 't) Origin \<Rightarrow> Token \<Rightarrow> TokenChallenge
     \<Rightarrow> ValidationResult \<times> TokenChallenge" where
  "check_token L origin token expected_challenge =
     (case Token_validate token of
        Inl e \<Rightarrow> (ValidationResult_failure (err_code e) (err_message e), expected_challenge)
      | Inr _ \<Rightarrow>
          (case TokenChallenge_digest L expected_challenge of
             (Inl e, challenge) \<Rightarrow>
               (ValidationResult_failure CRYPTO_ERROR ''Failed to compute challenge digest'', challenge)
           | (Inr expected_digest, challenge) \<Rightarrow>
               if \<not> constant_time_equal (tok_challenge_digest token) expected_digest then
                 (ValidationResult_failure INVALID_CHALLENGE ''Challenge digest mismatch'', challenge)
               else
                 (case Origin_verify L origin token challenge of
                    (Inl e, challenge) \<Rightarrow>
                      (ValidationResult_failure (err_code e) (err_message e), challenge)
                  | (Inr valid, challenge) \<Rightarrow>
                      (if \<not> valid then
                         ValidationResult_failure TOKEN_INVALID ''Signature verification failed''
                       else ValidationResult_success expected_digest, challenge))))"

definition TokenAuthenticator_validate ::
  "('m, 'd, 'r, 'p, 'k, 'b, 'z) rsa_api_scheme \<Rightarrow> ('p, 't) TokenAuthenticator \<Rightarrow> Token \<Rightarrow> TokenChallenge
     \<Rightarrow> ValidationResult \<times> TokenChallenge" where
  "TokenAuthenticator_validate L auth token expected_challenge =
     check_token L (ta_origin auth) token expected_challenge"

definition TokenAuthenticator_validate_and_redeem ::
  "('m, 'd, 'r, 'p, 'k, 'b, 'z) rsa_api_scheme \<Rightarrow> int \<Rightarrow> Token \<Rightarrow> TokenChallenge
     \<Rightarrow> ('p, 't) TokenAuthenticator \<Rightarrow> (ValidationResult \<times> TokenChallenge) \<times> ('p, 't) TokenAuthenticator" where
  "TokenAuthenticator_validate_and_redeem L now token expected_challenge auth =
     (if tok_nonce token \<in> ta_redeemed_nonces auth then
        ((ValidationResult_failure TOKEN_REPLAYED ''Token has already been redeemed'', expected_challenge),
         auth)
      else
        (case check_token L (ta_origin auth) token expected_challenge of
           (r, challenge) \<Rightarrow>
             if \<not> vr_valid r then ((r, challenge), auth)
             else
               (case check_and_add_nonce now (tok_nonce token) auth of
                  (fresh, auth) \<Rightarrow>
                    if \<not> fresh then
                      ((ValidationResult_failure TOKEN_REPLAYED ''Token has already been redeemed'', challenge),
                       auth)
                    else ((r, challenge), auth))))"

definition TokenAuthenticator_would_be_replay :: "('p, 't) TokenAuthenticator \<Rightarrow> Token \<Rightarrow> bool" where
  "TokenAuthenticator_would_be_replay auth token \<longleftrightarrow> tok_nonce token \<in> ta_redeemed_nonces auth"

definition TokenAuthenticator_mark_redeemed ::
  "int \<Rightarrow> Token \<Rightarrow> ('p, 't) TokenAuthenticator \<Rightarrow> ('p, 't) TokenAuthenticator" where
  "TokenAuthenticator_mark_redeemed now token auth = snd (check_and_add_nonce now (tok_nonce token) auth)"

definition TokenAuthenticator_redemption_cache_size :: "('p, 't) TokenAuthenticator \<Rightarrow> nat" where
  "TokenAuthenticator_redemption_cache_size auth = card (ta_redeemed_nonces auth)"

definition TokenAuthenticator_prune_redemption_cache ::
  "int \<Rightarrow> ('p, 't) TokenAuthenticator \<Rightarrow> ('p, 't) TokenAuthenticator" where
  "TokenAuthenticator_prune_redemption_cache now auth =
     (let cutoff = now - replay_window_ns (ta_config auth);
          (entries, redeemed) = prune_entries cutoff (ta_nonce_entries auth) (ta_redeemed_nonces auth)
      in auth\<lparr>ta_nonce_entries := entries, ta_redeemed_nonces := redeemed\<rparr>)"

definition TokenAuthenticator_config :: "('p, 't) TokenAuthenticator \<Rightarrow> TokenAuthenticatorConfig" where
  "TokenAuthenticator_config = ta_config"

subsection \<open>The cache is a replay store\<close>

text \<open>
  The queue holds one entry for each redeemed nonce, oldest first. \<open>cache_inv w m t\<close> says so
  for a cache with the window \<open>w\<close> and the maximum \<open>m\<close> at time \<open>t\<close>.
\<close>

definition entries_ok :: "NonceEntry list \<Rightarrow> Nonce set \<Rightarrow> bool" where
  "entries_ok es redeemed \<longleftrightarrow>
     redeemed = set (map ne_nonce es) \<and> distinct (map ne_nonce es) \<and> sorted (map ne_timestamp es)"

definition cache_inv :: "int \<Rightarrow> nat \<Rightarrow> int \<Rightarrow> ('p, 't) TokenAuthenticator \<Rightarrow> bool" where
  "cache_inv w m t auth \<longleftrightarrow>
     replay_window_ns (ta_config auth) = w \<and> authenticator_max_size (ta_config auth) = m \<and>
     entries_ok (ta_nonce_entries auth) (ta_redeemed_nonces auth) \<and>
     card (ta_redeemed_nonces auth) \<le> m \<and> (\<forall>e \<in> set (ta_nonce_entries auth). ne_timestamp e \<le> t)"

definition redeemed_at :: "('p, 't) TokenAuthenticator \<Rightarrow> Nonce \<Rightarrow> int option" where
  "redeemed_at auth = map_of (map (\<lambda>e. (ne_nonce e, ne_timestamp e)) (ta_nonce_entries auth))"

definition nonce_expired :: "int \<Rightarrow> int \<Rightarrow> int \<Rightarrow> bool" where
  "nonce_expired w u t \<longleftrightarrow> u < t - w"

lemma entries_ok_Cons [simp]:
  "entries_ok (e # es) redeemed \<longleftrightarrow>
     redeemed = insert (ne_nonce e) (set (map ne_nonce es)) \<and> ne_nonce e \<notin> set (map ne_nonce es)
     \<and> (\<forall>e' \<in> set es. ne_timestamp e \<le> ne_timestamp e') \<and> entries_ok es (set (map ne_nonce es))"
  by (auto simp: entries_ok_def)

lemma entries_ok_tl: "entries_ok (e # es) redeemed \<Longrightarrow> entries_ok es (redeemed - {ne_nonce e})"
  by (auto simp: entries_ok_def)

lemma card_entries: "entries_ok es redeemed \<Longrightarrow> card redeemed = length es"
  by (metis entries_ok_def distinct_card length_map)

lemma prune_entries_eq:
  "entries_ok es redeemed \<Longrightarrow>
     prune_entries cutoff es redeemed =
       (filter (\<lambda>e. cutoff \<le> ne_timestamp e) es, set (map ne_nonce (filter (\<lambda>e. cutoff \<le> ne_timestamp e) es)))"
proof (induction es arbitrary: redeemed)
  case (Cons e es)
  show ?case
  proof (cases "ne_timestamp e < cutoff")
    case True
    then show ?thesis using Cons.IH [OF entries_ok_tl [OF Cons.prems]] by simp
  next
    case False
    have "filter (\<lambda>e. cutoff \<le> ne_timestamp e) es = es"
      using False Cons.prems by (auto simp: filter_id_conv)
    then show ?thesis using False Cons.prems by simp
  qed
qed (simp add: entries_ok_def)

text \<open>Eviction drops the oldest entries until there is room for one more.\<close>

lemma evict_entries_eq:
  "entries_ok es redeemed \<Longrightarrow> 0 < m \<Longrightarrow>
     evict_entries m es redeemed =
       (drop (Suc (length es) - m) es, set (map ne_nonce (drop (Suc (length es) - m) es)))"
proof (induction es arbitrary: redeemed)
  case (Cons e es)
  have len: "card redeemed = Suc (length es)" using card_entries [OF Cons.prems(1)] by simp
  show ?case
  proof (cases "m \<le> Suc (length es)")
    case True
    then have "Suc (length (e # es)) - m = Suc (Suc (length es) - m)" by simp
    then show ?thesis using True len Cons.IH [OF entries_ok_tl [OF Cons.prems(1)] Cons.prems(2)] by simp
  qed (use len Cons.prems in simp)
qed (simp add: entries_ok_def)

lemma entries_ok_filter: "entries_ok es redeemed \<Longrightarrow> entries_ok (filter P es) (set (map ne_nonce (filter P es)))"
  by (auto simp: entries_ok_def distinct_map_filter sorted_filter)

lemma entries_ok_drop: "entries_ok es redeemed \<Longrightarrow> entries_ok (drop k es) (set (map ne_nonce (drop k es)))"
  by (auto simp: entries_ok_def drop_map [symmetric] sorted_wrt_drop)

text \<open>The entries a check keeps: those in the window, the newest when there is no room.\<close>

definition kept_entries :: "int \<Rightarrow> ('p, 't) TokenAuthenticator \<Rightarrow> NonceEntry list" where
  "kept_entries now auth =
     (let es = filter (\<lambda>e. now - replay_window_ns (ta_config auth) \<le> ne_timestamp e) (ta_nonce_entries auth)
      in drop (Suc (length es) - authenticator_max_size (ta_config auth)) es)"

lemma authenticator_max_size_pos [simp]: "0 < authenticator_max_size config"
  by (simp add: authenticator_max_size_def DEFAULT_MAX_AUTHENTICATOR_CACHE_SIZE_def)

lemma check_and_add_nonce_eq:
  assumes "entries_ok (ta_nonce_entries auth) (ta_redeemed_nonces auth)"
  shows "check_and_add_nonce now n auth =
    (let es = kept_entries now auth; fresh = (n \<notin> set (map ne_nonce es));
         es = (if fresh then es @ [\<lparr>ne_nonce = n, ne_timestamp = now\<rparr>] else es)
     in (fresh, auth\<lparr>ta_nonce_entries := es, ta_redeemed_nonces := set (map ne_nonce es)\<rparr>))"
  unfolding check_and_add_nonce_def kept_entries_def Let_def prune_entries_eq [OF assms] prod.case
    evict_entries_eq [OF entries_ok_filter [OF assms] authenticator_max_size_pos]
  by simp

lemma kept_entries_ok:
  assumes "cache_inv w m t auth"
  shows "entries_ok (kept_entries now auth) (set (map ne_nonce (kept_entries now auth)))"
    and "set (kept_entries now auth) \<subseteq> set (ta_nonce_entries auth)"
    and "length (kept_entries now auth) < m"
    and "length (kept_entries now auth) \<le> length (ta_nonce_entries auth)"
proof -
  have ok: "entries_ok (ta_nonce_entries auth) (ta_redeemed_nonces auth)" and m: "authenticator_max_size (ta_config auth) = m"
    using assms by (simp_all add: cache_inv_def)
  show "entries_ok (kept_entries now auth) (set (map ne_nonce (kept_entries now auth)))"
    unfolding kept_entries_def Let_def by (rule entries_ok_drop [OF entries_ok_filter [OF ok]])
  show "set (kept_entries now auth) \<subseteq> set (ta_nonce_entries auth)"
    using set_drop_subset by (fastforce simp: kept_entries_def Let_def)
  show "length (kept_entries now auth) < m"
    using authenticator_max_size_pos [of "ta_config auth"] m by (simp add: kept_entries_def Let_def)
  show "length (kept_entries now auth) \<le> length (ta_nonce_entries auth)"
    by (simp add: kept_entries_def Let_def le_trans [OF diff_le_self length_filter_le])
qed

lemma check_and_add_nonce_parts:
  assumes "cache_inv w m t auth"
  shows "fst (check_and_add_nonce now n auth) \<longleftrightarrow> n \<notin> ne_nonce ` set (kept_entries now auth)"
    and "ta_nonce_entries (snd (check_and_add_nonce now n auth)) =
      kept_entries now auth @
        (if fst (check_and_add_nonce now n auth) then [\<lparr>ne_nonce = n, ne_timestamp = now\<rparr>] else [])"
    and "ta_redeemed_nonces (snd (check_and_add_nonce now n auth)) =
      ne_nonce ` set (ta_nonce_entries (snd (check_and_add_nonce now n auth)))"
    and "ta_config (snd (check_and_add_nonce now n auth)) = ta_config auth"
    and "ta_origin (snd (check_and_add_nonce now n auth)) = ta_origin auth"
  using assms by (simp_all add: cache_inv_def check_and_add_nonce_eq Let_def)

lemma cache_inv_add:
  assumes "cache_inv w m t auth" "t \<le> t'"
  shows "cache_inv w m t' (snd (check_and_add_nonce t' n auth))"
proof -
  note p = check_and_add_nonce_parts [OF assms(1), of t' n] and k = kept_entries_ok [OF assms(1), of t']
  have le: "ne_timestamp e \<le> t'" if "e \<in> set (kept_entries t' auth)" for e
    using that k(2) assms unfolding cache_inv_def by fastforce
  have ok: "entries_ok (ta_nonce_entries (snd (check_and_add_nonce t' n auth)))
      (ta_redeemed_nonces (snd (check_and_add_nonce t' n auth)))"
    using k(1) le p(1) unfolding p(2,3) by (auto simp: entries_ok_def sorted_append)
  have "length (ta_nonce_entries (snd (check_and_add_nonce t' n auth))) \<le> m" using k(3) by (simp add: p(2))
  then show ?thesis using ok assms le by (auto simp: cache_inv_def p(2,4) card_entries [OF ok])
qed

lemma redeemed_at_iff:
  assumes "entries_ok (ta_nonce_entries auth) redeemed"
  shows "redeemed_at auth n = Some u \<longleftrightarrow> \<lparr>ne_nonce = n, ne_timestamp = u\<rparr> \<in> set (ta_nonce_entries auth)"
proof -
  have "distinct (map fst (map (\<lambda>e. (ne_nonce e, ne_timestamp e)) (ta_nonce_entries auth)))"
    using assms by (simp add: entries_ok_def comp_def)
  then have "redeemed_at auth n = Some u \<longleftrightarrow> (n, u) \<in> (\<lambda>e. (ne_nonce e, ne_timestamp e)) ` set (ta_nonce_entries auth)"
    unfolding redeemed_at_def by (subst map_of_eq_Some_iff) simp_all
  also have "\<dots> \<longleftrightarrow> (\<exists>e \<in> set (ta_nonce_entries auth). ne_nonce e = n \<and> ne_timestamp e = u)" by auto
  also have "\<dots> \<longleftrightarrow> \<lparr>ne_nonce = n, ne_timestamp = u\<rparr> \<in> set (ta_nonce_entries auth)"
    by (metis NonceEntry.select_convs(1,2) NonceEntry.surjective old.unit.exhaust)
  finally show ?thesis .
qed

interpretation authenticator: nonce_store check_and_add_nonce redeemed_at
    TokenAuthenticator_redemption_cache_size "cache_inv w m" "nonce_expired w" m
  for w m
proof unfold_locales
  fix t t' :: int and auth :: "('p, 't) TokenAuthenticator" and n
  assume inv: "cache_inv w m t auth" and le: "t \<le> t'"
  note p = check_and_add_nonce_parts [OF inv] and k = kept_entries_ok [OF inv]
  note inv' = cache_inv_add [OF inv le]
  have ok: "entries_ok (ta_nonce_entries auth) (ta_redeemed_nonces auth)"
    and w: "replay_window_ns (ta_config auth) = w" and m: "authenticator_max_size (ta_config auth) = m"
    using inv by (simp_all add: cache_inv_def)
  have ok': "entries_ok (ta_nonce_entries (snd (check_and_add_nonce t' n auth)))
      (ta_redeemed_nonces (snd (check_and_add_nonce t' n auth)))" for n
    using inv' by (simp add: cache_inv_def)
  note r = redeemed_at_iff [OF ok] and r' = redeemed_at_iff [OF ok']
  show "cache_inv w m t' (snd (check_and_add_nonce t' n auth))" by (rule inv')
  show "redeemed_at (snd (check_and_add_nonce t' n auth)) n = Some t'" if "fst (check_and_add_nonce t' n auth)"
    using that by (simp add: r' p)
  have kept_live: "e \<in> set (ta_nonce_entries auth) \<and> t' - w \<le> ne_timestamp e" if "e \<in> set (kept_entries t' auth)" for e
    using that set_drop_subset by (fastforce simp: kept_entries_def Let_def w)
  show "fst (check_and_add_nonce t' n auth)"
    if "case redeemed_at auth n of None \<Rightarrow> True | Some u \<Rightarrow> nonce_expired w u t'"
  proof (rule ccontr)
    assume "\<not> fst (check_and_add_nonce t' n auth)"
    then obtain e where e: "e \<in> set (kept_entries t' auth)" "ne_nonce e = n" by (auto simp: p(1))
    have "\<lparr>ne_nonce = n, ne_timestamp = ne_timestamp e\<rparr> = e" using e(2) by (cases e) simp
    then have "redeemed_at auth n = Some (ne_timestamp e)" using kept_live [OF e(1)] by (simp add: r)
    then show False using that kept_live [OF e(1)] by (simp add: nonce_expired_def)
  qed
  show "TokenAuthenticator_redemption_cache_size (snd (check_and_add_nonce t' n auth))
      \<le> Suc (TokenAuthenticator_redemption_cache_size auth)"
    using k(4) [of t'] card_entries [OF ok', of n] card_entries [OF ok]
    by (auto simp: TokenAuthenticator_redemption_cache_size_def p(2))
  fix u
  assume few: "TokenAuthenticator_redemption_cache_size auth < m" and n: "redeemed_at auth n = Some u"
    and live: "\<not> nonce_expired w u t'"
  have "length (filter (\<lambda>e. t' - w \<le> ne_timestamp e) (ta_nonce_entries auth)) < m"
    using few card_entries [OF ok] by (simp add: TokenAuthenticator_redemption_cache_size_def le_less_trans [OF length_filter_le])
  then have all: "kept_entries t' auth = filter (\<lambda>e. t' - w \<le> ne_timestamp e) (ta_nonce_entries auth)"
    by (simp add: kept_entries_def w m)
  have kept: "\<lparr>ne_nonce = n, ne_timestamp = u\<rparr> \<in> set (kept_entries t' auth)"
    using n live by (simp add: r all nonce_expired_def)
  then show "\<not> fst (check_and_add_nonce t' n auth)" by (force simp: p(1))
  show "redeemed_at (snd (check_and_add_nonce t' x auth)) n = Some u" for x
    using kept by (simp add: r' p(2))
qed (auto simp: nonce_expired_def)

text \<open>At capacity the oldest entry goes, in the window or not, and its nonce counts as new.\<close>

lemma oldest_forgotten:
  assumes inv: "cache_inv w m t auth" and full: "card (ta_redeemed_nonces auth) = m"
    and live: "\<forall>e \<in> set (ta_nonce_entries auth). \<not> nonce_expired w (ne_timestamp e) t'"
    and oldest: "ta_nonce_entries auth = e # es"
  shows "fst (check_and_add_nonce t' (ne_nonce e) auth)"
proof -
  have ok: "entries_ok (e # es) (ta_redeemed_nonces auth)"
    and w: "replay_window_ns (ta_config auth) = w" and m: "authenticator_max_size (ta_config auth) = m"
    using inv oldest by (simp_all add: cache_inv_def)
  have "filter (\<lambda>e. t' - w \<le> ne_timestamp e) (e # es) = e # es"
    using live oldest by (simp add: filter_id_conv nonce_expired_def not_less)
  moreover have "m = Suc (length es)" using full card_entries [OF ok] by simp
  ultimately have "kept_entries t' auth = es"
    by (simp add: kept_entries_def oldest w m del: filter.simps)
  then show ?thesis using ok by (simp add: check_and_add_nonce_parts(1) [OF inv])
qed

subsection \<open>When a token is valid\<close>

lemma Origin_verify_digest:
  assumes "TokenChallenge_digest L challenge = (Ok d, challenge')"
  shows "fst (Origin_verify L origin token challenge') = fst (Origin_verify L origin token challenge)"
  using TokenChallenge_digest_again [OF assms] assms
  by (auto simp: Origin_verify_def PublicOrigin_verify_def split: option.splits sum.splits)

lemma Origin_verify_valid:
  assumes "fst (Origin_verify L origin token challenge) = Ok True"
  shows "Token_validate token = Ok () \<and>
    fst (TokenChallenge_digest L challenge) = Ok (tok_challenge_digest token)"
proof -
  obtain po where "fst (PublicOrigin_verify L po token challenge) = Ok True"
    using assms by (auto simp: Origin_verify_def split: if_splits option.splits)
  then show ?thesis by (simp add: PublicOrigin_accepts_iff)
qed

text \<open>A token is valid exactly when the origin accepts it; the digest it reports is its own.\<close>

lemma check_token_valid_iff:
  "vr_valid (fst (check_token L origin token challenge)) \<longleftrightarrow>
     fst (Origin_verify L origin token challenge) = Ok True"
proof
  assume valid: "vr_valid (fst (check_token L origin token challenge))"
  then obtain d challenge' where "Token_validate token = Ok ()"
    and d: "TokenChallenge_digest L challenge = (Ok d, challenge')" and "tok_challenge_digest token = d"
    and "fst (Origin_verify L origin token challenge') = Ok True"
    by (auto simp: check_token_def ValidationResult_failure_def split: sum.splits prod.splits if_splits)
  then show "fst (Origin_verify L origin token challenge) = Ok True"
    using Origin_verify_digest [OF d, of origin token] by metis
next
  assume ok: "fst (Origin_verify L origin token challenge) = Ok True"
  note v = Origin_verify_valid [OF ok]
  then obtain challenge' where d: "TokenChallenge_digest L challenge = (Ok (tok_challenge_digest token), challenge')"
    by (metis prod.collapse)
  have "fst (Origin_verify L origin token challenge') = Ok True"
    using ok Origin_verify_digest [OF d, of origin token] by metis
  then show "vr_valid (fst (check_token L origin token challenge))"
    using v by (auto simp: check_token_def d ValidationResult_success_def split: prod.splits sum.splits)
qed

lemma check_token_failure:
  "\<not> vr_valid (fst (check_token L origin token challenge)) \<Longrightarrow>
     vr_error_code (fst (check_token L origin token challenge)) \<noteq> None
     \<and> vr_challenge_digest (fst (check_token L origin token challenge)) = None"
  by (auto simp: check_token_def ValidationResult_failure_def ValidationResult_success_def
      split: sum.splits prod.splits if_splits)

lemma check_token_digest:
  assumes "vr_valid (fst (check_token L origin token challenge))"
  shows "fst (check_token L origin token challenge) = ValidationResult_success (tok_challenge_digest token)"
  using assms
  by (auto simp: check_token_def ValidationResult_failure_def split: sum.splits prod.splits if_splits)

definition authenticator_redeem ::
  "('m, 'd, 'r, 'p, 'k, 'b, 'z) rsa_api_scheme \<Rightarrow> redeem_call \<Rightarrow> ('p, 't) TokenAuthenticator
     \<Rightarrow> ValidationResult \<times> ('p, 't) TokenAuthenticator" where
  "authenticator_redeem L c auth =
     (case TokenAuthenticator_validate_and_redeem L (int (rd_elapsed c)) (rd_token c) (rd_challenge c) auth of
        ((r, _), auth) \<Rightarrow> (r, auth))"

lemma authenticator_redeem_eq:
  "authenticator_redeem L c auth =
     (if call_nonce c \<in> ta_redeemed_nonces auth then
        (ValidationResult_failure TOKEN_REPLAYED ''Token has already been redeemed'', auth)
      else if fst (Origin_verify L (ta_origin auth) (rd_token c) (rd_challenge c)) \<noteq> Ok True then
        (fst (check_token L (ta_origin auth) (rd_token c) (rd_challenge c)), auth)
      else
        (case check_and_add_nonce (int (rd_elapsed c)) (call_nonce c) auth of
           (fresh, auth) \<Rightarrow>
             (if fresh then ValidationResult_success (tok_challenge_digest (rd_token c))
              else ValidationResult_failure TOKEN_REPLAYED ''Token has already been redeemed'', auth)))"
  using check_token_valid_iff [of L "ta_origin auth" "rd_token c" "rd_challenge c"]
    check_token_digest [of L "ta_origin auth" "rd_token c" "rd_challenge c"]
  by (auto simp: authenticator_redeem_def TokenAuthenticator_validate_and_redeem_def call_nonce_def
      split: prod.splits)

text \<open>A token that does not verify leaves the authenticator as it was.\<close>

lemma redeem_unverified:
  "fst (Origin_verify L (ta_origin auth) (rd_token c) (rd_challenge c)) \<noteq> Ok True \<Longrightarrow>
     snd (authenticator_redeem L c auth) = auth"
  by (simp add: authenticator_redeem_eq)

lemma cache_inv_mono: "cache_inv w m t auth \<Longrightarrow> t \<le> t' \<Longrightarrow> cache_inv w m t' auth"
  by (force simp: cache_inv_def)

interpretation authenticator_redeemer: redeemer check_and_add_nonce redeemed_at
    TokenAuthenticator_redemption_cache_size "cache_inv w m" "nonce_expired w" m
    "authenticator_redeem L" "\<lambda>auth. auth" "\<lambda>c. int (rd_elapsed c)" call_nonce vr_valid
  for w m and L :: "('m, 'd, 'r, 'p, 'k, 'b, 'z) rsa_api_scheme"
proof unfold_locales
  fix c :: redeem_call and auth :: "('p, 't) TokenAuthenticator"
  have "\<not> vr_valid (fst (check_token L (ta_origin auth) (rd_token c) (rd_challenge c)))"
    if "fst (Origin_verify L (ta_origin auth) (rd_token c) (rd_challenge c)) \<noteq> Ok True"
    using that by (simp add: check_token_valid_iff)
  then show "vr_valid (fst (authenticator_redeem L c auth)) \<Longrightarrow>
      fst (check_and_add_nonce (int (rd_elapsed c)) (call_nonce c) auth)
      \<and> snd (authenticator_redeem L c auth) = snd (check_and_add_nonce (int (rd_elapsed c)) (call_nonce c) auth)"
    by (auto simp: authenticator_redeem_eq ValidationResult_failure_def split: if_splits prod.splits)
  show "snd (authenticator_redeem L c auth) = auth \<or>
      snd (authenticator_redeem L c auth) = snd (check_and_add_nonce (int (rd_elapsed c)) (call_nonce c) auth)"
    by (auto simp: authenticator_redeem_eq split: prod.splits)
qed (auto intro: cache_inv_mono)

subsection \<open>Reachable authenticators\<close>

text \<open>
  \<open>auth_reach L config t auth\<close>: some sequence of operations whose clock readings do not
  decrease and end at \<open>t\<close> leads from the constructor to \<open>auth\<close>. Operations that only read
  are not steps.
\<close>

inductive auth_reach ::
  "('m, 'd, 'r, 'p, 'k, 'b, 't, 'z) ossl_scheme \<Rightarrow> TokenAuthenticatorConfig \<Rightarrow> int
     \<Rightarrow> ('p, 't) TokenAuthenticator \<Rightarrow> bool" for L config where
  start: "auth_reach L config t (TokenAuthenticator_new config)"
| add_rsa: "auth_reach L config t auth \<Longrightarrow>
    auth_reach L config t (TokenAuthenticator_add_trusted_rsa_key L issuer_name key auth)"
| add_voprf: "auth_reach L config t auth \<Longrightarrow>
    auth_reach L config t (TokenAuthenticator_add_trusted_voprf_key L issuer_name vkey auth)"
| remove_issuer: "auth_reach L config t auth \<Longrightarrow>
    auth_reach L config t (TokenAuthenticator_remove_trusted_issuer issuer_name auth)"
| redeem: "auth_reach L config t auth \<Longrightarrow> t \<le> t' \<Longrightarrow>
    auth_reach L config t' (snd (TokenAuthenticator_validate_and_redeem L t' token challenge auth))"
| mark: "auth_reach L config t auth \<Longrightarrow> t \<le> t' \<Longrightarrow>
    auth_reach L config t' (TokenAuthenticator_mark_redeemed t' token auth)"
| prune: "auth_reach L config t auth \<Longrightarrow> t \<le> t' \<Longrightarrow>
    auth_reach L config t' (TokenAuthenticator_prune_redemption_cache t' auth)"

lemma cache_inv_cong:
  "ta_config a = ta_config b \<Longrightarrow> ta_nonce_entries a = ta_nonce_entries b \<Longrightarrow>
     ta_redeemed_nonces a = ta_redeemed_nonces b \<Longrightarrow> cache_inv w m t a \<longleftrightarrow> cache_inv w m t b"
  by (simp add: cache_inv_def)

lemma cache_inv_prune:
  assumes "cache_inv w m t auth" "t \<le> t'"
  shows "cache_inv w m t' (TokenAuthenticator_prune_redemption_cache t' auth)"
proof -
  have ok: "entries_ok (ta_nonce_entries auth) (ta_redeemed_nonces auth)"
    and small: "card (ta_redeemed_nonces auth) \<le> m"
    using assms by (simp_all add: cache_inv_def)
  note ok' = entries_ok_filter [OF ok, of "\<lambda>e. t' - replay_window_ns (ta_config auth) \<le> ne_timestamp e"]
  have "card (set (map ne_nonce (filter (\<lambda>e. t' - replay_window_ns (ta_config auth) \<le> ne_timestamp e)
      (ta_nonce_entries auth)))) \<le> m"
    using card_entries [OF ok'] card_entries [OF ok] small le_trans [OF length_filter_le] by metis
  then show ?thesis using assms ok' small
    by (auto simp: cache_inv_def TokenAuthenticator_prune_redemption_cache_def prune_entries_eq [OF ok]
        Let_def intro: order_trans)
qed

theorem auth_reach_inv:
  "auth_reach L config t auth \<Longrightarrow>
     cache_inv (replay_window_ns config) (authenticator_max_size config) t auth"
proof (induction rule: auth_reach.induct)
  case (start t)
  then show ?case by (simp add: cache_inv_def TokenAuthenticator_new_def entries_ok_def)
next
  case (add_rsa t auth issuer_name key)
  have "cache_inv w m t (TokenAuthenticator_add_trusted_rsa_key L issuer_name key auth) \<longleftrightarrow> cache_inv w m t auth" for w m
    by (rule cache_inv_cong)
      (auto simp: TokenAuthenticator_add_trusted_rsa_key_def Let_def split: sum.splits)
  then show ?case using add_rsa by simp
next
  case (add_voprf t auth issuer_name vkey)
  have "cache_inv w m t (TokenAuthenticator_add_trusted_voprf_key L issuer_name vkey auth) \<longleftrightarrow> cache_inv w m t auth" for w m
    by (rule cache_inv_cong)
      (auto simp: TokenAuthenticator_add_trusted_voprf_key_def Let_def split: sum.splits)
  then show ?case using add_voprf by simp
next
  case (remove_issuer t auth issuer_name)
  then show ?case
    by (simp add: TokenAuthenticator_remove_trusted_issuer_def cache_inv_def)
next
  case (redeem t auth t' token challenge)
  show ?case
    using redeem.IH cache_inv_mono [OF redeem.IH redeem.hyps(2)] cache_inv_add [OF redeem.IH redeem.hyps(2)]
    by (auto simp: TokenAuthenticator_validate_and_redeem_def split: prod.splits) (metis snd_conv)+
next
  case (mark t auth t' token)
  then show ?case by (simp add: TokenAuthenticator_mark_redeemed_def cache_inv_add)
next
  case (prune t auth t')
  then show ?case by (simp add: cache_inv_prune)
qed

end
