(* ===== verification/PP_Issuer.thy ===== *)
theory PP_Issuer
  imports PP_Blind_Rsa PP_Voprf_Protocol PP_Request PP_Response PP_Token
begin

text \<open>
  The issuers of src/core/issuer.cpp. \<open>PublicIssuer\<close> signs Blind RSA requests, \<open>PrivateIssuer\<close>
  evaluates VOPRF requests and verifies the tokens, \<open>MultiKeyIssuer\<close> holds many of both and
  tries the keys whose truncated id a request names. A record holds what a constructor left
  in the object, also when it could not compute the key id: the members of a \<open>PublicIssuer\<close>
  are zero then, those of a \<open>PrivateIssuer\<close> are what the memory held, the argument \<open>garbage\<close>.
\<close>

record IssuerConfig =
  ic_issuer_request_uri :: string
  ic_token_keys :: "PublicKey list"
  ic_not_before :: "u64 option"

subsection \<open>The issuer of publicly verifiable tokens\<close>

record 'p PublicIssuer =
  pi_private_key :: "'p BlindRsaPrivateKey"
  pi_public_key :: "'p BlindRsaPublicKey"
  pi_key_id :: TokenKeyId
  pi_truncated_key_id :: byte

definition PublicIssuer_new ::
  "('m, 'd, 'r, 'p, 'k, 'b, 'z) rsa_api_scheme \<Rightarrow> 'p BlindRsaPrivateKey \<Rightarrow> 'p PublicIssuer" where
  "PublicIssuer_new L private_key =
     (let issuer = \<lparr>pi_private_key = private_key, pi_public_key = BlindRsaPublicKey_new,
                    pi_key_id = replicate 32 0, pi_truncated_key_id = 0\<rparr>
      in case BlindRsaPrivateKey_public_key L private_key of
           Inl e \<Rightarrow> issuer
         | Inr pub \<Rightarrow>
             (case BlindRsaPublicKey_key_id L pub of
                (Inl e, pub) \<Rightarrow> issuer\<lparr>pi_public_key := pub\<rparr>
              | (Inr key_id, pub) \<Rightarrow>
                  issuer\<lparr>pi_key_id := key_id, pi_truncated_key_id := key_id ! 31, pi_public_key := pub\<rparr>))"

definition PublicIssuer_generate ::
  "('m, 'd, 'r, 'p, 'k, 'b, 'z) rsa_api_scheme \<Rightarrow> ('r, 'p PublicIssuer) proc" where
  "PublicIssuer_generate L =
     tryM (BlindRsaPrivateKey_generate L) (\<lambda>(private_key, _). liftM (Ok (PublicIssuer_new L private_key)))"

definition PublicIssuer_issue ::
  "('m, 'd, 'r, 'p, 'k, 'b, 'z) rsa_api_scheme \<Rightarrow> 'p PublicIssuer \<Rightarrow> TokenRequest \<Rightarrow> TokenResponse result" where
  "PublicIssuer_issue L issuer request =
     (if req_type request \<noteq> BLIND_RSA \<and> req_type request \<noteq> PARTIALLY_BLIND_RSA then
        Err UNSUPPORTED_TOKEN_TYPE ''PublicIssuer only supports Blind RSA''
      else if req_truncated_token_key_id request \<noteq> pi_truncated_key_id issuer then
        Err ISSUER_UNKNOWN ''Unknown key ID''
      else
        try_bind (BlindRsaPrivateKey_blind_sign L (pi_private_key issuer) (req_blinded_msg request))
          (\<lambda>blind_sig. Ok (create_blind_rsa blind_sig)))"

text \<open>An answer in a batch: the response, or that there is none.\<close>

definition batch_answer :: "TokenResponse result \<Rightarrow> OptionalTokenResponse" where
  "batch_answer resp =
     (case resp of
        Inl e \<Rightarrow> \<lparr>opt_present = False, opt_response = None\<rparr>
      | Inr response \<Rightarrow> \<lparr>opt_present = True, opt_response = Some response\<rparr>)"

definition PublicIssuer_issue_batch ::
  "('m, 'd, 'r, 'p, 'k, 'b, 'z) rsa_api_scheme \<Rightarrow> 'p PublicIssuer \<Rightarrow> BatchedTokenRequest
     \<Rightarrow> BatchedTokenResponse result" where
  "PublicIssuer_issue_batch L issuer requests =
     Ok \<lparr>batch_responses = map (\<lambda>req. batch_answer (PublicIssuer_issue L issuer req)) (batch_requests requests)\<rparr>"

definition PublicIssuer_public_key ::
  "('m, 'd, 'r, 'p, 'k, 'b, 'z) rsa_api_scheme \<Rightarrow> 'p PublicIssuer \<Rightarrow> 'p BlindRsaPublicKey result" where
  "PublicIssuer_public_key L issuer = BlindRsaPrivateKey_public_key L (pi_private_key issuer)"

definition PublicIssuer_truncated_key_id :: "'p PublicIssuer \<Rightarrow> byte" where
  "PublicIssuer_truncated_key_id issuer = pi_truncated_key_id issuer"

subsection \<open>The issuer of privately verifiable tokens\<close>

record PrivateIssuer =
  vi_private_key :: VoprfPrivateKey
  vi_server :: "VoprfPrivateKey option"
  vi_key_id :: TokenKeyId
  vi_truncated_key_id :: byte

definition PrivateIssuer_new ::
  "('m, 'd, 'r, 'p, 'k, 'b, 't, 'z) ossl_scheme \<Rightarrow> TokenKeyId \<times> byte \<Rightarrow> VoprfPrivateKey \<Rightarrow> PrivateIssuer" where
  "PrivateIssuer_new L garbage private_key =
     (let server = (case VoprfPrivateKey_to_bytes L private_key of
                      Inl e \<Rightarrow> None
                    | Inr key_bytes \<Rightarrow>
                        (case VoprfPrivateKey_from_bytes L key_bytes of
                           Inl e \<Rightarrow> None
                         | Inr key_copy \<Rightarrow> Some key_copy));
          issuer = \<lparr>vi_private_key = private_key, vi_server = server,
                    vi_key_id = fst garbage, vi_truncated_key_id = snd garbage\<rparr>
      in case VoprfPrivateKey_public_key L private_key of
           Inl e \<Rightarrow> issuer
         | Inr pub \<Rightarrow>
             (case fst (VoprfPublicKey_key_id L pub) of
                Inl e \<Rightarrow> issuer
              | Inr key_id \<Rightarrow> issuer\<lparr>vi_key_id := key_id, vi_truncated_key_id := key_id ! 31\<rparr>))"

definition PrivateIssuer_generate ::
  "('m, 'd, 'r, 'p, 'k, 'b, 't, 'z) ossl_scheme \<Rightarrow> TokenKeyId \<times> byte \<Rightarrow> ('r, PrivateIssuer) proc" where
  "PrivateIssuer_generate L garbage =
     tryM (VoprfPrivateKey_generate L) (\<lambda>(private_key, _). liftM (Ok (PrivateIssuer_new L garbage private_key)))"

definition PrivateIssuer_issue ::
  "('m, 'd, 'r, 'p, 'k, 'b, 't, 'z) ossl_scheme \<Rightarrow> PrivateIssuer \<Rightarrow> TokenRequest
     \<Rightarrow> ('r, TokenResponse) proc" where
  "PrivateIssuer_issue L issuer request =
     (if req_type request \<noteq> VOPRF_P384_SHA384 then
        liftM (Err UNSUPPORTED_TOKEN_TYPE ''PrivateIssuer only supports VOPRF'')
      else if req_truncated_token_key_id request \<noteq> vi_truncated_key_id issuer then
        liftM (Err ISSUER_UNKNOWN ''Unknown key ID'')
      else
        (case vi_server issuer of
           None \<Rightarrow> liftM (Err CRYPTO_ERROR ''VOPRF server not initialized'')
         | Some server \<Rightarrow>
             tryM (VoprfServer_blind_evaluate L server (req_blinded_msg request)) (\<lambda>evaluation.
               liftM (Ok (create_voprf (ve_evaluated_element evaluation) (ve_proof evaluation))))))"

fun private_issue_loop ::
  "('m, 'd, 'r, 'p, 'k, 'b, 't, 'z) ossl_scheme \<Rightarrow> PrivateIssuer \<Rightarrow> TokenRequest list
     \<Rightarrow> OptionalTokenResponse list \<Rightarrow> ('r, OptionalTokenResponse list) proc" where
  "private_issue_loop L issuer [] responses rng = Some (Ok responses, rng)"
| "private_issue_loop L issuer (req # reqs) responses rng =
     (case PrivateIssuer_issue L issuer req rng of
        None \<Rightarrow> None
      | Some (resp, rng') \<Rightarrow> private_issue_loop L issuer reqs (responses @ [batch_answer resp]) rng')"

definition PrivateIssuer_issue_batch ::
  "('m, 'd, 'r, 'p, 'k, 'b, 't, 'z) ossl_scheme \<Rightarrow> PrivateIssuer \<Rightarrow> BatchedTokenRequest
     \<Rightarrow> ('r, BatchedTokenResponse) proc" where
  "PrivateIssuer_issue_batch L issuer requests =
     tryM (private_issue_loop L issuer (batch_requests requests) []) (\<lambda>responses.
       liftM (Ok \<lparr>batch_responses = responses\<rparr>))"

definition PrivateIssuer_public_key ::
  "('m, 'd, 'r, 'p, 'k, 'b, 't, 'z) ossl_scheme \<Rightarrow> PrivateIssuer \<Rightarrow> 't VoprfPublicKey result" where
  "PrivateIssuer_public_key L issuer = VoprfPrivateKey_public_key L (vi_private_key issuer)"

definition PrivateIssuer_truncated_key_id :: "PrivateIssuer \<Rightarrow> byte" where
  "PrivateIssuer_truncated_key_id issuer = vi_truncated_key_id issuer"

definition PrivateIssuer_verify ::
  "('m, 'd, 'r, 'p, 'k, 'b, 't, 'z) ossl_scheme \<Rightarrow> PrivateIssuer \<Rightarrow> Token \<Rightarrow> bool result" where
  "PrivateIssuer_verify L issuer token =
     (if tok_type token \<noteq> VOPRF_P384_SHA384 then
        Err UNSUPPORTED_TOKEN_TYPE ''Can only verify VOPRF tokens''
      else
        try_bind (AuthenticatorInput_serialize (authenticator_input token)) (\<lambda>auth_input_bytes.
          case vi_server issuer of
            None \<Rightarrow> Err CRYPTO_ERROR ''VOPRF server not initialized''
          | Some server \<Rightarrow>
              VoprfServer_verify_finalize L server auth_input_bytes (tok_authenticator token)))"

subsection \<open>Many keys\<close>

record 'p MultiKeyIssuer =
  mk_rsa_issuers :: "TokenKeyId \<rightharpoonup> 'p PublicIssuer"
  mk_voprf_issuers :: "TokenKeyId \<rightharpoonup> PrivateIssuer"
  mk_rsa_keys_by_truncated_id :: "byte \<rightharpoonup> TokenKeyId list"
  mk_voprf_keys_by_truncated_id :: "byte \<rightharpoonup> TokenKeyId list"

definition MultiKeyIssuer_new :: "'p MultiKeyIssuer" where
  "MultiKeyIssuer_new =
     \<lparr>mk_rsa_issuers = Map.empty, mk_voprf_issuers = Map.empty,
      mk_rsa_keys_by_truncated_id = Map.empty, mk_voprf_keys_by_truncated_id = Map.empty\<rparr>"

definition push_key_id :: "byte \<Rightarrow> TokenKeyId \<Rightarrow> (byte \<rightharpoonup> TokenKeyId list) \<Rightarrow> (byte \<rightharpoonup> TokenKeyId list)" where
  "push_key_id truncated_id key_id m =
     m(truncated_id \<mapsto> (case m truncated_id of None \<Rightarrow> [] | Some ids \<Rightarrow> ids) @ [key_id])"

definition MultiKeyIssuer_add_blind_rsa_key ::
  "('m, 'd, 'r, 'p, 'k, 'b, 'z) rsa_api_scheme \<Rightarrow> 'p BlindRsaPrivateKey \<Rightarrow> 'p MultiKeyIssuer
     \<Rightarrow> unit result \<times> 'p MultiKeyIssuer" where
  "MultiKeyIssuer_add_blind_rsa_key L key m =
     (let issuer = PublicIssuer_new L key
      in case PublicIssuer_public_key L issuer of
           Inl e \<Rightarrow> (Inl e, m)
         | Inr pub_key \<Rightarrow>
             (case fst (BlindRsaPublicKey_key_id L pub_key) of
                Inl e \<Rightarrow> (Inl e, m)
              | Inr key_id \<Rightarrow>
                  (Ok (),
                   m\<lparr>mk_rsa_issuers := (mk_rsa_issuers m)(key_id \<mapsto> issuer),
                     mk_rsa_keys_by_truncated_id :=
                       push_key_id (PublicIssuer_truncated_key_id issuer) key_id
                         (mk_rsa_keys_by_truncated_id m)\<rparr>)))"

definition MultiKeyIssuer_add_voprf_key ::
  "('m, 'd, 'r, 'p, 'k, 'b, 't, 'z) ossl_scheme \<Rightarrow> TokenKeyId \<times> byte \<Rightarrow> VoprfPrivateKey \<Rightarrow> 'q MultiKeyIssuer
     \<Rightarrow> unit result \<times> 'q MultiKeyIssuer" where
  "MultiKeyIssuer_add_voprf_key L garbage key m =
     (let issuer = PrivateIssuer_new L garbage key
      in case PrivateIssuer_public_key L issuer of
           Inl e \<Rightarrow> (Inl e, m)
         | Inr pub_key \<Rightarrow>
             (case fst (VoprfPublicKey_key_id L pub_key) of
                Inl e \<Rightarrow> (Inl e, m)
              | Inr key_id \<Rightarrow>
                  (Ok (),
                   m\<lparr>mk_voprf_issuers := (mk_voprf_issuers m)(key_id \<mapsto> issuer),
                     mk_voprf_keys_by_truncated_id :=
                       push_key_id (PrivateIssuer_truncated_key_id issuer) key_id
                         (mk_voprf_keys_by_truncated_id m)\<rparr>)))"

text \<open>Erases the keys of a bucket, and the bucket.\<close>

definition erase_ids :: "TokenKeyId list \<Rightarrow> (TokenKeyId \<rightharpoonup> 'i) \<Rightarrow> (TokenKeyId \<rightharpoonup> 'i)" where
  "erase_ids ids m = foldl (\<lambda>m key_id. m(key_id := None)) m ids"

definition MultiKeyIssuer_remove_key :: "byte \<Rightarrow> 'p MultiKeyIssuer \<Rightarrow> 'p MultiKeyIssuer" where
  "MultiKeyIssuer_remove_key truncated m =
     (let m = (case mk_rsa_keys_by_truncated_id m truncated of
                 None \<Rightarrow> m
               | Some ids \<Rightarrow>
                   m\<lparr>mk_rsa_issuers := erase_ids ids (mk_rsa_issuers m),
                     mk_rsa_keys_by_truncated_id :=
                       (mk_rsa_keys_by_truncated_id m)(truncated := None)\<rparr>)
      in case mk_voprf_keys_by_truncated_id m truncated of
           None \<Rightarrow> m
         | Some ids \<Rightarrow>
             m\<lparr>mk_voprf_issuers := erase_ids ids (mk_voprf_issuers m),
               mk_voprf_keys_by_truncated_id :=
                 (mk_voprf_keys_by_truncated_id m)(truncated := None)\<rparr>)"

text \<open>The loops that try the keys of a bucket one after the other.\<close>

fun try_rsa_keys ::
  "('m, 'd, 'r, 'p, 'k, 'b, 'z) rsa_api_scheme \<Rightarrow> 'p MultiKeyIssuer \<Rightarrow> TokenRequest \<Rightarrow> TokenKeyId list
     \<Rightarrow> TokenResponse result" where
  "try_rsa_keys L m request [] = Err ISSUER_UNKNOWN ''No matching RSA key found''"
| "try_rsa_keys L m request (key_id # ids) =
     (case mk_rsa_issuers m key_id of
        None \<Rightarrow> try_rsa_keys L m request ids
      | Some issuer \<Rightarrow>
          (case PublicIssuer_issue L issuer request of
             Inl e \<Rightarrow> try_rsa_keys L m request ids
           | Inr response \<Rightarrow> Ok response))"

fun try_voprf_keys ::
  "('m, 'd, 'r, 'p, 'k, 'b, 't, 'z) ossl_scheme \<Rightarrow> 'q MultiKeyIssuer \<Rightarrow> TokenRequest \<Rightarrow> TokenKeyId list
     \<Rightarrow> ('r, TokenResponse) proc" where
  "try_voprf_keys L m request [] rng = Some (Err ISSUER_UNKNOWN ''No matching VOPRF key found'', rng)"
| "try_voprf_keys L m request (key_id # ids) rng =
     (case mk_voprf_issuers m key_id of
        None \<Rightarrow> try_voprf_keys L m request ids rng
      | Some issuer \<Rightarrow>
          (case PrivateIssuer_issue L issuer request rng of
             None \<Rightarrow> None
           | Some (Inl e, rng') \<Rightarrow> try_voprf_keys L m request ids rng'
           | Some (Inr response, rng') \<Rightarrow> Some (Ok response, rng')))"

definition MultiKeyIssuer_issue ::
  "('m, 'd, 'r, 'p, 'k, 'b, 't, 'z) ossl_scheme \<Rightarrow> 'p MultiKeyIssuer \<Rightarrow> TokenRequest
     \<Rightarrow> ('r, TokenResponse) proc" where
  "MultiKeyIssuer_issue L m request =
     (if req_type request = BLIND_RSA \<or> req_type request = PARTIALLY_BLIND_RSA then
        (case mk_rsa_keys_by_truncated_id m (req_truncated_token_key_id request) of
           None \<Rightarrow> liftM (Err ISSUER_UNKNOWN ''Unknown RSA key ID'')
         | Some ids \<Rightarrow>
             if ids = [] then liftM (Err ISSUER_UNKNOWN ''Unknown RSA key ID'')
             else liftM (try_rsa_keys L m request ids))
      else if req_type request = VOPRF_P384_SHA384 then
        (case mk_voprf_keys_by_truncated_id m (req_truncated_token_key_id request) of
           None \<Rightarrow> liftM (Err ISSUER_UNKNOWN ''Unknown VOPRF key ID'')
         | Some ids \<Rightarrow>
             if ids = [] then liftM (Err ISSUER_UNKNOWN ''Unknown VOPRF key ID'')
             else try_voprf_keys L m request ids)
      else liftM (Err UNSUPPORTED_TOKEN_TYPE ''Unsupported token type''))"

text \<open>
  The hash maps are walked in an order the language does not fix: the ids of the two maps
  in that order are the arguments \<open>rsa_ids\<close> and \<open>voprf_ids\<close>.
\<close>

definition rsa_public_keys ::
  "('m, 'd, 'r, 'p, 'k, 'b, 'z) rsa_api_scheme \<Rightarrow> 'p PublicIssuer \<Rightarrow> PublicKey list" where
  "rsa_public_keys L issuer =
     (case PublicIssuer_public_key L issuer of
        Inl e \<Rightarrow> []
      | Inr pub \<Rightarrow>
          (case (BlindRsaPublicKey_to_spki L pub, fst (BlindRsaPublicKey_key_id L pub)) of
             (Inr spki, Inr pub_key_id) \<Rightarrow> [\<lparr>pk_type = BLIND_RSA, pk_data = spki, pk_key_id = pub_key_id\<rparr>]
           | _ \<Rightarrow> []))"

definition voprf_public_keys ::
  "('m, 'd, 'r, 'p, 'k, 'b, 't, 'z) ossl_scheme \<Rightarrow> PrivateIssuer \<Rightarrow> PublicKey list" where
  "voprf_public_keys L issuer =
     (case PrivateIssuer_public_key L issuer of
        Inl e \<Rightarrow> []
      | Inr pub \<Rightarrow>
          (case (VoprfPublicKey_to_bytes L pub, fst (VoprfPublicKey_key_id L pub)) of
             (Inr bytes, Inr pub_key_id) \<Rightarrow>
               [\<lparr>pk_type = VOPRF_P384_SHA384, pk_data = bytes, pk_key_id = pub_key_id\<rparr>]
           | _ \<Rightarrow> []))"

definition MultiKeyIssuer_public_keys ::
  "('m, 'd, 'r, 'p, 'k, 'b, 't, 'z) ossl_scheme \<Rightarrow> TokenKeyId list \<Rightarrow> TokenKeyId list \<Rightarrow> 'p MultiKeyIssuer
     \<Rightarrow> PublicKey list" where
  "MultiKeyIssuer_public_keys L rsa_ids voprf_ids m =
     concat (map (\<lambda>key_id. rsa_public_keys L (the (mk_rsa_issuers m key_id))) rsa_ids)
     @ concat (map (\<lambda>key_id. voprf_public_keys L (the (mk_voprf_issuers m key_id))) voprf_ids)"

definition MultiKeyIssuer_config ::
  "('m, 'd, 'r, 'p, 'k, 'b, 't, 'z) ossl_scheme \<Rightarrow> TokenKeyId list \<Rightarrow> TokenKeyId list \<Rightarrow> 'p MultiKeyIssuer
     \<Rightarrow> string \<Rightarrow> IssuerConfig" where
  "MultiKeyIssuer_config L rsa_ids voprf_ids m request_uri =
     \<lparr>ic_issuer_request_uri = request_uri,
      ic_token_keys = MultiKeyIssuer_public_keys L rsa_ids voprf_ids m, ic_not_before = None\<rparr>"

subsection \<open>The two indexes of the keys agree\<close>

text \<open>
  An issuer is filed under its key id, and the id in the bucket of its last byte; a bucket
  holds ids of issuers only. \<open>indexed\<close> says so of one pair of maps.
\<close>

definition indexed :: "(TokenKeyId \<rightharpoonup> 'i) \<Rightarrow> (byte \<rightharpoonup> TokenKeyId list) \<Rightarrow> bool" where
  "indexed issuers buckets \<longleftrightarrow>
     (\<forall>key_id. issuers key_id \<noteq> None \<longrightarrow> (\<exists>ids. buckets (key_id ! 31) = Some ids \<and> key_id \<in> set ids)) \<and>
     (\<forall>b ids. buckets b = Some ids \<longrightarrow>
        ids \<noteq> [] \<and> (\<forall>key_id \<in> set ids. key_id ! 31 = b \<and> issuers key_id \<noteq> None))"

definition multi_ok :: "'p MultiKeyIssuer \<Rightarrow> bool" where
  "multi_ok m \<longleftrightarrow>
     indexed (mk_rsa_issuers m) (mk_rsa_keys_by_truncated_id m) \<and>
     indexed (mk_voprf_issuers m) (mk_voprf_keys_by_truncated_id m)"

lemma erase_ids_eq: "erase_ids ids m = (\<lambda>key_id. if key_id \<in> set ids then None else m key_id)"
  by (induction ids arbitrary: m) (auto simp: erase_ids_def fun_eq_iff)

lemma indexed_bucket:
  "indexed issuers buckets \<Longrightarrow> buckets b = Some ids \<Longrightarrow> key_id \<in> set ids \<Longrightarrow>
     key_id ! 31 = b \<and> issuers key_id \<noteq> None"
  by (simp add: indexed_def)

lemma indexed_filed:
  "indexed issuers buckets \<Longrightarrow> issuers key_id \<noteq> None \<Longrightarrow> \<exists>ids. buckets (key_id ! 31) = Some ids \<and> key_id \<in> set ids"
  by (simp add: indexed_def)

lemma indexed_nonempty: "indexed issuers buckets \<Longrightarrow> buckets b = Some ids \<Longrightarrow> ids \<noteq> []"
  by (simp add: indexed_def)

lemma indexed_add:
  assumes ix: "indexed issuers buckets"
  shows "indexed (issuers(key_id \<mapsto> issuer)) (push_key_id (key_id ! 31) key_id buckets)" (is "indexed ?i ?b")
  unfolding indexed_def
proof (intro conjI allI impI ballI)
  fix k
  assume "?i k \<noteq> None"
  then show "\<exists>ids. ?b (k ! 31) = Some ids \<and> k \<in> set ids"
    using indexed_filed [OF ix, of k] by (cases "k = key_id") (auto simp: push_key_id_def)
next
  fix b ids k
  assume b: "?b b = Some ids"
  then show "ids \<noteq> []" using indexed_nonempty [OF ix] by (auto simp: push_key_id_def split: if_splits)
  assume "k \<in> set ids"
  then have "k = key_id \<and> b = key_id ! 31 \<or> (\<exists>old. buckets b = Some old \<and> k \<in> set old)"
    using b by (auto simp: push_key_id_def split: if_splits option.splits)
  then show "k ! 31 = b" "?i k \<noteq> None" using indexed_bucket [OF ix, of b _ k] by auto
qed

lemma indexed_remove:
  assumes ix: "indexed issuers buckets" and b: "buckets b = Some ids"
  shows "indexed (erase_ids ids issuers) (buckets(b := None))"
  unfolding indexed_def erase_ids_eq
proof (intro conjI allI impI ballI)
  fix k
  assume "(if k \<in> set ids then None else issuers k) \<noteq> None"
  then show "\<exists>ids. (buckets(b := None)) (k ! 31) = Some ids \<and> k \<in> set ids"
    using indexed_filed [OF ix, of k] b by (cases "k ! 31 = b") (auto split: if_splits)
next
  fix b' ids' k
  assume b': "(buckets(b := None)) b' = Some ids'"
  then show "ids' \<noteq> []" using indexed_nonempty [OF ix] by (auto split: if_splits)
  assume k: "k \<in> set ids'"
  have "buckets b' = Some ids'" "b' \<noteq> b" using b' by (auto split: if_splits)
  then show "k ! 31 = b'" "(if k \<in> set ids then None else issuers k) \<noteq> None"
    using indexed_bucket [OF ix _ k] indexed_bucket [OF ix b] by auto
qed

lemma remove_key_parts:
  "mk_rsa_keys_by_truncated_id (MultiKeyIssuer_remove_key b m) = (mk_rsa_keys_by_truncated_id m)(b := None)"
  "mk_voprf_keys_by_truncated_id (MultiKeyIssuer_remove_key b m) = (mk_voprf_keys_by_truncated_id m)(b := None)"
  "mk_rsa_issuers (MultiKeyIssuer_remove_key b m) =
     (case mk_rsa_keys_by_truncated_id m b of None \<Rightarrow> mk_rsa_issuers m | Some ids \<Rightarrow> erase_ids ids (mk_rsa_issuers m))"
  "mk_voprf_issuers (MultiKeyIssuer_remove_key b m) =
     (case mk_voprf_keys_by_truncated_id m b of None \<Rightarrow> mk_voprf_issuers m
      | Some ids \<Rightarrow> erase_ids ids (mk_voprf_issuers m))"
  by (auto simp: MultiKeyIssuer_remove_key_def Let_def fun_eq_iff split: option.splits)

lemma PublicIssuer_new_truncated:
  assumes "PublicIssuer_public_key L (PublicIssuer_new L key) = Inr pub"
    and "fst (BlindRsaPublicKey_key_id L pub) = Inr key_id"
  shows "pi_truncated_key_id (PublicIssuer_new L key) = key_id ! 31"
proof -
  have p: "pi_private_key (PublicIssuer_new L key) = key"
    by (simp add: PublicIssuer_new_def Let_def split: sum.splits prod.splits)
  then have "BlindRsaPrivateKey_public_key L key = Inr pub" using assms(1) by (simp add: PublicIssuer_public_key_def)
  moreover obtain pub' where "BlindRsaPublicKey_key_id L pub = (Inr key_id, pub')"
    using assms(2) by (metis prod.collapse)
  ultimately show ?thesis by (simp add: PublicIssuer_new_def Let_def)
qed

lemma PrivateIssuer_new_truncated:
  assumes "PrivateIssuer_public_key L (PrivateIssuer_new L garbage key) = Inr pub"
    and "fst (VoprfPublicKey_key_id L pub) = Inr key_id"
  shows "vi_truncated_key_id (PrivateIssuer_new L garbage key) = key_id ! 31"
proof -
  have p: "vi_private_key (PrivateIssuer_new L garbage key) = key"
    by (simp add: PrivateIssuer_new_def Let_def split: sum.splits)
  then have "VoprfPrivateKey_public_key L key = Inr pub" using assms(1) by (simp add: PrivateIssuer_public_key_def)
  then show ?thesis using assms(2) by (simp add: PrivateIssuer_new_def Let_def)
qed

inductive multi_reach ::
  "('m, 'd, 'r, 'p, 'k, 'b, 't, 'z) ossl_scheme \<Rightarrow> 'p MultiKeyIssuer \<Rightarrow> bool" for L where
  start: "multi_reach L MultiKeyIssuer_new"
| add_rsa: "multi_reach L m \<Longrightarrow> multi_reach L (snd (MultiKeyIssuer_add_blind_rsa_key L key m))"
| add_voprf: "multi_reach L m \<Longrightarrow> multi_reach L (snd (MultiKeyIssuer_add_voprf_key L garbage vkey m))"
| remove: "multi_reach L m \<Longrightarrow> multi_reach L (MultiKeyIssuer_remove_key b m)"

theorem multi_reach_ok: "multi_reach L m \<Longrightarrow> multi_ok m"
proof (induction rule: multi_reach.induct)
  case start
  then show ?case by (simp add: multi_ok_def indexed_def MultiKeyIssuer_new_def)
next
  case (add_rsa m key)
  then show ?case
    by (auto simp: MultiKeyIssuer_add_blind_rsa_key_def Let_def multi_ok_def PublicIssuer_truncated_key_id_def
        PublicIssuer_new_truncated indexed_add split: sum.splits)
next
  case (add_voprf m garbage vkey)
  then show ?case
    by (auto simp: MultiKeyIssuer_add_voprf_key_def Let_def multi_ok_def PrivateIssuer_truncated_key_id_def
        PrivateIssuer_new_truncated indexed_add split: sum.splits)
next
  case (remove m b)
  have id: "f(b := None) = f" if "f b = None" for f :: "byte \<rightharpoonup> TokenKeyId list"
    using that by (simp add: fun_eq_iff)
  show ?case
    using remove.IH unfolding multi_ok_def remove_key_parts
    by (auto simp: indexed_remove id split: option.splits)
qed

subsection \<open>Removing a key\<close>

lemma try_rsa_keys_cong:
  "\<forall>key_id \<in> set ids. mk_rsa_issuers m key_id = mk_rsa_issuers m' key_id \<Longrightarrow>
     try_rsa_keys L m request ids = try_rsa_keys L m' request ids"
  by (induction ids) (auto split: option.splits sum.splits)

lemma try_voprf_keys_cong:
  "\<forall>key_id \<in> set ids. mk_voprf_issuers m key_id = mk_voprf_issuers m' key_id \<Longrightarrow>
     try_voprf_keys L m request ids rng = try_voprf_keys L m' request ids rng"
  by (induction ids arbitrary: rng) (auto split: option.splits sum.splits prod.splits)

lemma indexed_remove_same:
  assumes ix: "indexed issuers buckets" and "buckets b' = Some ids'" "b' \<noteq> b" "key_id \<in> set ids'"
  shows "(case buckets b of None \<Rightarrow> issuers | Some ids \<Rightarrow> erase_ids ids issuers) key_id = issuers key_id"
  using indexed_bucket [OF ix assms(2,4)] indexed_bucket [OF ix, of b _ key_id] assms(3)
  by (auto simp: erase_ids_eq split: option.splits)

theorem issue_after_remove:
  assumes ok: "multi_ok m"
  shows "MultiKeyIssuer_issue L (MultiKeyIssuer_remove_key b m) request rng =
    (if req_truncated_token_key_id request = b then
       (if req_type request = BLIND_RSA \<or> req_type request = PARTIALLY_BLIND_RSA then
          Some (Err ISSUER_UNKNOWN ''Unknown RSA key ID'', rng)
        else if req_type request = VOPRF_P384_SHA384 then
          Some (Err ISSUER_UNKNOWN ''Unknown VOPRF key ID'', rng)
        else Some (Err UNSUPPORTED_TOKEN_TYPE ''Unsupported token type'', rng))
     else MultiKeyIssuer_issue L m request rng)"
proof (cases "req_truncated_token_key_id request = b")
  case True
  then show ?thesis by (simp add: MultiKeyIssuer_issue_def remove_key_parts liftM_def)
next
  case False
  let ?r = "MultiKeyIssuer_remove_key b m" and ?b = "req_truncated_token_key_id request"
  have rsa: "try_rsa_keys L ?r request ids = try_rsa_keys L m request ids"
    if "mk_rsa_keys_by_truncated_id m ?b = Some ids" for ids
    using ok that False
    by (intro try_rsa_keys_cong ballI) (simp add: remove_key_parts multi_ok_def indexed_remove_same [of _ _ ?b ids])
  have voprf: "try_voprf_keys L ?r request ids rng = try_voprf_keys L m request ids rng"
    if "mk_voprf_keys_by_truncated_id m ?b = Some ids" for ids
    using ok that False
    by (intro try_voprf_keys_cong ballI) (simp add: remove_key_parts multi_ok_def indexed_remove_same [of _ _ ?b ids])
  show ?thesis using False
    by (auto simp: MultiKeyIssuer_issue_def remove_key_parts(1,2) rsa voprf split: option.splits)
qed

text \<open>A request succeeds when some key of its bucket can answer it.\<close>

lemma try_rsa_keys_Ok_iff:
  "(\<exists>resp. try_rsa_keys L m request ids = Ok resp) \<longleftrightarrow>
     (\<exists>key_id \<in> set ids. \<exists>issuer resp. mk_rsa_issuers m key_id = Some issuer \<and>
        PublicIssuer_issue L issuer request = Ok resp)"
  by (induction ids) (auto split: option.splits sum.splits)

end
