(* ===== verification/PP_Client.thy ===== *)
theory PP_Client
  imports PP_Issuer PP_Origin
begin

text \<open>
  The clients of src/core/client.cpp: \<open>PublicClient\<close> for Blind RSA, \<open>PrivateClient\<close> for
  VOPRF and \<open>Client\<close>, which chooses by the token type. The client objects have no state.
  Creating a request fills the caches of the challenge and of the key, so it returns both. A
  byte vector that was moved from is empty; \<open>create_token_request\<close> moves the message for
  the issuer out of the blinding result before it moves the rest into the finalization data.
\<close>

datatype FinalizationVariant =
    BlindingVariant BlindingData
  | VoprfDataVariant VoprfFinalizationData

record FinalizationData =
  fd_token_type :: TokenType
  fd_nonce :: Nonce
  fd_challenge_digest :: ChallengeDigest
  fd_token_key_id :: TokenKeyId
  fd_data :: FinalizationVariant

record TokenRequestResult =
  trr_request :: TokenRequest
  trr_finalization_data :: FinalizationData

subsection \<open>Blind RSA\<close>

definition PublicClient_create_token_request ::
  "('m, 'd, 'r, 'p, 'k, 'b, 'z) rsa_api_scheme \<Rightarrow> TokenChallenge \<Rightarrow> 'p BlindRsaPublicKey \<Rightarrow> 'r
     \<Rightarrow> ((TokenRequestResult result \<times> TokenChallenge \<times> 'p BlindRsaPublicKey) \<times> 'r) option" where
  "PublicClient_create_token_request L challenge issuer_key rng =
     (case random_nonce L rng of
        (Inl e, rng) \<Rightarrow> Some ((Inl e, challenge, issuer_key), rng)
      | (Inr nonce, rng) \<Rightarrow>
          (case TokenChallenge_digest L challenge of
             (Inl e, challenge) \<Rightarrow> Some ((Inl e, challenge, issuer_key), rng)
           | (Inr digest, challenge) \<Rightarrow>
               (case BlindRsaPublicKey_key_id L issuer_key of
                  (Inl e, issuer_key) \<Rightarrow> Some ((Inl e, challenge, issuer_key), rng)
                | (Inr key_id, issuer_key) \<Rightarrow>
                    (let auth_input = \<lparr>ai_token_type = tc_type challenge, ai_nonce = nonce,
                                       ai_challenge_digest = digest, ai_token_key_id = key_id\<rparr>
                     in map_option (\<lambda>(r, rng). ((r, challenge, issuer_key), rng))
                          (tryM (liftM (AuthenticatorInput_serialize auth_input)) (\<lambda>auth_input_bytes.
                           tryM (BlindRsaPublicKey_blind L issuer_key auth_input_bytes) (\<lambda>blinding.
                             let request = TokenRequest_create (tc_type challenge) (key_id ! 31)
                                             (bd_blinded_msg blinding);
                                 blinding = blinding\<lparr>bd_blinded_msg := []\<rparr>;
                                 finalization = \<lparr>fd_token_type = tc_type challenge, fd_nonce = nonce,
                                                 fd_challenge_digest = digest, fd_token_key_id = key_id,
                                                 fd_data = BlindingVariant blinding\<rparr>
                             in liftM (Ok \<lparr>trr_request = request, trr_finalization_data = finalization\<rparr>))) rng)))))"

definition PublicClient_finalize ::
  "('m, 'd, 'r, 'p, 'k, 'b, 'z) rsa_api_scheme \<Rightarrow> TokenResponse \<Rightarrow> FinalizationData
     \<Rightarrow> 'p BlindRsaPublicKey \<Rightarrow> Token result" where
  "PublicClient_finalize L response fin issuer_key =
     (case as_blind_rsa response of
        None \<Rightarrow> Err TOKEN_MALFORMED ''Expected Blind RSA response''
      | Some rsa_response \<Rightarrow>
          (case fd_data fin of
             VoprfDataVariant _ \<Rightarrow> Err TOKEN_MALFORMED ''Invalid finalization data''
           | BlindingVariant blinding_data \<Rightarrow>
               (let auth_input = \<lparr>ai_token_type = fd_token_type fin, ai_nonce = fd_nonce fin,
                                  ai_challenge_digest = fd_challenge_digest fin,
                                  ai_token_key_id = fd_token_key_id fin\<rparr>
                in try_bind (AuthenticatorInput_serialize auth_input) (\<lambda>auth_input_bytes.
                   try_bind (fst (BlindRsaPublicKey_finalize L issuer_key (rsa_blind_sig rsa_response)
                                    blinding_data auth_input_bytes)) (\<lambda>authenticator.
                     Ok (Token_create (fd_token_type fin) (fd_nonce fin) (fd_challenge_digest fin)
                           (fd_token_key_id fin) authenticator))))))"

subsection \<open>VOPRF\<close>

definition PrivateClient_create_token_request ::
  "('m, 'd, 'r, 'p, 'k, 'b, 't, 'z) ossl_scheme \<Rightarrow> TokenChallenge \<Rightarrow> 't VoprfPublicKey \<Rightarrow> 'r
     \<Rightarrow> ((TokenRequestResult result \<times> TokenChallenge \<times> 't VoprfPublicKey) \<times> 'r) option" where
  "PrivateClient_create_token_request L challenge issuer_key rng =
     (case random_nonce L rng of
        (Inl e, rng) \<Rightarrow> Some ((Inl e, challenge, issuer_key), rng)
      | (Inr nonce, rng) \<Rightarrow>
          (case TokenChallenge_digest L challenge of
             (Inl e, challenge) \<Rightarrow> Some ((Inl e, challenge, issuer_key), rng)
           | (Inr digest, challenge) \<Rightarrow>
               (case VoprfPublicKey_key_id L issuer_key of
                  (Inl e, issuer_key) \<Rightarrow> Some ((Inl e, challenge, issuer_key), rng)
                | (Inr key_id, issuer_key) \<Rightarrow>
                    (let auth_input = \<lparr>ai_token_type = tc_type challenge, ai_nonce = nonce,
                                       ai_challenge_digest = digest, ai_token_key_id = key_id\<rparr>
                     in map_option (\<lambda>(r, rng). ((r, challenge, issuer_key), rng))
                          (tryM (liftM (AuthenticatorInput_serialize auth_input)) (\<lambda>auth_input_bytes.
                           tryM (liftM (VoprfPublicKey_to_bytes L issuer_key)) (\<lambda>key_bytes.
                           tryM (liftM (VoprfPublicKey_from_bytes L key_bytes)) (\<lambda>key_copy.
                           tryM (VoprfClient_blind L auth_input_bytes) (\<lambda>blind.
                             let request = TokenRequest_create (tc_type challenge) (key_id ! 31)
                                             (vfd_blinded_element blind);
                                 blind = blind\<lparr>vfd_blinded_element := []\<rparr>;
                                 finalization = \<lparr>fd_token_type = tc_type challenge, fd_nonce = nonce,
                                                 fd_challenge_digest = digest, fd_token_key_id = key_id,
                                                 fd_data = VoprfDataVariant blind\<rparr>
                             in liftM (Ok \<lparr>trr_request = request, trr_finalization_data = finalization\<rparr>))))) rng)))))"

definition PrivateClient_finalize ::
  "('m, 'd, 'r, 'p, 'k, 'b, 't, 'z) ossl_scheme \<Rightarrow> TokenResponse \<Rightarrow> FinalizationData
     \<Rightarrow> 't VoprfPublicKey \<Rightarrow> Token result" where
  "PrivateClient_finalize L response fin issuer_key =
     (case as_voprf response of
        None \<Rightarrow> Err TOKEN_MALFORMED ''Expected VOPRF response''
      | Some voprf_response \<Rightarrow>
          (case fd_data fin of
             BlindingVariant _ \<Rightarrow> Err TOKEN_MALFORMED ''Invalid finalization data''
           | VoprfDataVariant voprf_data \<Rightarrow>
               try_bind (VoprfPublicKey_to_bytes L issuer_key) (\<lambda>key_bytes.
               try_bind (VoprfPublicKey_from_bytes L key_bytes) (\<lambda>key_copy.
                 let evaluation = \<lparr>ve_evaluated_element = voprf_evaluate_msg voprf_response,
                                   ve_proof = voprf_evaluate_proof voprf_response\<rparr>
                 in try_bind (VoprfClient_finalize L key_copy voprf_data evaluation) (\<lambda>authenticator.
                      Ok (Token_create (fd_token_type fin) (fd_nonce fin) (fd_challenge_digest fin)
                            (fd_token_key_id fin) authenticator))))))"

subsection \<open>The unified client\<close>

definition Client_create_token_request ::
  "('m, 'd, 'r, 'p, 'k, 'b, 't, 'z) ossl_scheme \<Rightarrow> TokenChallenge \<Rightarrow> PublicKey \<Rightarrow> 'r
     \<Rightarrow> ((TokenRequestResult result \<times> TokenChallenge) \<times> 'r) option" where
  "Client_create_token_request L challenge issuer_key rng =
     (if tc_type challenge \<noteq> pk_type issuer_key then
        Some ((Err UNSUPPORTED_TOKEN_TYPE ''Token type mismatch between challenge and key'', challenge), rng)
      else if tc_type challenge = BLIND_RSA \<or> tc_type challenge = PARTIALLY_BLIND_RSA then
        (case BlindRsaPublicKey_from_spki L (pk_data issuer_key) of
           Inl e \<Rightarrow> Some ((Inl e, challenge), rng)
         | Inr rsa_key \<Rightarrow>
             map_option (\<lambda>((r, challenge, _), rng). ((r, challenge), rng))
               (PublicClient_create_token_request L challenge rsa_key rng))
      else if tc_type challenge = VOPRF_P384_SHA384 then
        (case VoprfPublicKey_from_bytes L (pk_data issuer_key) of
           Inl e \<Rightarrow> Some ((Inl e, challenge), rng)
         | Inr voprf_key \<Rightarrow>
             map_option (\<lambda>((r, challenge, _), rng). ((r, challenge), rng))
               (PrivateClient_create_token_request L challenge voprf_key rng))
      else Some ((Err UNSUPPORTED_TOKEN_TYPE ''Unsupported token type'', challenge), rng))"

definition Client_finalize ::
  "('m, 'd, 'r, 'p, 'k, 'b, 't, 'z) ossl_scheme \<Rightarrow> TokenResponse \<Rightarrow> FinalizationData \<Rightarrow> PublicKey
     \<Rightarrow> Token result" where
  "Client_finalize L response fin issuer_key =
     (if fd_token_type fin = BLIND_RSA \<or> fd_token_type fin = PARTIALLY_BLIND_RSA then
        try_bind (BlindRsaPublicKey_from_spki L (pk_data issuer_key)) (\<lambda>rsa_key.
          PublicClient_finalize L response fin rsa_key)
      else if fd_token_type fin = VOPRF_P384_SHA384 then
        try_bind (VoprfPublicKey_from_bytes L (pk_data issuer_key)) (\<lambda>voprf_key.
          PrivateClient_finalize L response fin voprf_key)
      else Err UNSUPPORTED_TOKEN_TYPE ''Unsupported token type'')"

subsection \<open>What a request and its finalization data hold\<close>

definition challenge_input :: "TokenChallenge \<Rightarrow> Nonce \<Rightarrow> ChallengeDigest \<Rightarrow> TokenKeyId \<Rightarrow> AuthenticatorInput" where
  "challenge_input challenge nonce digest key_id =
     \<lparr>ai_token_type = tc_type challenge, ai_nonce = nonce, ai_challenge_digest = digest,
      ai_token_key_id = key_id\<rparr>"

lemma digest_keeps_type: "TokenChallenge_digest L c = (r, c') \<Longrightarrow> tc_type c' = tc_type c"
  by (auto simp: TokenChallenge_digest_def split: option.splits sum.splits)

lemma key_id_keeps_pkey: "BlindRsaPublicKey_key_id L key = (r, key') \<Longrightarrow> bpk_pkey key' = bpk_pkey key"
  by (auto simp: BlindRsaPublicKey_key_id_def split: if_splits sum.splits)

lemma PublicClient_create_Ok:
  assumes "PublicClient_create_token_request L challenge key rng = Some ((Ok res, challenge', key'), rng')"
  shows "\<exists>nonce digest key_id input bd rng1.
    TokenChallenge_digest L challenge = (Ok digest, challenge') \<and>
    BlindRsaPublicKey_key_id L key = (Ok key_id, key') \<and>
    AuthenticatorInput_serialize (challenge_input challenge nonce digest key_id) = Ok input \<and>
    BlindRsaPublicKey_blind L key' input rng1 = Some (Ok bd, rng') \<and>
    res = \<lparr>trr_request = TokenRequest_create (tc_type challenge) (key_id ! 31) (bd_blinded_msg bd),
           trr_finalization_data =
             \<lparr>fd_token_type = tc_type challenge, fd_nonce = nonce, fd_challenge_digest = digest,
              fd_token_key_id = key_id, fd_data = BlindingVariant (bd\<lparr>bd_blinded_msg := []\<rparr>)\<rparr>\<rparr>"
  using assms
  by (auto simp: PublicClient_create_token_request_def challenge_input_def tryM_Some_Ok_iff Let_def
      simp del: tryM_liftM dest!: digest_keeps_type split: prod.splits sum.splits) blast

lemma PrivateClient_create_moved:
  assumes "PrivateClient_create_token_request L challenge key rng = Some ((Ok res, challenge', key'), rng')"
  shows "\<exists>fin. fd_data (trr_finalization_data res) = VoprfDataVariant fin \<and> vfd_blinded_element fin = []"
  using assms
  by (auto simp: PrivateClient_create_token_request_def tryM_Some_Ok_iff Let_def simp del: tryM_liftM
      split: prod.splits sum.splits)

text \<open>
  \<open>VoprfClient::finalize\<close> reads the blinded element again, which \<open>PrivateClient\<close> has moved
  away: no finalization data that it makes can be finalized.
\<close>

lemma VoprfClient_finalize_no_element:
  assumes "vfd_blinded_element fin = []"
  shows "\<exists>e. VoprfClient_finalize L key fin ev = Inl e"
  using assms
  by (auto simp: VoprfClient_finalize_def bytes_to_point_def P384_ELEMENT_SIZE_def split: option.splits)

lemma PrivateClient_finalize_moved:
  assumes "fd_data fin = VoprfDataVariant data" "vfd_blinded_element data = []"
  shows "\<exists>e. PrivateClient_finalize L response fin key = Inl e"
proof -
  have no: "VoprfClient_finalize L k data ev \<noteq> Inr x" for k ev x
    using VoprfClient_finalize_no_element [OF assms(2), of L k ev] by auto
  show ?thesis
    using assms(1) by (auto simp: PrivateClient_finalize_def Let_def try_bind_def no split: option.splits sum.splits)
qed

subsection \<open>A token from request to acceptance\<close>

lemma finalize_ignores_blinded_msg:
  "fst (BlindRsaPublicKey_finalize L key sig (bd\<lparr>bd_blinded_msg := x\<rparr>) msg) =
   fst (BlindRsaPublicKey_finalize L key sig bd msg)"
  by (simp add: BlindRsaPublicKey_finalize_def Let_def split: option.splits prod.splits)

theorem public_token_complete:
  assumes bn: "bn_documented L" and evp: "evp_documented L H"
    and pub: "public_key_documented L H em_ok pkey n e" "bpk_pkey key = Some pkey"
    and priv: "private_key_documented L skey n e d" "bsk_pkey (pi_private_key issuer) = Some skey"
    and type: "tc_type challenge = BLIND_RSA \<or> tc_type challenge = PARTIALLY_BLIND_RSA"
    and id: "fst (BlindRsaPublicKey_key_id L key) = Ok key_id" "pi_truncated_key_id issuer = key_id ! 31"
    and create: "PublicClient_create_token_request L challenge key rng
      = Some ((Ok res, challenge', key'), rng')"
    and trust: "trusted origin key_id = Some okey" "bpk_pkey okey = Some pkey"
  shows "\<exists>resp token. PublicIssuer_issue L issuer (trr_request res) = Ok resp
    \<and> PublicClient_finalize L resp (trr_finalization_data res) key' = Ok token
    \<and> tok_type token = tc_type challenge \<and> tok_nonce token = fd_nonce (trr_finalization_data res)
    \<and> tok_key_id token = key_id
    \<and> fst (PublicOrigin_verify L origin token challenge) = Ok True"
proof -
  obtain nonce digest input bd rng1 where digest: "TokenChallenge_digest L challenge = (Ok digest, challenge')"
    and key': "BlindRsaPublicKey_key_id L key = (Ok key_id, key')"
    and input: "AuthenticatorInput_serialize (challenge_input challenge nonce digest key_id) = Ok input"
    and blind: "BlindRsaPublicKey_blind L key' input rng1 = Some (Ok bd, rng')"
    and res: "res = \<lparr>trr_request = TokenRequest_create (tc_type challenge) (key_id ! 31) (bd_blinded_msg bd),
           trr_finalization_data =
             \<lparr>fd_token_type = tc_type challenge, fd_nonce = nonce, fd_challenge_digest = digest,
              fd_token_key_id = key_id, fd_data = BlindingVariant (bd\<lparr>bd_blinded_msg := []\<rparr>)\<rparr>\<rparr>"
    using PublicClient_create_Ok [OF create] id(1) by auto
  have pkey: "bpk_pkey key' = Some pkey" using key_id_keeps_pkey [OF key'] pub(2) by simp
  obtain bs sig where sign: "BlindRsaPrivateKey_blind_sign L (pi_private_key issuer) (bd_blinded_msg bd) = Ok bs"
    and fin: "BlindRsaPublicKey_finalize L key' bs bd input = (Ok sig, bd\<lparr>bd_inverse := []\<rparr>)"
    and sig: "length sig = 256" "BlindRsaPublicKey_verify L key' input sig = Ok True"
    using blind_signature_complete [OF bn evp pub(1) pkey priv blind] by blast
  let ?token = "Token_create (tc_type challenge) nonce digest key_id sig"
  have "PublicIssuer_issue L issuer (trr_request res) = Ok (create_blind_rsa bs)"
    using type sign id(2) by (auto simp: PublicIssuer_issue_def res TokenRequest_create_def)
  moreover have "PublicClient_finalize L (create_blind_rsa bs) (trr_finalization_data res) key' = Ok ?token"
    using input by (simp add: PublicClient_finalize_def as_blind_rsa_def create_blind_rsa_def res
        challenge_input_def finalize_ignores_blinded_msg fin)
  moreover have "fst (PublicOrigin_verify L origin ?token challenge) = Ok True"
  proof -
    have "BlindRsaPublicKey_verify L okey input sig = Ok True"
      using sig(2) by (simp add: BlindRsaPublicKey_verify_def pkey trust(2))
    moreover have "Token_validate ?token = Ok ()"
      using type sig(1) by (auto simp: Token_validate_def Token_create_def for_type_def)
    moreover have "authenticator_input ?token = challenge_input challenge nonce digest key_id"
      by (simp add: authenticator_input_def Token_create_def challenge_input_def)
    ultimately show ?thesis
      unfolding PublicOrigin_accepts_iff using type trust(1) input
      by (simp add: Token_create_def digest)
  qed
  ultimately show ?thesis by (auto simp: Token_create_def res)
qed

theorem private_issuer_complete:
  assumes doc: "ec_documented L q pt" and evp: "evp_documented L H"
    and k: "0 < k" "k < q" and pub: "vpk_point public_key = Some (pt k)"
    and issuer: "vi_server issuer = Some \<lparr>vsk_scalar = Some k\<rparr>"
    and token: "tok_type token = VOPRF_P384_SHA384"
      "AuthenticatorInput_serialize (authenticator_input token) = Ok input" "length input \<le> 0xFFFF"
    and request: "req_type request = VOPRF_P384_SHA384"
      "req_truncated_token_key_id request = vi_truncated_key_id issuer"
      "req_blinded_msg request = vfd_blinded_element fin"
    and blind: "VoprfClient_blind L input rng = Some (Ok fin, rng1)"
    and issue: "PrivateIssuer_issue L issuer request rng2 = Some (Ok resp, rng3)"
  shows "\<exists>v out. as_voprf resp = Some v
    \<and> VoprfClient_finalize L public_key fin
        \<lparr>ve_evaluated_element = voprf_evaluate_msg v, ve_proof = voprf_evaluate_proof v\<rparr> = Ok out
    \<and> PrivateIssuer_verify L issuer (token\<lparr>tok_authenticator := out\<rparr>) = Ok True"
proof -
  obtain ev where ev: "VoprfServer_blind_evaluate L \<lparr>vsk_scalar = Some k\<rparr> (vfd_blinded_element fin) rng2 = Some (Ok ev, rng3)"
    and resp: "resp = create_voprf (ve_evaluated_element ev) (ve_proof ev)"
    using issue request issuer by (auto simp: PrivateIssuer_issue_def tryM_Some_Ok_iff simp del: tryM_liftM)
  obtain out where out: "VoprfClient_finalize L public_key fin ev = Ok out"
    "VoprfServer_verify_finalize L \<lparr>vsk_scalar = Some k\<rparr> input out = Ok True"
    using voprf_complete [OF doc evp k pub token(3) blind ev] by blast
  have "authenticator_input (token\<lparr>tok_authenticator := out\<rparr>) = authenticator_input token"
    by (simp add: authenticator_input_def)
  then have "PrivateIssuer_verify L issuer (token\<lparr>tok_authenticator := out\<rparr>) = Ok True"
    using token issuer out(2) by (simp add: PrivateIssuer_verify_def)
  moreover have "VoprfClient_finalize L public_key fin
      \<lparr>ve_evaluated_element = ve_evaluated_element ev, ve_proof = ve_proof ev\<rparr> = Ok out"
    using out(1) by (cases ev) simp
  ultimately show ?thesis by (auto simp: resp create_voprf_def as_voprf_def)
qed

end
