(* ===== verification/PP_Token_Provider.thy ===== *)
theory PP_Token_Provider
  imports PP_Client "HOL-Library.Multiset"
begin

text \<open>
  \<open>TokenProvider\<close> of src/core/token_provider.cpp: the public keys of named issuers, the
  requests for a challenge, and a cache of tokens by challenge digest. The mutex makes each
  operation one step. The clients it creates have no state. The hash map of the issuers is
  walked in an order the language does not fix: the argument \<open>issuers\<close> of \<open>finalize\<close>. A
  batch takes the mutex once per item; the model is the run in which no other thread changes
  the provider between two items.
\<close>

record TokenProviderConfig =
  pc_max_cached_tokens :: nat
  pc_token_prefetch_threshold :: int
  pc_allow_token_reuse :: bool
  pc_origin_name :: string

record TokenRequestContext =
  trc_request :: TokenRequest
  trc_finalization_data :: FinalizationData
  trc_challenge_digest :: ChallengeDigest

record TokenProvider =
  tp_config :: TokenProviderConfig
  tp_issuer_keys :: "string \<rightharpoonup> PublicKey list"
  tp_token_cache :: "ChallengeDigest \<rightharpoonup> Token list"

definition TokenProvider_new :: "TokenProviderConfig \<Rightarrow> TokenProvider" where
  "TokenProvider_new config =
     \<lparr>tp_config = config, tp_issuer_keys = Map.empty, tp_token_cache = Map.empty\<rparr>"

definition find_key :: "TokenProvider \<Rightarrow> string \<Rightarrow> TokenType \<Rightarrow> PublicKey option" where
  "find_key provider issuer type =
     (case tp_issuer_keys provider issuer of
        None \<Rightarrow> None
      | Some keys \<Rightarrow> List.find (\<lambda>key. pk_type key = type) keys)"

text \<open>\<open>std::tolower\<close> in the C locale.\<close>

definition tolower :: "char \<Rightarrow> char" where
  "tolower c = (let n = of_char c :: nat in if 65 \<le> n \<and> n \<le> 90 then char_of (n + 32) else c)"

definition ascii_equal_case_insensitive :: "string \<Rightarrow> string \<Rightarrow> bool" where
  "ascii_equal_case_insensitive a b \<longleftrightarrow> length a = length b \<and> list_all2 (\<lambda>x y. tolower x = tolower y) a b"

definition origin_info_allows :: "string \<Rightarrow> string list \<Rightarrow> bool" where
  "origin_info_allows origin origin_info \<longleftrightarrow>
     (if origin_info = [] then True
      else if origin = [] then False
      else list_ex (\<lambda>candidate. ascii_equal_case_insensitive origin candidate) origin_info)"

subsection \<open>Issuers\<close>

definition TokenProvider_add_issuer_key :: "string \<Rightarrow> PublicKey \<Rightarrow> TokenProvider \<Rightarrow> TokenProvider" where
  "TokenProvider_add_issuer_key issuer_name key provider =
     (case tp_issuer_keys provider issuer_name of
        Some keys \<Rightarrow> provider\<lparr>tp_issuer_keys := (tp_issuer_keys provider)(issuer_name \<mapsto> keys @ [key])\<rparr>
      | None \<Rightarrow> provider\<lparr>tp_issuer_keys := (tp_issuer_keys provider)(issuer_name \<mapsto> [key])\<rparr>)"

definition TokenProvider_remove_issuer :: "string \<Rightarrow> TokenProvider \<Rightarrow> TokenProvider" where
  "TokenProvider_remove_issuer issuer_name provider =
     provider\<lparr>tp_issuer_keys := (tp_issuer_keys provider)(issuer_name := None)\<rparr>"

definition TokenProvider_has_issuer :: "TokenProvider \<Rightarrow> string \<Rightarrow> bool" where
  "TokenProvider_has_issuer provider issuer_name \<longleftrightarrow> tp_issuer_keys provider issuer_name \<noteq> None"

definition TokenProvider_get_issuer_key :: "TokenProvider \<Rightarrow> string \<Rightarrow> TokenType \<Rightarrow> PublicKey option" where
  "TokenProvider_get_issuer_key provider issuer_name type = find_key provider issuer_name type"

subsection \<open>Requests\<close>

definition request_context :: "ChallengeDigest \<Rightarrow> TokenRequestResult \<Rightarrow> TokenRequestContext" where
  "request_context digest result =
     \<lparr>trc_request = trr_request result, trc_finalization_data = trr_finalization_data result,
      trc_challenge_digest = digest\<rparr>"

definition TokenProvider_prepare_request ::
  "('m, 'd, 'r, 'p, 'k, 'b, 't, 'z) ossl_scheme \<Rightarrow> TokenProvider \<Rightarrow> TokenChallenge \<Rightarrow> 'r
     \<Rightarrow> ((TokenRequestContext result \<times> TokenChallenge) \<times> 'r) option" where
  "TokenProvider_prepare_request L provider challenge rng =
     (if \<not> origin_info_allows (pc_origin_name (tp_config provider)) (tc_origin_info challenge) then
        Some ((Err INVALID_CHALLENGE ''Challenge origin_info does not include current origin'', challenge), rng)
      else
        (case find_key provider (tc_issuer_name challenge) (tc_type challenge) of
           None \<Rightarrow>
             Some ((Err ISSUER_UNKNOWN (''No key found for issuer: '' @ tc_issuer_name challenge), challenge), rng)
         | Some key \<Rightarrow>
             (case TokenChallenge_digest L challenge of
                (Inl e, challenge) \<Rightarrow> Some ((Inl e, challenge), rng)
              | (Inr challenge_digest, challenge) \<Rightarrow>
                  if tc_type challenge = BLIND_RSA \<or> tc_type challenge = PARTIALLY_BLIND_RSA then
                    (case BlindRsaPublicKey_from_spki L (pk_data key) of
                       Inl e \<Rightarrow> Some ((Inl e, challenge), rng)
                     | Inr rsa_key \<Rightarrow>
                         map_option (\<lambda>((r, challenge, _), rng).
                             ((try_bind r (\<lambda>result. Ok (request_context challenge_digest result)), challenge), rng))
                           (PublicClient_create_token_request L challenge rsa_key rng))
                  else if tc_type challenge = VOPRF_P384_SHA384 then
                    (case VoprfPublicKey_from_bytes L (pk_data key) of
                       Inl e \<Rightarrow> Some ((Inl e, challenge), rng)
                     | Inr voprf_key \<Rightarrow>
                         map_option (\<lambda>((r, challenge, _), rng).
                             ((try_bind r (\<lambda>result. Ok (request_context challenge_digest result)), challenge), rng))
                           (PrivateClient_create_token_request L challenge voprf_key rng))
                  else Some ((Err UNSUPPORTED_TOKEN_TYPE ''Unsupported token type'', challenge), rng))))"

fun prepare_batch_loop ::
  "('m, 'd, 'r, 'p, 'k, 'b, 't, 'z) ossl_scheme \<Rightarrow> TokenProvider \<Rightarrow> nat \<Rightarrow> TokenRequestContext list
     \<Rightarrow> TokenChallenge \<Rightarrow> 'r \<Rightarrow> ((TokenRequestContext list result \<times> TokenChallenge) \<times> 'r) option" where
  "prepare_batch_loop L provider 0 contexts challenge rng = Some ((Ok contexts, challenge), rng)"
| "prepare_batch_loop L provider (Suc n) contexts challenge rng =
     (case TokenProvider_prepare_request L provider challenge rng of
        None \<Rightarrow> None
      | Some ((Inl e, challenge), rng) \<Rightarrow> Some ((Inl e, challenge), rng)
      | Some ((Inr ctx, challenge), rng) \<Rightarrow> prepare_batch_loop L provider n (contexts @ [ctx]) challenge rng)"

definition TokenProvider_prepare_batch_request ::
  "('m, 'd, 'r, 'p, 'k, 'b, 't, 'z) ossl_scheme \<Rightarrow> TokenProvider \<Rightarrow> TokenChallenge \<Rightarrow> nat \<Rightarrow> 'r
     \<Rightarrow> ((TokenRequestContext list result \<times> TokenChallenge) \<times> 'r) option" where
  "TokenProvider_prepare_batch_request L provider challenge n rng =
     prepare_batch_loop L provider n [] challenge rng"

subsection \<open>Finalization\<close>

text \<open>The loops over the keys: the first that matches and parses finalizes.\<close>

fun finalize_with_rsa ::
  "('m, 'd, 'r, 'p, 'k, 'b, 'z) rsa_api_scheme \<Rightarrow> TokenResponse \<Rightarrow> FinalizationData \<Rightarrow> PublicKey list
     \<Rightarrow> Token result option" where
  "finalize_with_rsa L response fin [] = None"
| "finalize_with_rsa L response fin (key # keys) =
     (if pk_type key = resp_type response \<and> pk_key_id key = fd_token_key_id fin then
        (case BlindRsaPublicKey_from_spki L (pk_data key) of
           Inl e \<Rightarrow> finalize_with_rsa L response fin keys
         | Inr rsa_key \<Rightarrow> Some (PublicClient_finalize L response fin rsa_key))
      else finalize_with_rsa L response fin keys)"

fun finalize_with_voprf ::
  "('m, 'd, 'r, 'p, 'k, 'b, 't, 'z) ossl_scheme \<Rightarrow> TokenResponse \<Rightarrow> FinalizationData \<Rightarrow> PublicKey list
     \<Rightarrow> Token result option" where
  "finalize_with_voprf L response fin [] = None"
| "finalize_with_voprf L response fin (key # keys) =
     (if pk_type key = resp_type response \<and> pk_key_id key = fd_token_key_id fin then
        (case VoprfPublicKey_from_bytes L (pk_data key) of
           Inl e \<Rightarrow> finalize_with_voprf L response fin keys
         | Inr voprf_key \<Rightarrow> Some (PrivateClient_finalize L response fin voprf_key))
      else finalize_with_voprf L response fin keys)"

definition listed_keys :: "TokenProvider \<Rightarrow> string list \<Rightarrow> PublicKey list" where
  "listed_keys provider issuers = concat (map (\<lambda>issuer. the (tp_issuer_keys provider issuer)) issuers)"

definition TokenProvider_finalize ::
  "('m, 'd, 'r, 'p, 'k, 'b, 't, 'z) ossl_scheme \<Rightarrow> string list \<Rightarrow> TokenProvider \<Rightarrow> TokenResponse
     \<Rightarrow> TokenRequestContext \<Rightarrow> Token result" where
  "TokenProvider_finalize L issuers provider response context =
     (case (if resp_type response = BLIND_RSA \<or> resp_type response = PARTIALLY_BLIND_RSA then
              finalize_with_rsa L response (trc_finalization_data context) (listed_keys provider issuers)
            else if resp_type response = VOPRF_P384_SHA384 then
              finalize_with_voprf L response (trc_finalization_data context) (listed_keys provider issuers)
            else None) of
        Some result \<Rightarrow> result
      | None \<Rightarrow> Err ISSUER_UNKNOWN ''No matching key found for finalization'')"

fun finalize_batch_loop ::
  "('m, 'd, 'r, 'p, 'k, 'b, 't, 'z) ossl_scheme \<Rightarrow> string list \<Rightarrow> TokenProvider
     \<Rightarrow> (TokenResponse \<times> TokenRequestContext) list \<Rightarrow> Token list \<Rightarrow> Token list result" where
  "finalize_batch_loop L issuers provider [] tokens = Ok tokens"
| "finalize_batch_loop L issuers provider ((response, context) # rest) tokens =
     try_bind (TokenProvider_finalize L issuers provider response context) (\<lambda>token.
       finalize_batch_loop L issuers provider rest (tokens @ [token]))"

definition TokenProvider_finalize_batch ::
  "('m, 'd, 'r, 'p, 'k, 'b, 't, 'z) ossl_scheme \<Rightarrow> string list \<Rightarrow> TokenProvider \<Rightarrow> TokenResponse list
     \<Rightarrow> TokenRequestContext list \<Rightarrow> Token list result" where
  "TokenProvider_finalize_batch L issuers provider responses contexts =
     (if length responses \<noteq> length contexts then Err MALFORMED_DATA ''Response and context count mismatch''
      else finalize_batch_loop L issuers provider (zip responses contexts) [])"

subsection \<open>The token cache\<close>

text \<open>\<open>token_cache[digest]\<close> creates an empty entry when there is none.\<close>

definition TokenProvider_store_tokens ::
  "ChallengeDigest \<Rightarrow> Token list \<Rightarrow> TokenProvider \<Rightarrow> TokenProvider" where
  "TokenProvider_store_tokens digest tokens provider =
     (let cache = (case tp_token_cache provider digest of None \<Rightarrow> [] | Some cache \<Rightarrow> cache);
          cache = foldl (\<lambda>cache token.
                     if length cache < pc_max_cached_tokens (tp_config provider) then cache @ [token] else cache)
                    cache tokens
      in provider\<lparr>tp_token_cache := (tp_token_cache provider)(digest \<mapsto> cache)\<rparr>)"

definition TokenProvider_get_cached_token ::
  "ChallengeDigest \<Rightarrow> TokenProvider \<Rightarrow> Token option \<times> TokenProvider" where
  "TokenProvider_get_cached_token digest provider =
     (case tp_token_cache provider digest of
        None \<Rightarrow> (None, provider)
      | Some cache \<Rightarrow>
          if cache = [] then (None, provider)
          else
            (let token = last cache; cache = butlast cache
             in (Some token,
                 provider\<lparr>tp_token_cache :=
                   (if cache = [] then (tp_token_cache provider)(digest := None)
                    else (tp_token_cache provider)(digest \<mapsto> cache))\<rparr>)))"

definition TokenProvider_cached_token_count :: "TokenProvider \<Rightarrow> ChallengeDigest \<Rightarrow> nat" where
  "TokenProvider_cached_token_count provider digest =
     (case tp_token_cache provider digest of None \<Rightarrow> 0 | Some cache \<Rightarrow> length cache)"

definition TokenProvider_clear_cache :: "TokenProvider \<Rightarrow> TokenProvider" where
  "TokenProvider_clear_cache provider = provider\<lparr>tp_token_cache := Map.empty\<rparr>"

definition TokenProvider_config :: "TokenProvider \<Rightarrow> TokenProviderConfig" where
  "TokenProvider_config = tp_config"

subsection \<open>What the cache hands out\<close>

definition cached_tokens :: "TokenProvider \<Rightarrow> ChallengeDigest \<Rightarrow> Token list" where
  "cached_tokens provider digest =
     (case tp_token_cache provider digest of None \<Rightarrow> [] | Some cache \<Rightarrow> cache)"

datatype cache_op = Store_op ChallengeDigest "Token list" | Fetch_op ChallengeDigest | Clear_op

fun cache_step :: "cache_op \<Rightarrow> TokenProvider \<Rightarrow> Token option \<times> TokenProvider" where
  "cache_step (Store_op digest tokens) p = (None, TokenProvider_store_tokens digest tokens p)"
| "cache_step (Fetch_op digest) p = TokenProvider_get_cached_token digest p"
| "cache_step Clear_op p = (None, TokenProvider_clear_cache p)"

text \<open>A run of cache operations and the tokens it hands out, each with its digest.\<close>

fun run_cache :: "cache_op list \<Rightarrow> TokenProvider \<Rightarrow> (ChallengeDigest \<times> Token) list \<times> TokenProvider" where
  "run_cache [] p = ([], p)"
| "run_cache (op # ops) p =
     (case cache_step op p of (r, p') \<Rightarrow>
        (case run_cache ops p' of (out, p'') \<Rightarrow>
           ((case (op, r) of (Fetch_op digest, Some token) \<Rightarrow> (digest, token) # out | _ \<Rightarrow> out), p'')))"

definition handed_out :: "ChallengeDigest \<Rightarrow> (ChallengeDigest \<times> Token) list \<Rightarrow> Token list" where
  "handed_out digest out = map snd (filter (\<lambda>(d, _). d = digest) out)"

fun stored_for :: "ChallengeDigest \<Rightarrow> cache_op list \<Rightarrow> Token list" where
  "stored_for digest [] = []"
| "stored_for digest (Store_op d tokens # ops) = (if d = digest then tokens else []) @ stored_for digest ops"
| "stored_for digest (op # ops) = stored_for digest ops"

lemma store_fold:
  "foldl (\<lambda>cache token. if length cache < m then cache @ [token] else cache) cache tokens =
     cache @ take (m - length cache) tokens"
proof (induction tokens arbitrary: cache)
  case (Cons token tokens)
  show ?case
  proof (cases "length cache < m")
    case True
    then have "m - length cache = Suc (m - Suc (length cache))" by simp
    then show ?thesis using True Cons [of "cache @ [token]"] by simp
  qed (use Cons [of cache] in simp)
qed simp

lemma cached_after_store:
  "cached_tokens (TokenProvider_store_tokens digest tokens p) d =
     (if d = digest then cached_tokens p d @ take (pc_max_cached_tokens (tp_config p) - length (cached_tokens p d)) tokens
      else cached_tokens p d)"
  by (simp add: TokenProvider_store_tokens_def cached_tokens_def store_fold Let_def)

lemma fetch_eq:
  "fst (TokenProvider_get_cached_token digest p) =
     (if cached_tokens p digest = [] then None else Some (last (cached_tokens p digest)))"
  "cached_tokens (snd (TokenProvider_get_cached_token digest p)) d =
     (if d = digest then butlast (cached_tokens p d) else cached_tokens p d)"
  by (auto simp: TokenProvider_get_cached_token_def cached_tokens_def Let_def split: option.splits)

lemma config_step [simp]: "tp_config (snd (cache_step op p)) = tp_config p"
  by (cases op) (auto simp: TokenProvider_store_tokens_def TokenProvider_get_cached_token_def
      TokenProvider_clear_cache_def Let_def split: option.splits)

lemma mset_take_subset: "mset (take n xs) \<subseteq># mset xs"
  by (metis append_take_drop_id mset_append mset_subset_eq_add_left)

lemma cached_step:
  "mset (case (op, fst (cache_step op p)) of (Fetch_op d, Some token) \<Rightarrow> if d = digest then [token] else [] | _ \<Rightarrow> [])
     + mset (cached_tokens (snd (cache_step op p)) digest)
   \<subseteq># mset (stored_for digest [op]) + mset (cached_tokens p digest)"
proof (cases op)
  case (Store_op d tokens)
  then show ?thesis by (simp add: cached_after_store mset_take_subset)
next
  case (Fetch_op d)
  show ?thesis
  proof (cases "cached_tokens p d = []")
    case False
    then have "mset (butlast (cached_tokens p d)) + {#last (cached_tokens p d)#} = mset (cached_tokens p d)"
      by (metis append_butlast_last_id mset.simps mset_append add.right_neutral add_mset_add_single)
    then show ?thesis using False by (auto simp: Fetch_op fetch_eq add_mset_commute)
  qed (simp add: Fetch_op fetch_eq)
next
  case Clear_op
  then show ?thesis by (simp add: TokenProvider_clear_cache_def cached_tokens_def)
qed

lemma stored_for_Cons: "stored_for digest (op # ops) = stored_for digest [op] @ stored_for digest ops"
  by (cases op) simp_all

text \<open>No token is handed out more often than it was stored, nor under another digest.\<close>

theorem cache_conserves_tokens:
  "mset (handed_out digest (fst (run_cache ops p))) + mset (cached_tokens (snd (run_cache ops p)) digest)
   \<subseteq># mset (stored_for digest ops) + mset (cached_tokens p digest)"
proof (induction ops arbitrary: p)
  case (Cons op ops)
  obtain r p' where step: "cache_step op p = (r, p')" by (cases "cache_step op p")
  obtain out p'' where run: "run_cache ops p' = (out, p'')" by (cases "run_cache ops p'")
  let ?now = "case (op, r) of (Fetch_op d, Some token) \<Rightarrow> if d = digest then [token] else [] | _ \<Rightarrow> []"
  have out: "handed_out digest (fst (run_cache (op # ops) p)) = ?now @ handed_out digest out"
    by (auto simp: step run handed_out_def split: cache_op.splits option.splits)
  have "mset ?now + mset (cached_tokens p' digest) \<subseteq># mset (stored_for digest [op]) + mset (cached_tokens p digest)"
    using cached_step [where op = op and p = p and digest = digest] by (simp add: step)
  moreover have "mset (handed_out digest out) + mset (cached_tokens p'' digest)
      \<subseteq># mset (stored_for digest ops) + mset (cached_tokens p' digest)"
    using Cons.IH [of p'] by (simp add: run)
  ultimately have "(mset ?now + mset (cached_tokens p' digest)) +
      (mset (handed_out digest out) + mset (cached_tokens p'' digest))
      \<subseteq># (mset (stored_for digest [op]) + mset (cached_tokens p digest)) +
      (mset (stored_for digest ops) + mset (cached_tokens p' digest))"
    by (rule subset_mset.add_mono)
  then have "mset ?now + mset (handed_out digest out) + mset (cached_tokens p'' digest)
      \<subseteq># mset (stored_for digest [op]) + mset (stored_for digest ops) + mset (cached_tokens p digest)"
    by (simp add: ac_simps)
  then show ?case unfolding out stored_for_Cons [of digest op ops] by (simp add: step run ac_simps)
qed (simp add: handed_out_def)

text \<open>No entry of the cache outgrows the configured maximum.\<close>

lemma cache_step_bounded:
  assumes "\<forall>d. length (cached_tokens p d) \<le> pc_max_cached_tokens (tp_config p)"
  shows "length (cached_tokens (snd (cache_step op p)) d) \<le> pc_max_cached_tokens (tp_config p)"
proof (cases op)
  case (Store_op digest tokens)
  then show ?thesis using assms [THEN spec, of d] by (cases "d = digest") (auto simp: cached_after_store)
next
  case (Fetch_op digest)
  then show ?thesis using assms [THEN spec, of d] by (cases "d = digest") (auto simp: fetch_eq)
next
  case Clear_op
  then show ?thesis by (simp add: TokenProvider_clear_cache_def cached_tokens_def)
qed

theorem cache_bounded:
  assumes "\<forall>d. length (cached_tokens p d) \<le> pc_max_cached_tokens (tp_config p)"
  shows "length (cached_tokens (snd (run_cache ops p)) d) \<le> pc_max_cached_tokens (tp_config p)"
  using assms
proof (induction ops arbitrary: p)
  case (Cons op ops)
  have "\<forall>d. length (cached_tokens (snd (cache_step op p)) d) \<le> pc_max_cached_tokens (tp_config (snd (cache_step op p)))"
    using cache_step_bounded [OF Cons.prems] by simp
  from Cons.IH [OF this] show ?case by (simp split: prod.splits) (metis config_step snd_conv)
qed simp

subsection \<open>Requests and finalization\<close>

text \<open>A request is made only for an origin that the challenge allows and a known issuer key.\<close>

lemma prepare_request_Ok:
  assumes "TokenProvider_prepare_request L provider challenge rng = Some ((Ok ctx, challenge'), rng')"
  shows "origin_info_allows (pc_origin_name (tp_config provider)) (tc_origin_info challenge)
    \<and> (\<exists>key. find_key provider (tc_issuer_name challenge) (tc_type challenge) = Some key)"
  using assms
  by (auto simp: TokenProvider_prepare_request_def split: if_splits option.splits)

lemma digest_cached_again:
  "TokenChallenge_digest L c = (Ok d, c') \<Longrightarrow> TokenChallenge_digest L c' = (Ok d, c')"
  using TokenChallenge_digest_again by blast

lemma prepare_rsa_Ok:
  assumes type: "tc_type challenge = BLIND_RSA \<or> tc_type challenge = PARTIALLY_BLIND_RSA"
    and key: "find_key provider (tc_issuer_name challenge) (tc_type challenge) = Some key"
      "BlindRsaPublicKey_from_spki L (pk_data key) = Ok rsa_key"
    and prepare: "TokenProvider_prepare_request L provider challenge rng = Some ((Ok ctx, challenge'), rng')"
  shows "\<exists>d c res key'. TokenChallenge_digest L challenge = (Ok d, c)
    \<and> PublicClient_create_token_request L c rsa_key rng = Some ((Ok res, challenge', key'), rng')
    \<and> ctx = request_context d res"
  using prepare type
  by (auto simp: TokenProvider_prepare_request_def key try_bind_Ok_iff dest!: digest_keeps_type
      split: if_splits sum.splits prod.splits)

lemma finalize_with_rsa_first:
  assumes parse: "BlindRsaPublicKey_from_spki L data = Ok rsa_key"
    and match: "matches = (\<lambda>k. pk_type k = resp_type response \<and> pk_key_id k = fd_token_key_id fin)"
  shows "(\<exists>k \<in> set keys. matches k) \<Longrightarrow> (\<forall>k \<in> set keys. matches k \<longrightarrow> pk_data k = data) \<Longrightarrow>
    finalize_with_rsa L response fin keys = Some (PublicClient_finalize L response fin rsa_key)"
proof (induction keys)
  case (Cons k keys)
  show ?case
  proof (cases "matches k")
    case True
    then have "pk_data k = data" using Cons.prems(2) by simp
    then show ?thesis using True parse by (simp add: match)
  next
    case False
    then have "\<exists>k \<in> set keys. matches k" "\<forall>k \<in> set keys. matches k \<longrightarrow> pk_data k = data" using Cons.prems by auto
    from Cons.IH [OF this] show ?thesis using False by (auto simp: match)
  qed
qed simp

lemma PublicClient_finalize_pkey:
  assumes "bpk_pkey k = bpk_pkey k'"
  shows "PublicClient_finalize L response fin k = PublicClient_finalize L response fin k'"
proof -
  have v: "BlindRsaPublicKey_verify L k = BlindRsaPublicKey_verify L k'"
    by (intro ext) (simp add: BlindRsaPublicKey_verify_def assms)
  have "BlindRsaPublicKey_finalize L k = BlindRsaPublicKey_finalize L k'"
    by (intro ext) (simp only: BlindRsaPublicKey_finalize_def assms v)
  then show ?thesis by (simp only: PublicClient_finalize_def)
qed

lemma find_key_listed:
  assumes "find_key provider issuer type = Some key" "issuer \<in> set issuers"
  shows "key \<in> set (listed_keys provider issuers) \<and> pk_type key = type"
proof -
  obtain keys where keys: "tp_issuer_keys provider issuer = Some keys" "List.find (\<lambda>key. pk_type key = type) keys = Some key"
    using assms(1) by (auto simp: find_key_def split: option.splits)
  then have "key \<in> set keys \<and> pk_type key = type" by (metis (mono_tags, lifting) find_Some_iff nth_mem)
  then show ?thesis using assms(2) keys(1) by (force simp: listed_keys_def)
qed

text \<open>
  The whole exchange for a Blind RSA token: the provider prepares a request, the issuer
  answers it, the provider finalizes the answer with a key it looks up again, and the origin
  that trusts the key accepts the token for the challenge.
\<close>

theorem provider_token_complete:
  assumes bn: "bn_documented L" and evp: "evp_documented L H"
    and key: "find_key provider (tc_issuer_name challenge) BLIND_RSA = Some key"
      "BlindRsaPublicKey_from_spki L (pk_data key) = Ok rsa_key" "bpk_pkey rsa_key = Some pkey"
      "fst (BlindRsaPublicKey_key_id L rsa_key) = Ok (pk_key_id key)"
    and issuers: "tc_issuer_name challenge \<in> set issuers"
    and unique: "\<forall>k \<in> set (listed_keys provider issuers).
      pk_type k = BLIND_RSA \<and> pk_key_id k = pk_key_id key \<longrightarrow> pk_data k = pk_data key"
    and pub: "public_key_documented L H em_ok pkey n e"
    and priv: "private_key_documented L skey n e d" "bsk_pkey (pi_private_key issuer) = Some skey"
    and id: "pi_truncated_key_id issuer = pk_key_id key ! 31"
    and type: "tc_type challenge = BLIND_RSA"
    and prepare: "TokenProvider_prepare_request L provider challenge rng = Some ((Ok ctx, challenge'), rng')"
    and trust: "trusted origin (pk_key_id key) = Some okey" "bpk_pkey okey = Some pkey"
  shows "\<exists>resp token. PublicIssuer_issue L issuer (trc_request ctx) = Ok resp
    \<and> TokenProvider_finalize L issuers provider resp ctx = Ok token
    \<and> fst (PublicOrigin_verify L origin token challenge) = Ok True"
proof -
  have find: "find_key provider (tc_issuer_name challenge) (tc_type challenge) = Some key"
    using key(1) by (simp only: type)
  obtain dg c res key' where dg: "TokenChallenge_digest L challenge = (Ok dg, c)"
    and create: "PublicClient_create_token_request L c rsa_key rng = Some ((Ok res, challenge', key'), rng')"
    and ctx: "ctx = request_context dg res"
    using prepare_rsa_Ok [OF disjI1 [OF type] find key(2) prepare] by (elim exE conjE) (rule that)
  have ctype: "tc_type c = BLIND_RSA" using digest_keeps_type [OF dg] type by simp
  obtain resp token where issue: "PublicIssuer_issue L issuer (trr_request res) = Ok resp"
    and fin: "PublicClient_finalize L resp (trr_finalization_data res) key' = Ok token"
    and ok: "fst (PublicOrigin_verify L origin token c) = Ok True"
    using public_token_complete [OF bn evp pub key(3) priv disjI1 [OF ctype] key(4) id create trust]
    by (elim exE conjE) (rule that)
  obtain bs where resp: "resp = create_blind_rsa bs"
    using issue by (auto simp: PublicIssuer_issue_def try_bind_Ok_iff split: if_splits)
  obtain kid where kid: "BlindRsaPublicKey_key_id L rsa_key = (Ok kid, key')"
    and fd: "fd_token_key_id (trr_finalization_data res) = kid"
    using PublicClient_create_Ok [OF create] by auto
  have same: "bpk_pkey key' = bpk_pkey rsa_key" by (rule key_id_keeps_pkey [OF kid])
  have kid': "kid = pk_key_id key" using key(4) by (simp add: kid)
  have listed: "key \<in> set (listed_keys provider issuers)" and ktype: "pk_type key = BLIND_RSA"
    using find_key_listed [OF key(1) issuers] by blast+
  have rtype: "resp_type resp = BLIND_RSA" by (simp add: resp create_blind_rsa_def)
  have some: "\<exists>k \<in> set (listed_keys provider issuers). pk_type k = resp_type resp
      \<and> pk_key_id k = fd_token_key_id (trr_finalization_data res)"
    using listed by (rule rev_bexI) (simp only: ktype rtype fd kid' simp_thms)
  have all: "\<forall>k \<in> set (listed_keys provider issuers). pk_type k = resp_type resp
      \<and> pk_key_id k = fd_token_key_id (trr_finalization_data res) \<longrightarrow> pk_data k = pk_data key"
    using unique by (simp only: rtype fd kid')
  have "finalize_with_rsa L resp (trr_finalization_data res) (listed_keys provider issuers)
      = Some (PublicClient_finalize L resp (trr_finalization_data res) rsa_key)"
    by (rule finalize_with_rsa_first [OF key(2) refl some all])
  moreover have "PublicClient_finalize L resp (trr_finalization_data res) rsa_key
      = PublicClient_finalize L resp (trr_finalization_data res) key'"
    by (rule PublicClient_finalize_pkey) (simp add: same)
  ultimately have "TokenProvider_finalize L issuers provider resp ctx = Ok token"
    using fin by (simp add: TokenProvider_finalize_def ctx request_context_def resp create_blind_rsa_def)
  moreover have "fst (PublicOrigin_verify L origin token challenge) = Ok True"
    using ok by (simp add: PublicOrigin_accepts_iff dg digest_cached_again [OF dg])
  ultimately show ?thesis using issue by (auto simp: ctx request_context_def)
qed

text \<open>
  A Blind RSA issuer answers a request for a partially blind token with a response of the
  type Blind RSA, and the provider looks for a key of the type of the response.
\<close>

lemma partially_blind_unmatched:
  assumes "PublicIssuer_issue L issuer request = Ok resp"
    and "\<forall>k \<in> set (listed_keys provider issuers).
      pk_key_id k = fd_token_key_id (trc_finalization_data ctx) \<longrightarrow> pk_type k \<noteq> BLIND_RSA"
  shows "TokenProvider_finalize L issuers provider resp ctx
    = Err ISSUER_UNKNOWN ''No matching key found for finalization''"
proof -
  obtain bs where resp: "resp = create_blind_rsa bs"
    using assms(1) by (auto simp: PublicIssuer_issue_def try_bind_Ok_iff split: if_splits)
  have "finalize_with_rsa L resp fin keys = None"
    if "\<forall>k \<in> set keys. pk_key_id k = fd_token_key_id fin \<longrightarrow> pk_type k \<noteq> BLIND_RSA" for fin keys
    using that by (induction keys) (auto simp: resp create_blind_rsa_def)
  from this [OF assms(2)] show ?thesis by (simp add: TokenProvider_finalize_def resp create_blind_rsa_def)
qed

end
