(* ===== verification/PP_Lifecycle.thy ===== *)
theory PP_Lifecycle
  imports Main
begin

text \<open>
  \<open>initialize\<close> and \<open>shutdown\<close> of src/core/types.cpp, called by any number of threads. A step
  is one atomic action of one thread: entering or leaving \<open>std::call_once\<close>, a call of the
  backend, an access to the atomic flag \<open>g_initialized\<close>. The counters record the calls of the
  backend that have happened. A call that returns without an effect is not a step.
\<close>

datatype once_state = Once_ready | Once_running | Once_done

text \<open>Where a thread is: outside, in one of the three lines of the initializer, or after the exchange.\<close>

datatype thread_pc = Idle | At_backend_init | At_flag_store | At_once_exit | At_backend_shutdown

record 'tid Lifecycle =
  lc_once :: once_state
  lc_initialized :: bool
  lc_pc :: "'tid \<Rightarrow> thread_pc"
  lc_inits :: nat
  lc_shutdowns :: nat

definition Lifecycle_start :: "'tid Lifecycle" where
  "Lifecycle_start =
     \<lparr>lc_once = Once_ready, lc_initialized = False, lc_pc = (\<lambda>_. Idle), lc_inits = 0, lc_shutdowns = 0\<rparr>"

definition move_to :: "'tid \<Rightarrow> thread_pc \<Rightarrow> 'tid Lifecycle \<Rightarrow> 'tid Lifecycle" where
  "move_to t pc s = s\<lparr>lc_pc := (lc_pc s)(t := pc)\<rparr>"

inductive lifecycle_step :: "'tid Lifecycle \<Rightarrow> 'tid Lifecycle \<Rightarrow> bool" where
  enter_once: "lc_pc s t = Idle \<Longrightarrow> lc_once s = Once_ready \<Longrightarrow>
    lifecycle_step s (move_to t At_backend_init s\<lparr>lc_once := Once_running\<rparr>)"
| backend_init: "lc_pc s t = At_backend_init \<Longrightarrow>
    lifecycle_step s (move_to t At_flag_store s\<lparr>lc_inits := Suc (lc_inits s)\<rparr>)"
| flag_store: "lc_pc s t = At_flag_store \<Longrightarrow>
    lifecycle_step s (move_to t At_once_exit s\<lparr>lc_initialized := True\<rparr>)"
| leave_once: "lc_pc s t = At_once_exit \<Longrightarrow>
    lifecycle_step s (move_to t Idle s\<lparr>lc_once := Once_done\<rparr>)"
| exchange: "lc_pc s t = Idle \<Longrightarrow> lc_initialized s \<Longrightarrow>
    lifecycle_step s (move_to t At_backend_shutdown s\<lparr>lc_initialized := False\<rparr>)"
| backend_shutdown: "lc_pc s t = At_backend_shutdown \<Longrightarrow>
    lifecycle_step s (move_to t Idle s\<lparr>lc_shutdowns := Suc (lc_shutdowns s)\<rparr>)"

definition lifecycle_reach :: "'tid Lifecycle \<Rightarrow> bool" where
  "lifecycle_reach s \<longleftrightarrow> lifecycle_step\<^sup>*\<^sup>* Lifecycle_start s"

inductive_cases lifecycle_stepE: "lifecycle_step s s'"

subsection \<open>The invariant\<close>

text \<open>
  Before the flag is first stored, at most the thread in \<open>call_once\<close> is not idle. After it,
  the backend was initialized once, and the flag is up, or was taken down by one thread that
  is about to shut the backend down, or the backend was shut down, once.
\<close>

definition starting :: "'tid Lifecycle \<Rightarrow> bool" where
  "starting s \<longleftrightarrow>
     \<not> lc_initialized s \<and> lc_shutdowns s = 0 \<and>
     (lc_once s = Once_ready \<and> lc_inits s = 0 \<and> (\<forall>t. lc_pc s t = Idle) \<or>
      lc_once s = Once_running \<and>
        (\<exists>a. (\<forall>t. t \<noteq> a \<longrightarrow> lc_pc s t = Idle) \<and>
             (lc_pc s a = At_backend_init \<and> lc_inits s = 0 \<or> lc_pc s a = At_flag_store \<and> lc_inits s = 1)))"

definition once_ok :: "'tid Lifecycle \<Rightarrow> bool" where
  "once_ok s \<longleftrightarrow>
     (\<forall>t. lc_pc s t \<in> {Idle, At_once_exit, At_backend_shutdown}) \<and>
     (lc_once s = Once_done \<and> (\<forall>t. lc_pc s t \<noteq> At_once_exit) \<or>
      lc_once s = Once_running \<and> (\<exists>a. \<forall>t. lc_pc s t = At_once_exit \<longleftrightarrow> t = a))"

definition flag_ok :: "'tid Lifecycle \<Rightarrow> bool" where
  "flag_ok s \<longleftrightarrow>
     lc_shutdowns s = 0 \<and> lc_initialized s \<and> (\<forall>t. lc_pc s t \<noteq> At_backend_shutdown) \<or>
     lc_shutdowns s = 0 \<and> \<not> lc_initialized s \<and> (\<exists>a. \<forall>t. lc_pc s t = At_backend_shutdown \<longleftrightarrow> t = a) \<or>
     lc_shutdowns s = 1 \<and> \<not> lc_initialized s \<and> (\<forall>t. lc_pc s t \<noteq> At_backend_shutdown)"

definition started :: "'tid Lifecycle \<Rightarrow> bool" where
  "started s \<longleftrightarrow> lc_inits s = 1 \<and> once_ok s \<and> flag_ok s"

lemma starting_owner:
  assumes "starting s" "lc_pc s t \<noteq> Idle"
  shows "lc_once s = Once_running \<and> (\<forall>u. u \<noteq> t \<longrightarrow> lc_pc s u = Idle) \<and>
    (lc_pc s t = At_backend_init \<and> lc_inits s = 0 \<or> lc_pc s t = At_flag_store \<and> lc_inits s = 1)"
  using assms unfolding starting_def by metis

lemma starting_flags: "starting s \<Longrightarrow> \<not> lc_initialized s \<and> lc_shutdowns s = 0"
  by (simp add: starting_def)

lemma starting_step:
  assumes "starting s" "lifecycle_step s s'"
  shows "starting s' \<or> started s'"
  using assms(2)
proof cases
  case (enter_once t)
  then have "starting s'" using assms(1)
    by (auto simp: starting_def move_to_def intro!: exI [of _ t])
  then show ?thesis ..
next
  case (backend_init t)
  then have "starting s'" using starting_owner [OF assms(1), of t] starting_flags [OF assms(1)]
    by (auto simp: starting_def move_to_def intro!: exI [of _ t])
  then show ?thesis ..
next
  case (flag_store t)
  then have "started s'" using starting_owner [OF assms(1), of t] starting_flags [OF assms(1)]
    by (auto simp: started_def once_ok_def flag_ok_def move_to_def)
  then show ?thesis ..
next
  case (leave_once t)
  then show ?thesis using starting_owner [OF assms(1), of t] by simp
next
  case (exchange t)
  then show ?thesis using starting_flags [OF assms(1)] by simp
next
  case (backend_shutdown t)
  then show ?thesis using starting_owner [OF assms(1), of t] by simp
qed

lemma started_pc:
  assumes "started s"
  shows "lc_pc s t \<noteq> At_backend_init" "lc_pc s t \<noteq> At_flag_store" "lc_once s \<noteq> Once_ready"
proof -
  have "lc_pc s t \<in> {Idle, At_once_exit, At_backend_shutdown}" "lc_once s \<noteq> Once_ready"
    using assms unfolding started_def once_ok_def by (blast, metis once_state.distinct(1,3))
  then show "lc_pc s t \<noteq> At_backend_init" "lc_pc s t \<noteq> At_flag_store" "lc_once s \<noteq> Once_ready" by auto
qed

lemma started_step:
  assumes "started s" "lifecycle_step s s'"
  shows "started s'"
  using assms(2)
proof cases
  case (leave_once t)
  have "once_ok s'" using assms(1) leave_once unfolding started_def once_ok_def by (auto simp: move_to_def)
  moreover have "flag_ok s'"
  proof -
    have "lc_pc s' u = At_backend_shutdown \<longleftrightarrow> lc_pc s u = At_backend_shutdown" for u
      using leave_once by (simp add: move_to_def)
    then show ?thesis using assms(1) leave_once by (simp add: started_def flag_ok_def move_to_def)
  qed
  ultimately show ?thesis using assms(1) leave_once by (simp add: started_def move_to_def)
next
  case (exchange t)
  have "lc_pc s' u = At_once_exit \<longleftrightarrow> lc_pc s u = At_once_exit" for u
    using exchange by (simp add: move_to_def)
  then have "once_ok s'" using assms(1) exchange by (simp add: started_def once_ok_def move_to_def)
  moreover have "flag_ok s'"
    using assms(1) exchange by (auto simp: started_def flag_ok_def move_to_def intro!: exI [of _ t])
  ultimately show ?thesis using assms(1) exchange by (simp add: started_def move_to_def)
next
  case (backend_shutdown t)
  have "lc_pc s' u = At_once_exit \<longleftrightarrow> lc_pc s u = At_once_exit" for u
    using backend_shutdown by (simp add: move_to_def)
  then have "once_ok s'" using assms(1) backend_shutdown by (simp add: started_def once_ok_def move_to_def)
  moreover have "flag_ok s'"
    using assms(1) backend_shutdown by (auto simp: started_def flag_ok_def move_to_def)
  ultimately show ?thesis using assms(1) backend_shutdown by (simp add: started_def move_to_def)
qed (use started_pc [OF assms(1)] in simp_all)

lemma starting_start: "starting Lifecycle_start"
  by (simp add: starting_def Lifecycle_start_def)

lemma lifecycle_inv: "lifecycle_reach s \<Longrightarrow> starting s \<or> started s"
  unfolding lifecycle_reach_def
  by (induction rule: rtranclp_induct) (use starting_start starting_step started_step in blast)+

text \<open>Once the backend was shut down, nothing brings it back: no later call initializes it.\<close>

definition finished :: "'tid Lifecycle \<Rightarrow> bool" where
  "finished s \<longleftrightarrow> started s \<and> lc_shutdowns s = 1"

lemma finished_step: "finished s \<Longrightarrow> lifecycle_step s s' \<Longrightarrow> finished s'"
  using started_step [of s s'] unfolding finished_def started_def flag_ok_def
  by (auto elim!: lifecycle_stepE simp: move_to_def)

lemma finished_steps: "lifecycle_step\<^sup>*\<^sup>* s s' \<Longrightarrow> finished s \<Longrightarrow> finished s'"
  by (induction rule: rtranclp_induct) (use finished_step in blast)+

end
