(* ===== verification/PP_Secure_Bytes.thy ===== *)
theory PP_Secure_Bytes
  imports PP_Types
begin

text \<open>
  \<open>SecureBytes\<close> of core/types.hpp: a vector whose bytes are cleared before its memory is
  given back. The model keeps the memory block of the vector, of which the first \<open>sb_size\<close>
  bytes are elements, and each operation returns the blocks it gives back to the allocator
  with the bytes they hold then; the empty block stands for no block. A vector keeps its block
  while the block is large enough; otherwise its elements move to a new block, whose bytes behind
  the elements nobody has written: \<open>fresh c n\<close> is what the allocator left there when a block of
  \<open>c\<close> bytes grew for \<open>n\<close> elements, so its length is the library's growth policy.
\<close>

record SecureBytes =
  sb_block :: bytes
  sb_size :: nat

definition SecureBytes_default :: SecureBytes where
  "SecureBytes_default = \<lparr>sb_block = [], sb_size = 0\<rparr>"

definition SecureBytes_sized :: "nat \<Rightarrow> SecureBytes" where
  "SecureBytes_sized n = \<lparr>sb_block = replicate n 0, sb_size = n\<rparr>"

definition SecureBytes_from_view :: "bytes \<Rightarrow> SecureBytes" where
  "SecureBytes_from_view data = \<lparr>sb_block = data, sb_size = length data\<rparr>"

definition SecureBytes_view :: "SecureBytes \<Rightarrow> bytes" where
  "SecureBytes_view s = take (sb_size s) (sb_block s)"

definition SecureBytes_empty :: "SecureBytes \<Rightarrow> bool" where
  "SecureBytes_empty s \<longleftrightarrow> sb_size s = 0"

text \<open>\<open>OPENSSL_cleanse\<close> on the first bytes of a block.\<close>

definition secure_clear :: "bytes \<Rightarrow> nat \<Rightarrow> bytes" where
  "secure_clear block len = replicate len 0 @ drop len block"

definition SecureBytes_clear :: "SecureBytes \<Rightarrow> SecureBytes" where
  "SecureBytes_clear s =
     (if sb_size s \<noteq> 0 then \<lparr>sb_block = secure_clear (sb_block s) (sb_size s), sb_size = 0\<rparr> else s)"

definition SecureBytes_resize :: "(nat \<Rightarrow> nat \<Rightarrow> bytes) \<Rightarrow> nat \<Rightarrow> SecureBytes \<Rightarrow> SecureBytes \<times> bytes list" where
  "SecureBytes_resize fresh n s =
     (if n \<le> length (sb_block s) then
        (\<lparr>sb_block = take (sb_size s) (sb_block s) @ replicate (n - sb_size s) 0
            @ drop (max n (sb_size s)) (sb_block s), sb_size = n\<rparr>, [])
      else
        (\<lparr>sb_block = take (sb_size s) (sb_block s) @ replicate (n - sb_size s) 0
            @ fresh (length (sb_block s)) n, sb_size = n\<rparr>, [sb_block s]))"

text \<open>\<open>s[i] = b\<close>, for an index of an element; another index is undefined behaviour.\<close>

definition SecureBytes_store :: "nat \<Rightarrow> byte \<Rightarrow> SecureBytes \<Rightarrow> SecureBytes" where
  "SecureBytes_store i b s = s\<lparr>sb_block := (sb_block s)[i := b]\<rparr>"

text \<open>
  A move empties the source; the target of an assignment is cleared and gives its block back.
  The two objects of an assignment are distinct here, since the code does nothing otherwise.
\<close>

definition SecureBytes_move :: "SecureBytes \<Rightarrow> SecureBytes \<times> SecureBytes" where
  "SecureBytes_move other = (other, SecureBytes_default)"

definition SecureBytes_move_assign ::
  "SecureBytes \<Rightarrow> SecureBytes \<Rightarrow> (SecureBytes \<times> SecureBytes) \<times> bytes list" where
  "SecureBytes_move_assign this other =
     (SecureBytes_move other, [sb_block (SecureBytes_clear this)])"

definition SecureBytes_destroy :: "SecureBytes \<Rightarrow> bytes list" where
  "SecureBytes_destroy s = [sb_block (SecureBytes_clear s)]"

subsection \<open>What is given back\<close>

definition all_zero :: "bytes \<Rightarrow> bool" where
  "all_zero bs \<longleftrightarrow> (\<forall>b \<in> set bs. b = 0)"

text \<open>The bytes of the block that are not elements are zero, so clearing the elements clears it.\<close>

definition sb_ok :: "SecureBytes \<Rightarrow> bool" where
  "sb_ok s \<longleftrightarrow> sb_size s \<le> length (sb_block s) \<and> all_zero (drop (sb_size s) (sb_block s))"

lemma all_zero_simps [simp]:
  "all_zero []" "all_zero (b # bs) \<longleftrightarrow> b = 0 \<and> all_zero bs"
  "all_zero (xs @ ys) \<longleftrightarrow> all_zero xs \<and> all_zero ys" "all_zero (replicate n 0)"
  by (auto simp: all_zero_def)

lemma all_zero_drop: "all_zero (drop m xs) \<Longrightarrow> m \<le> n \<Longrightarrow> all_zero (drop n xs)"
  using set_drop_subset_set_drop [of m n xs] by (auto simp: all_zero_def)

lemma sb_ok_new:
  "sb_ok SecureBytes_default" "sb_ok (SecureBytes_sized n)" "sb_ok (SecureBytes_from_view data)"
  by (simp_all add: sb_ok_def SecureBytes_default_def SecureBytes_sized_def SecureBytes_from_view_def)

lemma clear_ok: "sb_ok s \<Longrightarrow> sb_ok (SecureBytes_clear s) \<and> all_zero (sb_block (SecureBytes_clear s))"
  by (auto simp: sb_ok_def SecureBytes_clear_def secure_clear_def)

lemma length_block_resize:
  assumes "sb_size s \<le> length (sb_block s)"
  shows "length (sb_block (fst (SecureBytes_resize fresh n s)))
    = (if n \<le> length (sb_block s) then length (sb_block s) else n + length (fresh (length (sb_block s)) n))"
  using assms by (auto simp: SecureBytes_resize_def max_def)

text \<open>The elements after a resize, and the memory it gives back.\<close>

lemma resize_view:
  assumes "sb_size s \<le> length (sb_block s)"
  shows "SecureBytes_view (fst (SecureBytes_resize fresh n s)) = take n (SecureBytes_view s) @ replicate (n - sb_size s) 0"
  using assms by (auto simp: SecureBytes_resize_def SecureBytes_view_def max_def min_def)

lemma resize_releases:
  "snd (SecureBytes_resize fresh n s) = (if n \<le> length (sb_block s) then [] else [sb_block s])"
  by (simp add: SecureBytes_resize_def)

text \<open>
  A resize that grows inside the block keeps the invariant. One that shrinks leaves the cut bytes
  in the block, and one that moves a vector with elements gives the old block back as it is.
\<close>

lemma resize_ok:
  assumes "sb_ok s" "sb_size s \<le> n" "n \<le> length (sb_block s)"
  shows "sb_ok (fst (SecureBytes_resize fresh n s))"
  using assms all_zero_drop [of "sb_size s" "sb_block s" n]
  by (auto simp: SecureBytes_resize_def sb_ok_def max_def)

lemma store_ok: "sb_ok s \<Longrightarrow> i < sb_size s \<Longrightarrow> sb_ok (SecureBytes_store i b s)"
  by (simp add: sb_ok_def SecureBytes_store_def)

lemma released_zero:
  assumes "sb_ok s"
  shows "\<forall>b \<in> set (SecureBytes_destroy s). all_zero b"
    "\<forall>b \<in> set (snd (SecureBytes_move_assign s other)). all_zero b"
  using clear_ok [OF assms] by (simp_all add: SecureBytes_destroy_def SecureBytes_move_assign_def)

text \<open>Shrinking, then destroying, gives the cut bytes back.\<close>

lemma shrink_leaks:
  assumes "sb_ok s" "n < sb_size s" "\<not> all_zero (drop n (SecureBytes_view s))"
  shows "\<exists>b \<in> set (SecureBytes_destroy (fst (SecureBytes_resize fresh n s))). \<not> all_zero b"
proof -
  have len: "sb_size s \<le> length (sb_block s)" using assms(1) by (simp add: sb_ok_def)
  have tail: "\<not> all_zero (drop n (sb_block s))"
  proof
    assume a: "all_zero (drop n (sb_block s))"
    have "set (drop n (SecureBytes_view s)) \<subseteq> set (drop n (sb_block s))"
      unfolding SecureBytes_view_def drop_take by (rule set_take_subset)
    then show False using a assms(3) by (auto simp: all_zero_def)
  qed
  have block: "sb_block (fst (SecureBytes_resize fresh n s)) = sb_block s" "sb_size (fst (SecureBytes_resize fresh n s)) = n"
    using assms(2) len by (simp_all add: SecureBytes_resize_def max_def)
  then have "sb_block (SecureBytes_clear (fst (SecureBytes_resize fresh n s))) =
      (if n = 0 then sb_block s else replicate n 0 @ drop n (sb_block s))"
    by (auto simp: SecureBytes_clear_def secure_clear_def)
  then show ?thesis using tail by (simp add: SecureBytes_destroy_def split: if_splits)
qed

subsection \<open>Reachable buffers\<close>

text \<open>
  \<open>sb_reach s\<close>: \<open>s\<close> comes from the constructors by stores, clears, moves, assignments and resizes
  that stay inside the block and do not shrink. Both objects of a move and of an assignment are
  reached, and the source of an assignment is any reached object.
\<close>

inductive sb_reach :: "SecureBytes \<Rightarrow> bool" where
  default: "sb_reach SecureBytes_default"
| sized: "sb_reach (SecureBytes_sized n)"
| from_view: "sb_reach (SecureBytes_from_view data)"
| store: "sb_reach s \<Longrightarrow> i < sb_size s \<Longrightarrow> sb_reach (SecureBytes_store i b s)"
| clear: "sb_reach s \<Longrightarrow> sb_reach (SecureBytes_clear s)"
| resize: "sb_reach s \<Longrightarrow> sb_size s \<le> n \<Longrightarrow> n \<le> length (sb_block s) \<Longrightarrow>
    sb_reach (fst (SecureBytes_resize fresh n s))"
| move_target: "sb_reach other \<Longrightarrow> sb_reach (fst (SecureBytes_move other))"
| move_source: "sb_reach other \<Longrightarrow> sb_reach (snd (SecureBytes_move other))"
| assign_target: "sb_reach this \<Longrightarrow> sb_reach other \<Longrightarrow>
    sb_reach (fst (fst (SecureBytes_move_assign this other)))"
| assign_source: "sb_reach this \<Longrightarrow> sb_reach other \<Longrightarrow>
    sb_reach (snd (fst (SecureBytes_move_assign this other)))"

lemma sb_reach_ok: "sb_reach s \<Longrightarrow> sb_ok s"
  by (induction rule: sb_reach.induct)
    (simp_all add: sb_ok_new store_ok clear_ok resize_ok SecureBytes_move_def SecureBytes_move_assign_def)

end
