(* ===== verification/PP_Sample_Key.thy ===== *)
theory PP_Sample_Key
  imports PP_Field
begin

text \<open>
  A concrete RSA key of 2048 bits with the public exponent 65537, for the witnesses of the
  properties about Blind RSA. Its modulus is a product of many small primes, so that the
  law of the key, that raising to both exponents is the identity, has a short proof: Fermat's
  theorem for each prime, and the Chinese remainder argument for the product. The key is of
  no cryptographic use; it shows that the hypotheses about keys can hold.
\<close>

subsection \<open>Primes and their product\<close>

definition small_primes :: "int list" where
  "small_primes = [2, 3, 5, 7, 11, 13, 17, 19, 23, 29, 31, 37, 41, 43, 47, 53,
      59, 61, 67, 71, 73, 79, 83, 89, 97]"

definition trial_prime :: "nat \<Rightarrow> bool" where
  "trial_prime p \<longleftrightarrow> 1 < p \<and> p < 10000 \<and> list_all (\<lambda>r. int p mod r \<noteq> 0 \<or> int p = r) small_primes"

lemma small_factor:
  assumes "2 \<le> d" "d < (100 :: nat)"
  shows "\<exists>r \<in> set small_primes. r dvd int d"
proof -
  have "list_all (\<lambda>d. list_ex (\<lambda>r. d mod r = 0) small_primes) [2..99]"
    by code_simp
  then have all: "\<forall>d \<in> {2..99}. list_ex (\<lambda>r. d mod r = 0) small_primes"
    by (simp only: list_all_iff set_upto)
  have "list_ex (\<lambda>r. int d mod r = 0) small_primes"
    by (rule bspec [OF all]) (use assms in simp)
  then show ?thesis by (auto simp: list_ex_iff)
qed

lemma trial_prime_coprime:
  assumes "trial_prime p" "0 < k" "k < p"
  shows "coprime p k"
proof (rule ccontr)
  assume "\<not> coprime p k"
  define g where "g = gcd p k"
  have "g \<noteq> 1" using \<open>\<not> coprime p k\<close> by (simp add: g_def coprime_iff_gcd_eq_1)
  moreover have "0 < g" using assms(2) by (simp add: g_def)
  ultimately have g: "1 < g" by linarith
  have less: "g < p" using dvd_imp_le [OF gcd_dvd2 assms(2), of p] assms(3) unfolding g_def by linarith
  obtain h where h: "p = g * h" unfolding g_def by (metis gcd_dvd1 dvdE)
  have h1: "1 < h"
  proof (rule ccontr)
    assume "\<not> 1 < h"
    then have "h = 0 \<or> h = 1" by auto
    then show False using h less by auto
  qed
  have small: "p < 100 * 100" using assms(1) by (simp add: trial_prime_def)
  obtain d where d: "d dvd p" "2 \<le> d" "d < p" "d < 100"
  proof (cases "g < 100")
    case True
    then show ?thesis using that [of g] g less h by auto
  next
    case False
    have "h < 100"
    proof (rule ccontr)
      assume "\<not> h < 100"
      then have "100 * 100 \<le> g * h" using False by (intro mult_le_mono) simp_all
      then show False using h small by simp
    qed
    moreover have "h < p" using g h h1 by simp
    ultimately show ?thesis using that [of h] h h1 by auto
  qed
  obtain r where r: "r \<in> set small_primes" "r dvd int d" using small_factor [OF d(2,4)] by blast
  have "r \<le> int d" using r(2) d(2) by (intro zdvd_imp_le) simp_all
  moreover have "r dvd int p" using r(2) d(1) dvd_trans int_dvd_int_iff by blast
  ultimately show False using assms(1) r(1) d(3) by (force simp: trial_prime_def list_all_iff)
qed

lemma trial_prime_modulus: "trial_prime p \<Longrightarrow> prime_modulus p"
  using trial_prime_coprime [of p] by (simp add: prime_modulus_def trial_prime_def)

lemma coprime_prod_list:
  "(\<And>q. q \<in> set qs \<Longrightarrow> coprime (p :: nat) q) \<Longrightarrow> coprime p (prod_list qs)"
  by (induction qs) simp_all

lemma dvd_prod_list:
  "sorted_wrt (<) ps \<Longrightarrow> list_all trial_prime ps \<Longrightarrow> (\<And>p. p \<in> set ps \<Longrightarrow> int p dvd x) \<Longrightarrow> int (prod_list ps) dvd x"
proof (induction ps)
  case (Cons p ps)
  have "coprime p q" if "q \<in> set ps" for q
    using trial_prime_coprime [of q p] Cons.prems(1,2) that by (auto simp: list_all_iff trial_prime_def coprime_commute)
  then have "coprime p (prod_list ps)" by (rule coprime_prod_list)
  moreover have "int p dvd x" "int (prod_list ps) dvd x" using Cons by simp_all
  ultimately show ?case by (simp add: divides_mult coprime_int_iff)
qed simp

lemma mod_prod_list:
  assumes "sorted_wrt (<) ps" "list_all trial_prime ps" "\<And>p. p \<in> set ps \<Longrightarrow> a mod p = b mod p"
  shows "a mod prod_list ps = b mod prod_list ps"
proof -
  have "int p dvd int a - int b" if "p \<in> set ps" for p
    using assms(3) [OF that] by (metis mod_eq_dvd_iff zmod_int)
  then have "int (prod_list ps) dvd int a - int b" by (rule dvd_prod_list [OF assms(1,2)])
  then show ?thesis by (metis mod_eq_dvd_iff zmod_int of_nat_eq_iff)
qed

lemma key_law:
  assumes "sorted_wrt (<) ps" "list_all trial_prime ps" "list_all (\<lambda>p. (int k - 1) mod (int p - 1) = 0) ps" "0 < k"
  shows "m ^ k mod prod_list ps = m mod prod_list ps"
proof (rule mod_prod_list [OF assms(1,2)])
  fix p
  assume p: "p \<in> set ps"
  then have "trial_prime p" "(int k - 1) mod (int p - 1) = 0" using assms(2,3) by (simp_all add: list_all_iff)
  moreover from this have "int (k - 1) mod int (p - 1) = 0" using assms(4) by (simp add: trial_prime_def of_nat_diff)
  ultimately obtain c where "k - 1 = c * (p - 1)"
    by (metis dvd_div_mult_self int_dvd_int_iff mod_eq_0_iff_dvd)
  then have "k = Suc (c * (p - 1))" using assms(4) by simp
  then show "m ^ k mod p = m mod p"
    using fermat_step [OF trial_prime_modulus [OF \<open>trial_prime p\<close>]] by simp
qed

lemma sorted_by_successive: "successively (<) xs \<Longrightarrow> sorted_wrt (<) (xs :: int list)"
  by (simp add: successively_conv_sorted_wrt)

subsection \<open>The key\<close>

definition primes_0 :: "int list" where
  "primes_0 =
     [3, 5, 7, 11, 13, 17, 19, 23, 29, 31, 37, 41, 43, 53, 61, 67,
      71, 73, 79, 89]"

definition primes_1 :: "int list" where
  "primes_1 =
     [97, 101, 103, 109, 113, 127, 131, 137, 151, 157, 181, 191, 193, 199, 211, 229,
      239, 241, 257, 271]"

definition primes_2 :: "int list" where
  "primes_2 =
     [281, 307, 313, 331, 337, 353, 379, 397, 401, 409, 419, 421, 433, 443, 449, 457,
      463, 521, 541, 547]"

definition primes_3 :: "int list" where
  "primes_3 =
     [571, 577, 601, 613, 617, 631, 641, 647, 661, 673, 701, 757, 761, 769, 859, 881,
      911, 919, 937, 953]"

definition primes_4 :: "int list" where
  "primes_4 =
     [991, 1009, 1021, 1051, 1093, 1123, 1153, 1171, 1201, 1217, 1249, 1301, 1321, 1327, 1361, 1409,
      1429, 1483, 1531, 1597]"

definition primes_5 :: "int list" where
  "primes_5 =
     [1601, 1801, 1871, 1873, 1901, 1951, 2003, 2017, 2053, 2081, 2113, 2129, 2143, 2161, 2281, 2311,
      2341, 2377, 2381, 2521]"

definition primes_6 :: "int list" where
  "primes_6 =
     [2551, 2689, 2731, 2801, 2851, 2857, 2861, 2927, 2971, 3041, 3061, 3121, 3169, 3301, 3329, 3361,
      3433, 3457, 3511, 3571]"

definition primes_7 :: "int list" where
  "primes_7 =
     [3673, 3697, 3851, 3877, 4159, 4201, 4447, 4481, 4523, 4561, 4591, 4621, 4789, 4801, 4951, 4993,
      5101, 5237, 5281, 5441]"

definition primes_8 :: "int list" where
  "primes_8 =
     [5701, 5851, 6007, 6121, 6271, 6301, 6337, 6427, 6529, 6553, 6689, 6733, 6841, 6917, 7151, 7297,
      7393, 7411, 7481, 7489]"

definition primes_9 :: "int list" where
  "primes_9 =
     [7561, 7723, 7753, 8009, 8161, 8191, 8209, 8317, 8513, 8581, 8641, 8737, 8779, 8893, 9181, 9241,
      9283, 9521, 9601, 9829]"

definition primes_10 :: "int list" where
  "primes_10 =
     [9857, 9901]"

lemmas primes_defs = primes_0_def primes_1_def primes_2_def primes_3_def primes_4_def primes_5_def
      primes_6_def primes_7_def primes_8_def primes_9_def primes_10_def

definition sample_primes :: "nat list" where
  "sample_primes = map nat (concat [primes_0, primes_1, primes_2, primes_3, primes_4, primes_5,
      primes_6, primes_7, primes_8, primes_9, primes_10])"

definition sample_e :: nat where "sample_e = 65537"

definition sample_d :: nat where "sample_d = 55603382273"

definition sample_n :: nat where
  "sample_n = prod_list sample_primes"

definition int_trial :: "int \<Rightarrow> bool" where
  "int_trial p \<longleftrightarrow> 1 < p \<and> p < 10000 \<and> list_all (\<lambda>r. p mod r \<noteq> 0 \<or> p = r) small_primes"

lemma int_trial_prime: "int_trial p \<Longrightarrow> trial_prime (nat p)"
  by (auto simp: int_trial_def trial_prime_def nat_less_iff)

definition exponent_ok :: "int \<Rightarrow> bool" where
  "exponent_ok p \<longleftrightarrow> 3644078864025600 mod (p - 1) = 0"

lemma primes_0_prime: "list_all int_trial primes_0"
  by code_simp

lemma primes_1_prime: "list_all int_trial primes_1"
  by code_simp

lemma primes_2_prime: "list_all int_trial primes_2"
  by code_simp

lemma primes_3_prime: "list_all int_trial primes_3"
  by code_simp

lemma primes_4_prime: "list_all int_trial primes_4"
  by code_simp

lemma primes_5_prime: "list_all int_trial primes_5"
  by code_simp

lemma primes_6_prime: "list_all int_trial primes_6"
  by code_simp

lemma primes_7_prime: "list_all int_trial primes_7"
  by code_simp

lemma primes_8_prime: "list_all int_trial primes_8"
  by code_simp

lemma primes_9_prime: "list_all int_trial primes_9"
  by code_simp

lemma primes_10_prime: "list_all int_trial primes_10"
  by code_simp

lemma primes_0_exponent: "list_all exponent_ok primes_0"
  by code_simp

lemma primes_1_exponent: "list_all exponent_ok primes_1"
  by code_simp

lemma primes_2_exponent: "list_all exponent_ok primes_2"
  by code_simp

lemma primes_3_exponent: "list_all exponent_ok primes_3"
  by code_simp

lemma primes_4_exponent: "list_all exponent_ok primes_4"
  by code_simp

lemma primes_5_exponent: "list_all exponent_ok primes_5"
  by code_simp

lemma primes_6_exponent: "list_all exponent_ok primes_6"
  by code_simp

lemma primes_7_exponent: "list_all exponent_ok primes_7"
  by code_simp

lemma primes_8_exponent: "list_all exponent_ok primes_8"
  by code_simp

lemma primes_9_exponent: "list_all exponent_ok primes_9"
  by code_simp

lemma primes_10_exponent: "list_all exponent_ok primes_10"
  by code_simp

definition int_primes :: "int list" where
  "int_primes = concat [primes_0, primes_1, primes_2, primes_3, primes_4, primes_5, primes_6,
      primes_7, primes_8, primes_9, primes_10]"

lemma sample_primes_eq: "sample_primes = map nat int_primes"
  by (simp only: sample_primes_def int_primes_def)

lemma int_primes_trial: "list_all int_trial int_primes"
  by (simp add: int_primes_def primes_0_prime primes_1_prime primes_2_prime primes_3_prime
      primes_4_prime primes_5_prime primes_6_prime primes_7_prime primes_8_prime primes_9_prime
      primes_10_prime)

lemma int_primes_exponents: "list_all exponent_ok int_primes"
  by (simp add: int_primes_def primes_0_exponent primes_1_exponent primes_2_exponent
      primes_3_exponent primes_4_exponent primes_5_exponent primes_6_exponent primes_7_exponent
      primes_8_exponent primes_9_exponent primes_10_exponent)

lemma int_primes_sorted: "sorted_wrt (<) int_primes"
  by (rule sorted_by_successive) code_simp

lemma int_primes_positive: "p \<in> set int_primes \<Longrightarrow> 1 < p"
  using int_primes_trial by (simp add: list_all_iff int_trial_def)

lemma sample_primes_prime: "list_all trial_prime sample_primes"
  using int_primes_trial int_trial_prime by (simp add: sample_primes_eq list_all_iff)

lemma sample_exponents: "list_all (\<lambda>p. (int (sample_e * sample_d) - 1) mod (int p - 1) = 0) sample_primes"
proof -
  have "int (sample_e * sample_d) - 1 = 3644078864025600" by (simp add: sample_e_def sample_d_def)
  moreover have "(3644078864025600 :: int) mod (int (nat p) - 1) = 0" if "p \<in> set int_primes" for p
    using int_primes_exponents int_primes_positive [OF that] that by (simp add: list_all_iff exponent_ok_def)
  ultimately show ?thesis by (auto simp only: sample_primes_eq list_all_iff set_map)
qed

lemma sample_primes_sorted: "sorted_wrt (<) sample_primes"
  unfolding sample_primes_eq sorted_wrt_map
  by (rule sorted_wrt_mono_rel [OF _ int_primes_sorted]) (use int_primes_positive in force)

lemma primes_0_prod: "prod_list primes_0 = 51635482202185338767222958045"
  by code_simp

lemma primes_1_prod: "prod_list primes_1 = 172848287275609507931867327489862136450544579"
  by code_simp

lemma primes_2_prod: "prod_list primes_2 = 13003869980175297579429614954186487765592612226524091"
  by code_simp

lemma primes_3_prod: "prod_list primes_3 = 1531794730792036534773745405079898240744898860287402764321"
  by code_simp

lemma primes_4_prod: "prod_list primes_4 = 73561244070398267248296228511521234558674242630341704241377023"
  by code_simp

lemma primes_5_prod: "prod_list primes_5 = 2372706590874531610349166684062858978542677114346882435458847731563"
  by code_simp

lemma primes_6_prod: "prod_list primes_6 = 5380271748563038829783743627199820451275868144200721671685742726918171"
  by code_simp

lemma primes_7_prod: "prod_list primes_7 = 13477741464732014661569143738962045632635719217834779412111598839148172917"
  by code_simp

lemma primes_8_prod: "prod_list primes_8 = 28826079507470909040196290475509745506541424159384856600644105850696002548861"
  by code_simp

lemma primes_9_prod: "prod_list primes_9 =
      5041926461498163771335463396169319952816416869279406561414245926977120146222577"
  by code_simp

lemma primes_10_prod: "prod_list primes_10 = 97594157"
  by code_simp

lemma prod_list_nat: "(\<And>p. p \<in> set ps \<Longrightarrow> 1 < p) \<Longrightarrow> prod_list (map nat ps) = nat (prod_list ps) \<and> 0 < prod_list ps"
proof (induction ps)
  case (Cons a ps)
  then have IH: "prod_list (map nat ps) = nat (prod_list ps) \<and> 0 < prod_list ps" by simp
  have "1 < a" using Cons.prems by simp
  then show ?case using IH by (simp add: nat_mult_distrib)
qed simp

definition chunk_products :: "int list" where
  "chunk_products = [51635482202185338767222958045, 172848287275609507931867327489862136450544579,
      13003869980175297579429614954186487765592612226524091,
      1531794730792036534773745405079898240744898860287402764321,
      73561244070398267248296228511521234558674242630341704241377023,
      2372706590874531610349166684062858978542677114346882435458847731563,
      5380271748563038829783743627199820451275868144200721671685742726918171,
      13477741464732014661569143738962045632635719217834779412111598839148172917,
      28826079507470909040196290475509745506541424159384856600644105850696002548861,
      5041926461498163771335463396169319952816416869279406561414245926977120146222577, 97594157]"

lemma int_primes_prod: "prod_list int_primes = prod_list chunk_products"
  by (simp only: int_primes_def chunk_products_def concat.simps append_Nil2 prod_list.append prod_list.Cons
      prod_list.Nil mult_1_right
      primes_0_prod primes_1_prod primes_2_prod primes_3_prod primes_4_prod primes_5_prod primes_6_prod primes_7_prod primes_8_prod primes_9_prod primes_10_prod)

lemma sample_n_prod: "int sample_n = prod_list chunk_products"
  using prod_list_nat [of int_primes] int_primes_positive
  by (simp add: sample_n_def sample_primes_eq int_primes_prod [symmetric])

lemma sample_key_law: "m < sample_n \<Longrightarrow> m ^ (sample_e * sample_d) mod sample_n = m"
proof -
  assume m: "m < sample_n"
  have "0 < sample_e * sample_d" by (simp add: sample_e_def sample_d_def)
  from key_law [OF sample_primes_sorted sample_primes_prime sample_exponents this, of m]
  have "m ^ (sample_e * sample_d) mod sample_n = m mod sample_n" by (simp only: sample_n_def)
  then show ?thesis by (simp only: mod_less [OF m])
qed

text \<open>
  The size of the modulus needs no evaluation of the product: bounds of its factors with a
  mantissa of 24 bits are enough.
\<close>

definition scaled :: "(int \<times> nat) list \<Rightarrow> int list" where
  "scaled = map (\<lambda>(m, k). m * 2 ^ k)"

lemma prod_scaled: "prod_list (scaled ps) = prod_list (map fst ps) * 2 ^ sum_list (map snd ps)"
  by (induction ps) (auto simp: scaled_def power_add)

lemma prod_list_mono:
  "list_all2 (\<lambda>x y. 0 < x \<and> x \<le> y) xs ys \<Longrightarrow> 0 < prod_list xs \<and> prod_list xs \<le> prod_list (ys :: int list)"
  by (induction rule: list_all2_induct) (auto intro!: mult_mono)

definition lower_factors :: "(int \<times> nat) list" where
  "lower_factors = [(10934238, 72), (16254574, 123), (9111151, 150), (16376507, 166), (12000237,
      182), (11812311, 197), (13078716, 208), (15997350, 219), (16706542, 230), (11414516, 238),
      (12199269, 3)]"

definition upper_factors :: "(int \<times> nat) list" where
  "upper_factors = [(10934239, 72), (16254575, 123), (9111152, 150), (16376508, 166), (12000238,
      182), (11812312, 197), (13078717, 208), (15997351, 219), (16706543, 230), (11414517, 238),
      (12199270, 3)]"

lemma factors_bounded:
  "list_all2 (\<lambda>x y. 0 < x \<and> x \<le> y) (scaled lower_factors) chunk_products"
  "list_all2 (\<lambda>x y. 0 < x \<and> x \<le> y) chunk_products (scaled upper_factors)"
  by (simp_all add: scaled_def lower_factors_def upper_factors_def chunk_products_def)

lemma lower_product: "2 ^ 2047 \<le> prod_list (scaled lower_factors)"
  by (simp add: prod_scaled lower_factors_def)

lemma upper_product: "prod_list (scaled upper_factors) < 2 ^ 2048"
  by (simp add: prod_scaled upper_factors_def)

lemma sample_n_bits: "2 ^ 2047 \<le> sample_n" "sample_n < 2 ^ 2048"
proof -
  have "int (2 ^ 2047) \<le> int sample_n"
    using prod_list_mono [OF factors_bounded(1)] lower_product by (simp add: sample_n_prod)
  then show "2 ^ 2047 \<le> sample_n" by (simp only: of_nat_le_iff)
  have "int sample_n < int (2 ^ 2048)"
    using prod_list_mono [OF factors_bounded(2)] upper_product by (simp add: sample_n_prod)
  then show "sample_n < 2 ^ 2048" by (simp only: of_nat_less_iff)
qed

lemma odd_prod_list: "list_all odd xs \<Longrightarrow> odd (prod_list (xs :: int list))"
  by (induction xs) simp_all

lemma sample_n_odd: "odd sample_n"
proof -
  have "list_all odd chunk_products" by (simp add: chunk_products_def)
  then have "odd (int sample_n)" unfolding sample_n_prod by (rule odd_prod_list)
  then show ?thesis by simp
qed

end
