(* ===== verification/PP_Sswu_Total.thy ===== *)
theory PP_Sswu_Total
  imports PP_Sswu PP_Field
begin

text \<open>
  Hashing to the curve never fails. RFC 9380 chooses the constants of the simplified SWU map
  so that one of its two candidates is always the x-coordinate of a point:
  \<open>g (Z u\<^sup>2 x) = (Z u\<^sup>2)\<^sup>3 g x\<close> for the candidates \<open>x\<close> and \<open>Z u\<^sup>2 x\<close>, and \<open>Z\<close> is not a square. That
  is proved here for the code's map, from the properties of the constants.
\<close>

subsection \<open>The constants\<close>

text \<open>
  What RFC 9380 asks of \<open>p\<close>, \<open>A\<close>, \<open>B\<close> and \<open>Z = -12\<close>: \<open>p\<close> is a prime that is 3 modulo 4, \<open>A\<close> is not
  zero, \<open>Z\<close> is not a square and \<open>g (B / (Z A))\<close> is one.
\<close>

definition sswu_parameters :: "nat \<Rightarrow> nat \<Rightarrow> nat \<Rightarrow> bool" where
  "sswu_parameters p A B \<longleftrightarrow>
     prime_modulus p \<and> p mod 4 = 3 \<and> 12 < p \<and> 0 < A \<and> A < p \<and> euler p (p - 12) = p - 1 \<and>
     (\<forall>i. ((p - 12) * A * i) mod p = 1 \<longrightarrow>
        swu_g p A B ((B * i) mod p) = 0 \<or> euler p (swu_g p A B ((B * i) mod p)) = 1)"

definition inverts :: "(nat \<Rightarrow> nat option) \<Rightarrow> nat \<Rightarrow> bool" where
  "inverts invert p \<longleftrightarrow>
     (\<forall>a. coprime a p \<longrightarrow> (\<exists>b. invert a = Some b)) \<and>
     (\<forall>a b. invert a = Some b \<longrightarrow> (a * b) mod p = 1 mod p)"

lemma bn_inverts: "bn_documented L \<Longrightarrow> 1 < p \<Longrightarrow> inverts (\<lambda>a. BN_mod_inverse L a p) p"
  using bn_doc_inverse [of L] by (auto simp: inverts_def)

subsection \<open>The two candidates\<close>

lemma swu_g_int: "int (swu_g p A B x) = (int x ^ 3 + int A * int x + int B) mod int p"
  by (simp add: swu_g_def zmod_int)

lemma swu_g_mod: "swu_g p A B (x mod p) = swu_g p A B x"
  unfolding swu_g_def by (intro mod_add_cong refl) (simp_all add: power_mod mod_mult_right_eq)

text \<open>The identity of the candidates, from the equation that defines the first.\<close>

lemma candidate_identity:
  fixes w x :: nat
  assumes eq: "(int A * (int w ^ 2 + int w) * int x + (int w ^ 2 + int w + 1) * int B) mod int p = 0"
  shows "swu_g p A B (w * x) = (w ^ 3 * swu_g p A B x) mod p"
proof -
  let ?a = "int A" and ?b = "int B" and ?w = "int w" and ?x = "int x"
  have "int p dvd (?w - 1) * (?a * (?w ^ 2 + ?w) * ?x + (?w ^ 2 + ?w + 1) * ?b)"
    using eq by (intro dvd_mult) (rule mod_0_imp_dvd)
  also have "(?w - 1) * (?a * (?w ^ 2 + ?w) * ?x + (?w ^ 2 + ?w + 1) * ?b)
      = ?w ^ 3 * (?x ^ 3 + ?a * ?x + ?b) - ((?w * ?x) ^ 3 + ?a * (?w * ?x) + ?b)"
    by (simp add: algebra_simps power2_eq_square power3_eq_cube)
  finally have "(?w ^ 3 * (?x ^ 3 + ?a * ?x + ?b)) mod int p = ((?w * ?x) ^ 3 + ?a * (?w * ?x) + ?b) mod int p"
    by (simp only: mod_eq_dvd_iff)
  then have "int (swu_g p A B (w * x)) = int ((w ^ 3 * swu_g p A B x) mod p)"
    by (simp add: swu_g_int zmod_int mod_mult_right_eq)
  then show ?thesis by (simp only: of_nat_eq_iff)
qed

text \<open>The equation holds for \<open>x = (v + 1) B i\<close> when \<open>i\<close> inverts \<open>-A v\<close> and \<open>v = w\<^sup>2 + w\<close>.\<close>

lemma first_candidate:
  assumes A: "A \<le> p" and v: "v = (w ^ 2 + w) mod p" and i: "((v * (p - A)) mod p * i) mod p = 1 mod p"
  shows "(int A * (int w ^ 2 + int w) * int (((v + 1) * B * i) mod p)
    + (int w ^ 2 + int w + 1) * int B) mod int p = 0"
proof -
  let ?v = "int w ^ 2 + int w"
  have vm: "int v mod int p = ?v mod int p" by (simp add: v zmod_int)
  have "int (v * (p - A)) = int v * (int p - int A)" by (simp add: of_nat_diff A)
  then have "int ((v * (p - A)) mod p) mod int p = (int v * (int p - int A)) mod int p" by (simp only: zmod_int mod_mod_trivial)
  also have "\<dots> = (?v * (int p - int A)) mod int p" by (rule mod_mult_cong [OF vm refl])
  finally have e1: "(int ((v * (p - A)) mod p) * int i) mod int p = (?v * (int p - int A) * int i) mod int p"
    by (rule mod_mult_cong [OF _ refl])
  have e2: "(int ((v * (p - A)) mod p) * int i) mod int p = 1 mod int p"
    using i by (metis of_nat_1 of_nat_mult zmod_int)
  have "int p dvd ?v * (int p - int A) * int i - 1"
    by (rule iffD1 [OF mod_eq_dvd_iff trans [OF e1 [symmetric] e2]])
  moreover have "int p dvd int p * (?v * int i)" by simp
  ultimately have "int p dvd int p * (?v * int i) - (?v * (int p - int A) * int i - 1)" by (rule dvd_diff [rotated])
  then have inv: "int p dvd ?v * int A * int i + 1" by (simp add: algebra_simps)
  have xm: "int (((v + 1) * B * i) mod p) mod int p = ((?v + 1) * int B * int i) mod int p"
  proof -
    have "int (((v + 1) * B * i) mod p) mod int p = ((int v + 1) * int B * int i) mod int p"
      by (simp only: zmod_int of_nat_mult of_nat_add of_nat_1 mod_mod_trivial)
    also have "\<dots> = ((?v + 1) * int B * int i) mod int p"
      by (rule mod_mult_cong [OF mod_mult_cong [OF mod_add_cong [OF vm refl] refl] refl])
    finally show ?thesis .
  qed
  have "(int A * ?v * int (((v + 1) * B * i) mod p) + (?v + 1) * int B) mod int p
      = (int A * ?v * ((?v + 1) * int B * int i) + (?v + 1) * int B) mod int p"
    by (rule mod_add_cong [OF mod_mult_cong [OF refl xm] refl])
  also have "int A * ?v * ((?v + 1) * int B * int i) + (?v + 1) * int B
      = ((?v + 1) * int B) * (?v * int A * int i + 1)" by (simp add: algebra_simps)
  also have "\<dots> mod int p = 0" using inv by (intro dvd_imp_mod_0 dvd_mult)
  finally show ?thesis .
qed

text \<open>Of the two candidates one is a square.\<close>

lemma one_is_square:
  assumes par: "sswu_parameters p A B"
    and w: "w = ((p - 12) * u ^ 2) mod p" "w \<noteq> 0"
    and g: "swu_g p A B (w * x) = (w ^ 3 * swu_g p A B x) mod p"
    and no: "\<not> (euler p (swu_g p A B x) = 1 \<or> swu_g p A B x = 0)"
  shows "euler p (swu_g p A B (w * x)) = 1"
proof -
  have prime: "prime_modulus p" and p4: "p mod 4 = 3" and z: "euler p (p - 12) = p - 1" and p12: "12 < p"
    using par by (simp_all add: sswu_parameters_def)
  have p: "1 < p" by (rule prime_modulus_gt [OF prime])
  have odd: "odd p" using p4 by presburger
  have u: "u mod p \<noteq> 0"
  proof
    assume "u mod p = 0"
    then have "p dvd (p - 12) * u ^ 2" by (simp add: mod_0_imp_dvd power2_eq_square)
    then show False using w by (simp add: dvd_imp_mod_0)
  qed
  have minus: "(p - 1) * (p - 1) mod p = 1"
  proof -
    obtain r where r: "p = r + 2" using p by (metis add.commute less_iff_Suc_add add_2_eq_Suc' add_Suc_right plus_1_eq_Suc)
    have "(p - 1) * (p - 1) = 1 + p * r" by (simp add: r algebra_simps)
    then show ?thesis by (simp only: mod_mult_self2 mod_less [OF p])
  qed
  have "euler p (u ^ 2) = (euler p u * euler p u) mod p" by (simp add: power2_eq_square euler_mult)
  also have "\<dots> = 1" using euler_cases [OF prime odd u] minus p by auto
  finally have u2: "euler p (u ^ 2) = 1" .
  have ew: "euler p w = p - 1"
  proof -
    have "euler p w = euler p ((p - 12) * u ^ 2)" by (rule euler_cong) (simp add: w(1))
    also have "\<dots> = p - 1" using p by (simp add: euler_mult z u2)
    finally show ?thesis .
  qed
  have "euler p (w ^ 3) = ((p - 1) * (p - 1) mod p * (p - 1)) mod p"
    by (simp add: power3_eq_cube euler_mult ew mod_mult_left_eq)
  then have w3: "euler p (w ^ 3) = p - 1" using minus p by simp
  have gx: "euler p (swu_g p A B x) = p - 1"
  proof -
    have "swu_g p A B x mod p \<noteq> 0" using no by (simp add: swu_g_def)
    then show ?thesis using euler_cases [OF prime odd] no by blast
  qed
  have "euler p (swu_g p A B (w * x)) = euler p (w ^ 3 * swu_g p A B x)"
    by (rule euler_cong) (simp add: g)
  also have "\<dots> = 1" using minus by (simp only: euler_mult w3 gx)
  finally show ?thesis .
qed

subsection \<open>The map\<close>

text \<open>The denominator has an inverse.\<close>

lemma sswu_denominator_inverse:
  assumes par: "sswu_parameters p A B" and inv: "inverts invert p"
  obtains i where "invert (swu_t p A u) = Some i" "(swu_t p A u * i) mod p = 1 mod p"
proof -
  have prime: "prime_modulus p" and A: "0 < A" "A < p" and p12: "12 < p"
    using par by (simp_all add: sswu_parameters_def)
  have unit: "A mod p \<noteq> 0" "(p - A) mod p \<noteq> 0" "(p - 12) mod p \<noteq> 0" using A p12 by simp_all
  have v: "swu_v p u mod p = swu_v p u" by (simp add: swu_v_def)
  have "swu_t p A u \<noteq> 0"
    using nonzero_mult [OF prime unit(3,1)] nonzero_mult [OF prime _ unit(2), of "swu_v p u"] v
    by (auto simp: swu_t_def)
  moreover have "swu_t p A u mod p = swu_t p A u" by (simp add: swu_t_def)
  ultimately have "coprime (swu_t p A u) p" using prime_modulus_unit [OF prime, of "swu_t p A u"] by simp
  then show thesis using that inv by (auto simp: inverts_def)
qed

text \<open>If the first candidate is not a square, the second one is.\<close>

lemma sswu_second_candidate:
  assumes par: "sswu_parameters p A B" and inv: "(swu_t p A u * i) mod p = 1 mod p"
    and no: "\<not> (euler p (swu_g p A B (swu_x1 p B u i)) = 1 \<or> swu_g p A B (swu_x1 p B u i) = 0)"
  shows "euler p (swu_g p A B (swu_w p u * swu_x1 p B u i)) = 1"
proof -
  have p: "1 < p" and A: "A \<le> p" using par prime_modulus_gt by (auto simp: sswu_parameters_def)
  have v: "swu_v p u \<noteq> 0"
  proof
    assume v: "swu_v p u = 0"
    then have "((p - 12) * A * i) mod p = 1" using inv p by (simp add: swu_t_def mod_mult_left_eq)
    then show False using par no v by (auto simp: sswu_parameters_def swu_x1_def)
  qed
  then have w: "swu_w p u \<noteq> 0" by (metis swu_v_def add_0 mod_0 zero_eq_power2)
  have wi: "((swu_v p u * (p - A)) mod p * i) mod p = 1 mod p" using inv v by (simp add: swu_t_def)
  have "swu_g p A B (swu_w p u * swu_x1 p B u i)
      = (swu_w p u ^ 3 * swu_g p A B (swu_x1 p B u i)) mod p"
    by (rule candidate_identity)
      (simp only: swu_x1_def first_candidate [OF A swu_v_def wi])
  then show ?thesis using one_is_square [OF par _ w, of u "swu_x1 p B u i"] no by (simp add: swu_w_def)
qed

theorem sswu_reference_total:
  assumes par: "sswu_parameters p A B" and inv: "inverts invert p"
  shows "\<exists>x y. sswu_reference invert p A B u = Some (x, y) \<and> y ^ 2 mod p = swu_g p A B x"
proof -
  have p: "0 < p" and p4: "p mod 4 = 3" using par by (simp_all add: sswu_parameters_def)
  obtain i where i: "invert (swu_t p A u) = Some i" "(swu_t p A u * i) mod p = 1 mod p"
    by (rule sswu_denominator_inverse [OF par inv])
  obtain x y where sel: "swu_select p A B (swu_x1 p B u i) ((swu_w p u * swu_x1 p B u i) mod p) = (x, y)"
    by fastforce
  have ref: "sswu_reference invert p A B u = Some (x, swu_sign p u y)"
    by (simp add: sswu_reference_steps i sel)
  have root: "swu_sqrt p (swu_g p A B z) ^ 2 mod p = swu_g p A B z"
    if "euler p (swu_g p A B z) = 1 \<or> swu_g p A B z = 0" for z
    using square_root_power [OF p4, of "swu_g p A B z"] that by (auto simp: swu_sqrt_def swu_g_def)
  have "swu_sqrt p (swu_g p A B x) ^ 2 mod p = swu_g p A B x"
  proof (cases "swu_sqrt p (swu_g p A B (swu_x1 p B u i)) ^ 2 mod p = swu_g p A B (swu_x1 p B u i)")
    case True
    then show ?thesis using sel by (simp add: swu_select_def)
  next
    case False
    then have "euler p (swu_g p A B (swu_w p u * swu_x1 p B u i)) = 1"
      using sswu_second_candidate [OF par i(2)] root by blast
    then show ?thesis
      using root [of "(swu_w p u * swu_x1 p B u i) mod p"] False sel
      by (auto simp: swu_select_def swu_g_mod)
  qed
  from sswu_reference_on_curve [OF ref p this] show ?thesis using ref by blast
qed

definition affine_documented ::
  "('m, 'd, 'r, 'p, 'k, 'b, 't, 'z) ossl_scheme \<Rightarrow> nat \<Rightarrow> nat \<Rightarrow> nat \<Rightarrow> bool" where
  "affine_documented L p A B \<longleftrightarrow>
     EC_GROUP_get_curve L = (p, A, B) \<and>
     (\<forall>x y. y ^ 2 mod p = swu_g p A B x \<longrightarrow> fst (EC_POINT_set_affine_coordinates L x y) = 1)"

theorem map_to_curve_total:
  assumes doc: "ec_documented L q pt" and aff: "affine_documented L p A B" and par: "sswu_parameters p A B"
  shows "\<exists>x y. y ^ 2 mod p = swu_g p A B x
    \<and> map_to_curve_sswu L u = Ok (snd (EC_POINT_set_affine_coordinates L x y))"
proof -
  have p: "12 < p" "A \<le> p" "1 < p" using par by (simp_all add: sswu_parameters_def)
  obtain x y where xy: "sswu_reference (\<lambda>a. BN_mod_inverse L a p) p A B u = Some (x, y)"
    "y ^ 2 mod p = swu_g p A B x"
    using sswu_reference_total [OF par bn_inverts [OF ec_doc_bn [OF doc] p(3)]] by blast
  have curve: "EC_GROUP_get_curve L = (p, A, B)" and "fst (EC_POINT_set_affine_coordinates L x y) = 1"
    using aff xy(2) by (simp_all add: affine_documented_def)
  then have "map_to_curve_sswu L u = Ok (snd (EC_POINT_set_affine_coordinates L x y))"
    unfolding map_to_curve_sswu_reference [OF doc curve p(1,2)] xy(1) by (simp add: case_prod_unfold)
  then show ?thesis using xy(2) by blast
qed

theorem hash_to_curve_total:
  assumes doc: "ec_documented L q pt" and aff: "affine_documented L p A B" and par: "sswu_parameters p A B"
    and evp: "evp_documented L H" and len: "length input \<le> INT_MAX"
  shows "\<exists>a. hash_to_curve L input = Ok (pt a)"
proof -
  note bn = ec_doc_bn [OF doc]
  have map: "\<exists>a. map_to_curve_sswu L u = Ok (pt a)" for u
  proof -
    obtain x y where xy: "y ^ 2 mod p = swu_g p A B x"
      "map_to_curve_sswu L u = Ok (snd (EC_POINT_set_affine_coordinates L x y))"
      using map_to_curve_total [OF doc aff par] by blast
    have "fst (EC_POINT_set_affine_coordinates L x y) = 1" using aff xy(1) by (simp add: affine_documented_def)
    then obtain P where "EC_POINT_set_affine_coordinates L x y = (1, P)" by (metis prod.collapse)
    with xy(2) group_doc(12) [OF doc] show ?thesis by fastforce
  qed
  have xmd: "expand_message_xmd L input DST_H2C 144 = Ok (xmd_reference (H EVP_sha384) input DST_H2C 144)"
    using expand_message_xmd_reference [OF evp, of 144 DST_H2C input] by (simp add: DST_H2C_def str_bytes_def)
  obtain a where a: "map_to_curve_sswu L (snd (BN_mod L (be_val (take 72 (xmd_reference (H EVP_sha384) input DST_H2C 144))) p)) = Ok (pt a)"
    using map by blast
  obtain b where b: "map_to_curve_sswu L (snd (BN_mod L (be_val (take 72 (drop 72 (xmd_reference (H EVP_sha384) input DST_H2C 144)))) p)) = Ok (pt b)"
    using map by blast
  have "hash_to_curve L input = Ok (pt (a + b))"
    using len aff group_doc(2,8) [OF doc]
    by (simp add: hash_to_curve_def Let_def xmd bn_doc_alloc [OF bn] affine_documented_def
        bn_doc_bin2bn [OF bn] a b)
  then show ?thesis ..
qed

end
