(* ===== verification/PP_Liveness.thy ===== *)
theory PP_Liveness
  imports PP_Token_Provider PP_Voprf_Protocol PP_Sswu_Total
begin

text \<open>
  The protocols return. The other theories show that what a protocol step returns is right;
  this one shows that it returns, when no call of OpenSSL fails and the generator of random
  numbers does not keep giving numbers that the rejection loops reject. With it the
  completeness theorems need no assumption about a result.
\<close>

subsection \<open>Blinding returns\<close>

text \<open>
  The generator works when no call that draws from it fails and no number can be rejected
  for ever.
\<close>

definition generator_works :: "('m, 'd, 'r, 'p, 'k, 'b, 'z) rsa_api_scheme \<Rightarrow> 'p \<Rightarrow> nat \<Rightarrow> bool" where
  "generator_works L pkey n \<longleftrightarrow>
     EVP_PKEY_get1_RSA L pkey \<and>
     (\<forall>rng k. fst (fst (RAND_bytes L rng k)) = 1 \<and> length (snd (fst (RAND_bytes L rng k))) = k) \<and>
     (\<forall>rng hash. length hash = 48 \<longrightarrow>
        fst (fst (RSA_padding_add_PKCS1_PSS_mgf1 L rng pkey hash EVP_sha384 EVP_sha384 SALT_LENGTH)) = 1) \<and>
     (\<forall>rng. fst (fst (BN_rand_range L rng n)) \<noteq> 0) \<and>
     (\<forall>rng. \<exists>k. draw_stops L n (after_draws L n k rng))"

lemma blind_factor_total:
  assumes "generator_works L pkey n"
  shows "\<exists>r ri rng'. blind_factor L n rng = Some (Ok (r, ri), rng')"
proof -
  have "\<exists>r ri rng'. blind_factor L n rng = Some (Ok (r, ri), rng')"
    if "draw_stops L n (after_draws L n k rng)" for k rng
    using that
  proof (induction k arbitrary: rng)
    case 0
    moreover have "fst (fst (BN_rand_range L rng n)) \<noteq> 0" using assms by (simp add: generator_works_def)
    ultimately show ?case by (subst blind_factor_unfold) (auto split: prod.splits)
  next
    case (Suc k)
    have "fst (fst (BN_rand_range L rng n)) \<noteq> 0" using assms by (simp add: generator_works_def)
    then show ?case using Suc by (subst blind_factor_unfold) (auto split: prod.splits)
  qed
  then show ?thesis using assms unfolding generator_works_def by blast
qed

lemma blind_total:
  assumes bn: "bn_documented L" and evp: "evp_documented L H"
    and pub: "public_key_documented L H em_ok pkey n e" "bpk_pkey key = Some pkey"
    and works: "generator_works L pkey n"
  shows "\<exists>bd rng'. BlindRsaPublicKey_blind L key msg rng = Some (Ok bd, rng')"
proof -
  have pad: "padding_documented L em_ok pkey n" using pub(1) by (simp add: public_key_documented_def)
  have hash: "length (H EVP_sha384 msg) = 48" using documented_len [OF evp, of EVP_sha384 msg] by simp
  have "fst (fst (RSA_padding_add_PKCS1_PSS_mgf1 L rng pkey (H EVP_sha384 msg) EVP_sha384 EVP_sha384 SALT_LENGTH)) = 1"
    using works hash by (simp add: generator_works_def)
  then obtain em rng1 where
    "RSA_padding_add_PKCS1_PSS_mgf1 L rng pkey (H EVP_sha384 msg) EVP_sha384 EVP_sha384 SALT_LENGTH = ((1, em), rng1)"
    by (metis prod.collapse)
  then have em: "do_emsa_pss_encode L pkey msg rng = Some (Ok em, rng1)"
    using works by (simp add: do_emsa_pss_encode_def sha384_documented [OF evp] emsa_pss_encode_def
        generator_works_def drawM_def)
  obtain r ri rng2 where "blind_factor L n rng1 = Some (Ok (r, ri), rng2)"
    using blind_factor_total [OF works] by blast
  then show ?thesis using blind_value [OF bn pub em] do_emsa_pss_encode_Ok [OF evp pad em] by blast
qed

theorem blind_signature_issued:
  assumes "bn_documented L" "evp_documented L H"
    and "public_key_documented L H em_ok pkey n e" "bpk_pkey key = Some pkey"
    and "private_key_documented L skey n e d" "bsk_pkey sk = Some skey"
    and "generator_works L pkey n"
  shows "\<exists>bd rng' bs sig. BlindRsaPublicKey_blind L key msg rng = Some (Ok bd, rng')
    \<and> BlindRsaPrivateKey_blind_sign L sk (bd_blinded_msg bd) = Ok bs
    \<and> BlindRsaPublicKey_finalize L key bs bd msg = (Ok sig, bd\<lparr>bd_inverse := []\<rparr>)
    \<and> length sig = 256 \<and> BlindRsaPublicKey_verify L key msg sig = Ok True"
proof -
  obtain bd rng' where blind: "BlindRsaPublicKey_blind L key msg rng = Some (Ok bd, rng')"
    using blind_total [OF assms(1-4,7)] by blast
  then show ?thesis using blind_signature_complete [OF assms(1-6) blind] by blast
qed

subsection \<open>Requests for publicly verifiable tokens return\<close>

lemma random_nonce_total:
  assumes "generator_works L pkey n"
  shows "\<exists>nonce rng'. random_nonce L rng = (Ok nonce, rng') \<and> length nonce = 32"
proof -
  have "fst (fst (RAND_bytes L rng 32)) = 1" "length (snd (fst (RAND_bytes L rng 32))) = 32"
    using assms by (simp_all add: generator_works_def)
  then show ?thesis by (simp add: random_nonce_def split: prod.splits) (metis fst_conv snd_conv)
qed

lemma PublicClient_create_total:
  assumes "bn_documented L" "evp_documented L H"
    and "public_key_documented L H em_ok pkey n e" "bpk_pkey key = Some pkey"
    and "generator_works L pkey n"
    and digest: "TokenChallenge_digest L challenge = (Ok d, c)"
    and id: "BlindRsaPublicKey_key_id L key = (Ok kid, key')"
  shows "\<exists>res rng'. PublicClient_create_token_request L challenge key rng = Some ((Ok res, c, key'), rng')
    \<and> length (fd_nonce (trr_finalization_data res)) = 32"
proof -
  obtain nonce rng1 where nonce: "random_nonce L rng = (Ok nonce, rng1)" "length nonce = 32"
    using random_nonce_total [OF assms(5)] by blast
  have "bpk_pkey key' = Some pkey" using key_id_keeps_pkey [OF id] assms(4) by simp
  note blind = blind_total [OF assms(1-3) this assms(5)]
  obtain input where input: "AuthenticatorInput_serialize \<lparr>ai_token_type = tc_type c, ai_nonce = nonce,
      ai_challenge_digest = d, ai_token_key_id = kid\<rparr> = Ok input"
    by (simp add: AuthenticatorInput_serialize_eq)
  obtain bd rng2 where bd: "BlindRsaPublicKey_blind L key' input rng1 = Some (Ok bd, rng2)" using blind by blast
  show ?thesis
    by (simp add: PublicClient_create_token_request_def nonce digest id input Let_def tryM_def liftM_def bd)
qed

lemma prepare_rsa_total:
  assumes "bn_documented L" "evp_documented L H"
    and "public_key_documented L H em_ok pkey n e" "generator_works L pkey n"
    and type: "tc_type challenge = BLIND_RSA \<or> tc_type challenge = PARTIALLY_BLIND_RSA"
    and allowed: "origin_info_allows (pc_origin_name (tp_config provider)) (tc_origin_info challenge)"
    and key: "find_key provider (tc_issuer_name challenge) (tc_type challenge) = Some key"
      "BlindRsaPublicKey_from_spki L (pk_data key) = Ok rsa_key" "bpk_pkey rsa_key = Some pkey"
    and digest: "fst (TokenChallenge_digest L challenge) = Ok d"
    and id: "fst (BlindRsaPublicKey_key_id L rsa_key) = Ok kid"
  shows "\<exists>ctx challenge' rng'. TokenProvider_prepare_request L provider challenge rng
    = Some ((Ok ctx, challenge'), rng')"
proof -
  obtain c where c: "TokenChallenge_digest L challenge = (Ok d, c)" using digest by (metis prod.collapse)
  obtain key' where key': "BlindRsaPublicKey_key_id L rsa_key = (Ok kid, key')" using id by (metis prod.collapse)
  obtain res rng' where "PublicClient_create_token_request L c rsa_key rng = Some ((Ok res, c, key'), rng')"
    using PublicClient_create_total [OF assms(1-3) key(3) assms(4) digest_cached_again [OF c] key'] by blast
  then show ?thesis
    using type digest_keeps_type [OF c] by (auto simp: TokenProvider_prepare_request_def allowed key c)
qed

text \<open>
  The whole exchange of a Blind RSA token, with no assumption about a result of it: the
  provider makes a request for every challenge it is allowed to answer, and the token it ends
  up with is accepted.
\<close>

theorem provider_token_issued:
  assumes "bn_documented L" "evp_documented L H"
    and key: "find_key provider (tc_issuer_name challenge) BLIND_RSA = Some key"
      "BlindRsaPublicKey_from_spki L (pk_data key) = Ok rsa_key" "bpk_pkey rsa_key = Some pkey"
      "fst (BlindRsaPublicKey_key_id L rsa_key) = Ok (pk_key_id key)"
    and issuers: "tc_issuer_name challenge \<in> set issuers"
      "\<forall>k \<in> set (listed_keys provider issuers).
         pk_type k = BLIND_RSA \<and> pk_key_id k = pk_key_id key \<longrightarrow> pk_data k = pk_data key"
    and keys: "public_key_documented L H em_ok pkey n e"
      "private_key_documented L skey n e d" "bsk_pkey (pi_private_key issuer) = Some skey"
      "pi_truncated_key_id issuer = pk_key_id key ! 31"
    and challenge: "tc_type challenge = BLIND_RSA" "fst (TokenChallenge_digest L challenge) = Ok dg"
      "origin_info_allows (pc_origin_name (tp_config provider)) (tc_origin_info challenge)"
    and trust: "trusted origin (pk_key_id key) = Some okey" "bpk_pkey okey = Some pkey"
    and works: "generator_works L pkey n"
  shows "\<exists>ctx challenge' rng' resp token.
    TokenProvider_prepare_request L provider challenge rng = Some ((Ok ctx, challenge'), rng')
    \<and> PublicIssuer_issue L issuer (trc_request ctx) = Ok resp
    \<and> TokenProvider_finalize L issuers provider resp ctx = Ok token
    \<and> fst (PublicOrigin_verify L origin token challenge) = Ok True"
proof -
  have "find_key provider (tc_issuer_name challenge) (tc_type challenge) = Some key"
    using key(1) challenge(1) by (simp only:)
  from prepare_rsa_total [OF assms(1,2) keys(1) works disjI1 [OF challenge(1)] challenge(3) this key(2,3)
      challenge(2) key(4)]
  obtain ctx challenge' rng' where
    p: "TokenProvider_prepare_request L provider challenge rng = Some ((Ok ctx, challenge'), rng')" by blast
  then show ?thesis
    using provider_token_complete [OF assms(1,2) key issuers keys(1-4) challenge(1) p trust] by blast
qed

subsection \<open>The proof of the evaluation returns\<close>

definition scalar_stops :: "('m, 'd, 'r, 'p, 'k, 'b, 'z) rsa_api_scheme \<Rightarrow> nat \<Rightarrow> 'r \<Rightarrow> bool" where
  "scalar_stops L q rng \<longleftrightarrow>
     (case fst (BN_rand_range L rng q) of (ok, t) \<Rightarrow> ok \<noteq> 0 \<and> \<not> BN_is_zero L t)"

definition scalars_work :: "('m, 'd, 'r, 'p, 'k, 'b, 'z) rsa_api_scheme \<Rightarrow> nat \<Rightarrow> bool" where
  "scalars_work L q \<longleftrightarrow>
     (\<forall>rng. fst (fst (BN_rand_range L rng q)) \<noteq> 0) \<and>
     (\<forall>rng. \<exists>k. scalar_stops L q (after_draws L q k rng))"

lemma draw_scalar_total:
  assumes "scalars_work L q"
  shows "\<exists>t rng'. draw_scalar L q rng = Some (Ok t, rng')"
proof -
  have "\<exists>t rng'. draw_scalar L q rng = Some (Ok t, rng')" if "scalar_stops L q (after_draws L q k rng)" for k rng
    using that
  proof (induction k arbitrary: rng)
    case 0
    then show ?case by (subst draw_scalar.simps) (auto simp: scalar_stops_def split: prod.splits)
  next
    case (Suc k)
    obtain ok t rng' where draw: "BN_rand_range L rng q = ((ok, t), rng')" by (metis prod.collapse)
    have "fst (fst (BN_rand_range L rng q)) \<noteq> 0" using assms by (simp add: scalars_work_def)
    then have ok: "ok \<noteq> 0" by (simp add: draw)
    have "\<exists>t rng''. draw_scalar L q rng' = Some (Ok t, rng'')" using Suc by (simp add: draw)
    then show ?case using ok by (subst draw_scalar.simps) (simp add: draw)
  qed
  then show ?thesis using assms unfolding scalars_work_def by blast
qed

lemma hash_to_scalar_total:
  assumes doc: "ec_documented L q pt" and evp: "evp_documented L H"
  shows "\<exists>s. hash_to_scalar L input = Ok s \<and> s < q"
proof -
  note bn = ec_doc_bn [OF doc] and gr = group_doc [OF doc]
  have "expand_message_xmd L input DST_H2S 72 = Ok (xmd_reference (H EVP_sha384) input DST_H2S 72)"
    using expand_message_xmd_reference [OF evp, of 72 DST_H2S input] by (simp add: DST_H2S_def str_bytes_def CONTEXT_STRING_def)
  then show ?thesis
    using gr(3,4) bn_doc_arith(1) [OF bn, of q]
    by (simp add: hash_to_scalar_def bn_doc_alloc [OF bn] bn_doc_bin2bn [OF bn])
qed

lemma compute_composites_total:
  assumes doc: "ec_documented L q pt" and evp: "evp_documented L H"
  shows "\<exists>d. compute_composites L (pt b) (pt c) (pt z) = Ok (pt (c * d), pt (z * d))"
proof -
  note gr = group_doc [OF doc]
  obtain d where "compute_composite_scalar L (pt b) (pt c) (pt z) = Ok d"
    using hash_to_scalar_total [OF doc evp]
    by (simp add: compute_composite_scalar_def point_to_bytes_doc [OF doc] Let_def sha384_documented [OF evp]) blast
  then show ?thesis by (auto simp: compute_composites_def gr(2,10))
qed

lemma generate_dleq_total:
  assumes doc: "ec_documented L q pt" and evp: "evp_documented L H" and works: "scalars_work L q"
  shows "\<exists>pi rng'. generate_dleq_proof L k (pt k) (pt r) (pt z) rng = Some (Ok pi, rng')"
proof -
  note bn = ec_doc_bn [OF doc] and gr = group_doc [OF doc]
  have q: "0 < q" using gr(4) by simp
  obtain d where comp: "compute_composites L (pt k) (pt r) (pt z) = Ok (pt (r * d), pt (z * d))"
    using compute_composites_total [OF doc evp] by blast
  obtain t rng1 where draw: "draw_scalar L q rng = Some (Ok t, rng1)" using draw_scalar_total [OF works] by blast
  obtain c where ch: "compute_dleq_challenge L (pt k) (pt (r * d)) (pt (z * d)) (pt t) (pt (r * d * t)) = Ok c"
    and c: "c < q"
    using hash_to_scalar_total [OF doc evp]
    by (simp add: compute_dleq_challenge_def point_to_bytes_doc [OF doc] Let_def) blast
  let ?s = "nat ((int t - int ((c * k) mod q)) mod int q)"
  have "?s < q" using q by (simp add: nat_less_iff)
  then have fits: "c < 256 ^ 48" "?s < 256 ^ 48" using c gr(5) by linarith+
  have "generate_dleq_proof L k (pt k) (pt r) (pt z) rng =
      Some (Ok (be_bytes 48 c @ be_bytes 48 ?s), rng1)"
    using bn_doc_binpad [OF bn fits(1)] bn_doc_binpad [OF bn fits(2)]
    by (simp add: generate_dleq_proof_def gr(2,3,9,10) bn_doc_alloc [OF bn] comp tryM_def liftM_def draw ch
        bn_doc_arith(3,4) [OF bn q] P384_SCALAR_SIZE_def)
  then show ?thesis by blast
qed

lemma blind_evaluate_total:
  assumes doc: "ec_documented L q pt" and evp: "evp_documented L H" and works: "scalars_work L q"
    and k: "0 < k" "k < q" and b: "b mod q \<noteq> 0"
  shows "\<exists>ev rng'. VoprfServer_blind_evaluate L \<lparr>vsk_scalar = Some k\<rparr> (enc L (pt b)) rng = Some (Ok ev, rng')"
proof -
  note bn = ec_doc_bn [OF doc] and gr = group_doc [OF doc]
  have fits: "k < 256 ^ 48" and km: "k mod q \<noteq> 0" using k gr(5) by simp_all
  obtain pi rng1 where gen: "generate_dleq_proof L k (pt k) (pt b) (pt (b * k)) rng = Some (Ok pi, rng1)"
    using generate_dleq_total [OF doc evp works] by blast
  have len: "length (enc L (pt b)) = 49" using enc_doc(5) [OF doc, of b] b by simp
  show ?thesis
    by (simp add: VoprfServer_blind_evaluate_def gr(1,2,9,10) len INT_MAX_def bytes_to_point_enc [OF doc b]
        bn_doc_alloc [OF bn] scalar_round_trip(1) [OF doc k] bn_doc_bin2bn [OF bn]
        be_val_be_bytes [OF fits] VoprfPrivateKey_public_key_def VoprfPublicKey_to_bytes_def
        point_to_bytes_doc [OF doc] bytes_to_point_enc [OF doc km] Let_def tryM_def liftM_def gen)
qed

text \<open>
  The whole exchange of the VOPRF: unless the input hashes to the point at infinity or the
  client draws the scalar zero, the server answers, the client accepts the answer, and the
  output verifies.
\<close>

theorem voprf_returns:
  assumes doc: "ec_documented L q pt" and evp: "evp_documented L H" and works: "scalars_work L q"
    and k: "0 < k" "k < q" and pub: "vpk_point public_key = Some (pt k)"
    and len: "length input \<le> 0xFFFF"
    and h: "hash_to_curve L input = Ok h" "EC_POINT_is_at_infinity L h \<noteq> 1"
    and draw: "BN_rand_range L rng q = ((ok, r), rng1)" "ok \<noteq> 0" "r \<noteq> 0"
  shows "\<exists>fin ev rng3 out. VoprfClient_blind L input rng = Some (Ok fin, rng1)
    \<and> VoprfServer_blind_evaluate L \<lparr>vsk_scalar = Some k\<rparr> (vfd_blinded_element fin) rng2 = Some (Ok ev, rng3)
    \<and> VoprfClient_finalize L public_key fin ev = Ok out
    \<and> VoprfServer_verify_finalize L \<lparr>vsk_scalar = Some k\<rparr> input out = Ok True \<and> length out = 48"
proof -
  note bn = ec_doc_bn [OF doc] and gr = group_doc [OF doc]
  obtain a where a: "h = pt a" using hash_to_curve_pt [OF doc h(1)] by blast
  have am: "a mod q \<noteq> 0" using h(2) enc_doc(2) [OF doc, of a] a by simp
  have "0 < q" using gr(4) by simp
  then have "r < q" by (rule bn_doc_rand [OF bn _ draw(1)])
  then have rm: "r mod q \<noteq> 0" using draw(3) by simp
  note arm = product_nonzero [OF doc am rm]
  have "VoprfClient_blind L input rng = Some (Ok \<lparr>vfd_blind_scalar = snd (BN_bn2binpad L r 48),
      vfd_blinded_element = enc L (pt (a * r)), vfd_input = input\<rparr>, rng1)" (is "_ = Some (Ok ?fin, _)")
    using draw(2,3) by (simp add: VoprfClient_blind_def gr(1,2,3,10) h(1) a draw(1) bn_doc_alloc [OF bn] drawM_def
        bn_doc_tests [OF bn] point_to_bytes_doc [OF doc] P384_SCALAR_SIZE_def)
  moreover obtain ev rng3 where
    "VoprfServer_blind_evaluate L \<lparr>vsk_scalar = Some k\<rparr> (vfd_blinded_element ?fin) rng2 = Some (Ok ev, rng3)"
    using blind_evaluate_total [OF doc evp works k arm, of rng2] by auto
  ultimately show ?thesis using voprf_complete [OF doc evp k pub len] by blast
qed

corollary voprf_issued:
  assumes doc: "ec_documented L q pt" and evp: "evp_documented L H" and works: "scalars_work L q"
    and aff: "affine_documented L p A B" and par: "sswu_parameters p A B"
    and k: "0 < k" "k < q" and pub: "vpk_point public_key = Some (pt k)"
    and len: "length input \<le> 0xFFFF"
    and finite: "\<forall>h. hash_to_curve L input = Ok h \<longrightarrow> EC_POINT_is_at_infinity L h \<noteq> 1"
    and draw: "BN_rand_range L rng q = ((ok, r), rng1)" "ok \<noteq> 0" "r \<noteq> 0"
  shows "\<exists>fin ev rng3 out. VoprfClient_blind L input rng = Some (Ok fin, rng1)
    \<and> VoprfServer_blind_evaluate L \<lparr>vsk_scalar = Some k\<rparr> (vfd_blinded_element fin) rng2 = Some (Ok ev, rng3)
    \<and> VoprfClient_finalize L public_key fin ev = Ok out
    \<and> VoprfServer_verify_finalize L \<lparr>vsk_scalar = Some k\<rparr> input out = Ok True \<and> length out = 48"
proof -
  have "length input \<le> INT_MAX" using len by (simp add: INT_MAX_def)
  from hash_to_curve_total [OF doc aff par evp this]
  obtain a where "hash_to_curve L input = Ok (pt a)" by blast
  then show ?thesis using voprf_returns [OF doc evp works k pub len _ _ draw] finite by blast
qed

end
