(* ===== verification/PP_Sample_Ossl.thy ===== *)
theory PP_Sample_Ossl
  imports PP_Sample PP_Sample_Key PP_Liveness
begin

text \<open>
  A concrete OpenSSL for the witnesses: the digest of \<open>PP_Sample\<close>, exact big numbers, the
  RSA key of \<open>PP_Sample_Key\<close> and a cyclic group of order 31 whose points are numbers below
  31, with an encoding of 49 bytes, over the curve \<open>y ^ 2 = x ^ 3 + 20 x + 8\<close> modulo 23. It
  behaves as the predicates \<open>evp_documented\<close>, \<open>bn_documented\<close>, \<open>ec_documented\<close> and those of
  an RSA key pair say; no property is about it.
\<close>

subsection \<open>Big numbers\<close>

fun bit_len :: "nat \<Rightarrow> nat" where
  "bit_len n = (if n = 0 then 0 else Suc (bit_len (n div 2)))"

declare bit_len.simps [simp del]

lemma bit_len_le: "bit_len n \<le> k \<longleftrightarrow> n < 2 ^ k"
proof (induction n arbitrary: k rule: bit_len.induct)
  case (1 n)
  show ?case
  proof (cases "n = 0")
    case True
    then show ?thesis by (subst bit_len.simps) simp
  next
    case False
    then have "bit_len n = Suc (bit_len (n div 2))" by (subst bit_len.simps) simp
    then show ?thesis using 1 [OF False] False
      by (cases k) (simp_all add: div_less_iff_less_mult mult.commute)
  qed
qed

definition sample_inverse :: "nat \<Rightarrow> nat \<Rightarrow> nat option" where
  "sample_inverse a m = (if 0 < m \<and> gcd a m = 1 then Some (nat (fst (bezw a m) mod int m)) else None)"

lemma sample_inverse_Some:
  assumes "sample_inverse a m = Some b"
  shows "b < m \<and> (a * b) mod m = 1 mod m"
proof -
  have m: "0 < m" "gcd a m = 1" and b: "int b = fst (bezw a m) mod int m"
    using assms by (auto simp: sample_inverse_def split: if_splits)
  have "(int a * (fst (bezw a m) mod int m)) mod int m = (fst (bezw a m) * int a + snd (bezw a m) * int m) mod int m"
    by (simp add: mod_mult_right_eq mult.commute)
  also have "\<dots> = 1 mod int m" using bezw_aux [of a m] m(2) by simp
  finally have "(int a * int b) mod int m = 1 mod int m" by (simp only: b)
  then have "int ((a * b) mod m) = int (1 mod m)" by (simp only: zmod_int of_nat_mult of_nat_1)
  then have "(a * b) mod m = 1 mod m" by (simp only: of_nat_eq_iff)
  moreover have "int b < int m" using m(1) by (simp add: b)
  ultimately show ?thesis by simp
qed

lemma sample_inverse_ex: "1 < m \<Longrightarrow> coprime a m \<Longrightarrow> \<exists>b. sample_inverse a m = Some b"
  by (simp add: sample_inverse_def coprime_iff_gcd_eq_1)

definition sample_compare :: "nat \<Rightarrow> nat \<Rightarrow> int" where
  "sample_compare a b = (if a < b then -1 else if a = b then 0 else 1)"

subsection \<open>Messages and points\<close>

definition sample_em :: "bytes \<Rightarrow> bytes" where
  "sample_em hash = replicate 207 0 @ hash @ [0xBC]"

definition sample_verify :: "EVP_MD \<times> bytes \<Rightarrow> bytes \<Rightarrow> bytes \<Rightarrow> int" where
  "sample_verify ctx sig msg =
     (if length sig = 256 \<and> be_val sig < sample_n
         \<and> be_bytes 256 (be_val sig ^ sample_e mod sample_n) = sample_em (sample_digest EVP_sha384 msg)
      then 1 else 0)"

definition sample_pt :: "nat \<Rightarrow> nat" where
  "sample_pt k = k mod 31"

definition sample_affine :: "nat \<Rightarrow> nat \<Rightarrow> int \<times> nat" where
  "sample_affine x y =
     (if y ^ 2 mod 23 = (x ^ 3 + 20 * x + 8) mod 23 then (1, 1 + (x + y) mod 5) else (0, 0))"

definition sample_encode :: "nat \<Rightarrow> nat \<times> bytes" where
  "sample_encode k = (if k mod 31 = 0 then (1, [0]) else (49, 2 # be_bytes 48 (k mod 31)))"

definition sample_decode :: "bytes \<Rightarrow> int \<times> nat" where
  "sample_decode bs =
     (if length bs = 49 \<and> hd bs = 2 \<and> 0 < be_val (tl bs) \<and> be_val (tl bs) < 31
      then (1, be_val (tl bs)) else (0, 0))"

subsection \<open>The library\<close>

definition sample_ossl :: "(EVP_MD \<times> bytes, unit, unit, unit, unit, unit, nat) ossl" where
  "sample_ossl =
     \<lparr>EVP_MD_CTX_new = Some (EVP_sha256, []),
      EVP_DigestInit_ex = (\<lambda>ctx md. (1, (md, []))),
      EVP_DigestUpdate = (\<lambda>ctx xs. (1, (fst ctx, snd ctx @ xs))),
      EVP_DigestFinal_ex = (\<lambda>ctx. (1, sample_digest (fst ctx) (snd ctx), md_len (fst ctx))),
      EVP_MD_size = md_len,
      HMAC_once = (\<lambda>md key data. Some (sample_digest md (key @ data), md_len md)),
      EVP_PKEY_CTX_new_hkdf = None,
      EVP_PKEY_derive_init = (\<lambda>ctx. (1, ctx)), set_hkdf_md = (\<lambda>ctx md. (1, ctx)),
      set1_hkdf_salt = (\<lambda>ctx salt. (1, ctx)), set1_hkdf_key = (\<lambda>ctx key. (1, ctx)),
      add1_hkdf_info = (\<lambda>ctx info. (1, ctx)), set_hkdf_mode = (\<lambda>ctx mode. (1, ctx)),
      EVP_PKEY_derive = (\<lambda>ctx n. (1, replicate n 0)),
      RAND_bytes = (\<lambda>rng n. ((1, replicate n 7), rng)),
      BN_new = True, BN_CTX_new = True, BN_MONT_CTX_new = True,
      BN_bin2bn = (\<lambda>bs. Some (be_val bs)),
      BN_bn2binpad = (\<lambda>n k. if n < 256 ^ k then (int k, be_bytes k n) else (- 1, [])),
      BN_num_bits = (\<lambda>n. int (bit_len n)), BN_num_bytes = (\<lambda>n. (int (bit_len n) + 7) div 8),
      BN_is_zero = (\<lambda>n. n = 0), BN_is_odd = odd, BN_is_word = (=), BN_cmp = sample_compare,
      BN_rand_range = (\<lambda>rng n. ((1, if 1 < n then 1 else 0), rng)),
      BN_mod = (\<lambda>a m. (1, a mod m)), BN_mod_add = (\<lambda>a b m. (1, (a + b) mod m)),
      BN_mod_sub = (\<lambda>a b m. (1, nat ((int a - int b) mod int m))),
      BN_mod_mul = (\<lambda>a b m. (1, (a * b) mod m)), BN_mod_sqr = (\<lambda>a m. (1, (a * a) mod m)),
      BN_mod_exp = (\<lambda>a e m. (1, (a ^ e) mod m)), BN_mod_inverse = sample_inverse,
      BN_add = (\<lambda>a b. (1, a + b)), BN_sub = (\<lambda>a b. (1, a - b)),
      BN_rshift = (\<lambda>a k. (1, a div 2 ^ k)),
      BN_MONT_CTX_set = (\<lambda>m. 1),
      BN_mod_exp_mont = (\<lambda>a e m. (1, (a ^ e) mod m)),
      BN_mod_exp_mont_consttime = (\<lambda>a e m. (1, (a ^ e) mod m)),
      BN_to_montgomery = (\<lambda>a m. (1, a mod m)),
      BN_mod_mul_montgomery = (\<lambda>a b m. (1, (a * b) mod m)),
      d2i_PUBKEY = (\<lambda>der. if der = [1] then Some () else None),
      d2i_AutoPrivateKey = (\<lambda>der. if der = [2] then Some () else None),
      i2d_PUBKEY_size = (\<lambda>key. 1), i2d_PUBKEY = (\<lambda>key. (1, [1])),
      i2d_PrivateKey_size = (\<lambda>key. 1), i2d_PrivateKey = (\<lambda>key. (1, [2])),
      EVP_PKEY_RSA_PSS = 912, EVP_PKEY_base_id = (\<lambda>key. 912),
      EVP_PKEY_get_bn_param = (\<lambda>key param. (1, case param of PARAM_RSA_N \<Rightarrow> sample_n
         | PARAM_RSA_E \<Rightarrow> sample_e | PARAM_RSA_D \<Rightarrow> sample_d)),
      EVP_PKEY_get_saltlen_param = (\<lambda>key. (1, 48)),
      EVP_PKEY_get_utf8_string_param = (\<lambda>key param. (1, ''SHA384'')),
      EVP_PKEY_get1_RSA = (\<lambda>key. True), RSA_size = (\<lambda>key. 256),
      RSA_padding_add_PKCS1_PSS_mgf1 = (\<lambda>rng key hash md mgf salt.
         (if length hash = 48 then (1, sample_em hash) else (0, []), rng)),
      OSSL_PARAM_BLD_new = Some (), OSSL_PARAM_BLD_push_BN = (\<lambda>b param n. (1, b)),
      OSSL_PARAM_BLD_push_utf8_string = (\<lambda>b param s. (1, b)),
      OSSL_PARAM_BLD_push_saltlen = (\<lambda>b n. (1, b)), OSSL_PARAM_BLD_to_param = Some,
      EVP_PKEY_CTX_new_from_name = (\<lambda>name. Some ()),
      EVP_PKEY_fromdata_init = (\<lambda>ctx. (1, ctx)), EVP_PKEY_fromdata = (\<lambda>ctx params. (1, Some ())),
      EVP_PKEY_CTX_new_rsa_pss = Some (), EVP_PKEY_keygen_init = (\<lambda>ctx. (1, ctx)),
      set_rsa_keygen_bits = (\<lambda>ctx bits. (1, ctx)), set_rsa_pss_keygen_md = (\<lambda>ctx md. (1, ctx)),
      set_rsa_pss_keygen_mgf1_md = (\<lambda>ctx md. (1, ctx)),
      set_rsa_pss_keygen_saltlen = (\<lambda>ctx salt. (1, ctx)),
      EVP_PKEY_keygen = (\<lambda>rng ctx. ((1, Some ()), rng)),
      EVP_DigestVerifyInit = (\<lambda>ctx md key. (1, (md, []))),
      EVP_DigestSignInit = (\<lambda>ctx md key. (1, (md, []))),
      set_rsa_padding = (\<lambda>ctx pad. (1, ctx)), set_rsa_pss_saltlen = (\<lambda>ctx salt. (1, ctx)),
      set_rsa_mgf1_md = (\<lambda>ctx md. (1, ctx)),
      EVP_DigestVerify = sample_verify,
      EVP_DigestSign_size = (\<lambda>ctx msg. (1, 256)),
      EVP_DigestSign = (\<lambda>rng ctx msg len.
         ((1, be_bytes 256 (be_val (sample_em (sample_digest EVP_sha384 msg)) ^ sample_d mod sample_n)), rng)),
      EC_GROUP_new_by_curve_name = True, EC_GROUP_get_curve = (23, 20, 8),
      EC_GROUP_get_order = (1, 31), EC_POINT_new = True,
      EC_POINT_point2oct_size = (\<lambda>k. fst (sample_encode k)), EC_POINT_point2oct = sample_encode,
      EC_POINT_oct2point = sample_decode, EC_POINT_is_on_curve = (\<lambda>k. 1),
      EC_POINT_is_at_infinity = (\<lambda>k. if k mod 31 = 0 then 1 else 0),
      EC_POINT_add = (\<lambda>a b. (1, (a + b) mod 31)),
      EC_POINT_mul = (\<lambda>g qm. (1, ((case g of None \<Rightarrow> 0 | Some k \<Rightarrow> k)
         + (case qm of None \<Rightarrow> 0 | Some (a, m) \<Rightarrow> a * m)) mod 31)),
      EC_POINT_set_affine_coordinates = sample_affine,
      CRYPTO_memcmp = (\<lambda>a b. if a = b then 0 else 1)\<rparr>"

lemma sample_sel [simp]:
    "EVP_MD_CTX_new sample_ossl = Some (EVP_sha256, [])"
    "EVP_DigestInit_ex sample_ossl = (\<lambda>ctx md. (1, (md, [])))"
    "EVP_DigestUpdate sample_ossl = (\<lambda>ctx xs. (1, (fst ctx, snd ctx @ xs)))"
    "EVP_DigestFinal_ex sample_ossl = (\<lambda>ctx. (1, sample_digest (fst ctx) (snd ctx), md_len
     (fst ctx)))"
    "EVP_MD_size sample_ossl = md_len"
    "HMAC_once sample_ossl = (\<lambda>md key data. Some (sample_digest md (key @ data), md_len
     md))"
    "EVP_PKEY_CTX_new_hkdf sample_ossl = None"
    "EVP_PKEY_derive_init sample_ossl = (\<lambda>ctx. (1, ctx))"
    "set_hkdf_md sample_ossl = (\<lambda>ctx md. (1, ctx))"
    "set1_hkdf_salt sample_ossl = (\<lambda>ctx salt. (1, ctx))"
    "set1_hkdf_key sample_ossl = (\<lambda>ctx key. (1, ctx))"
    "add1_hkdf_info sample_ossl = (\<lambda>ctx info. (1, ctx))"
    "set_hkdf_mode sample_ossl = (\<lambda>ctx mode. (1, ctx))"
    "EVP_PKEY_derive sample_ossl = (\<lambda>ctx n. (1, replicate n 0))"
    "RAND_bytes sample_ossl = (\<lambda>rng n. ((1, replicate n 7), rng))"
    "BN_new sample_ossl = True"
    "BN_CTX_new sample_ossl = True"
    "BN_MONT_CTX_new sample_ossl = True"
    "BN_bin2bn sample_ossl = (\<lambda>bs. Some (be_val bs))"
    "BN_bn2binpad sample_ossl = (\<lambda>n k. if n < 256 ^ k then (int k, be_bytes k n) else (-
     1, []))"
    "BN_num_bits sample_ossl = (\<lambda>n. int (bit_len n))"
    "BN_num_bytes sample_ossl = (\<lambda>n. (int (bit_len n) + 7) div 8)"
    "BN_is_zero sample_ossl = (\<lambda>n. n = 0)"
    "BN_is_odd sample_ossl = odd"
    "BN_is_word sample_ossl = (=)"
    "BN_cmp sample_ossl = sample_compare"
    "BN_rand_range sample_ossl = (\<lambda>rng n. ((1, if 1 < n then 1 else 0), rng))"
    "BN_mod sample_ossl = (\<lambda>a m. (1, a mod m))"
    "BN_mod_add sample_ossl = (\<lambda>a b m. (1, (a + b) mod m))"
    "BN_mod_sub sample_ossl = (\<lambda>a b m. (1, nat ((int a - int b) mod int m)))"
    "BN_mod_mul sample_ossl = (\<lambda>a b m. (1, (a * b) mod m))"
    "BN_mod_sqr sample_ossl = (\<lambda>a m. (1, (a * a) mod m))"
    "BN_mod_exp sample_ossl = (\<lambda>a e m. (1, (a ^ e) mod m))"
    "BN_mod_inverse sample_ossl = sample_inverse"
    "BN_add sample_ossl = (\<lambda>a b. (1, a + b))"
    "BN_sub sample_ossl = (\<lambda>a b. (1, a - b))"
    "BN_rshift sample_ossl = (\<lambda>a k. (1, a div 2 ^ k))"
    "BN_MONT_CTX_set sample_ossl = (\<lambda>m. 1)"
    "BN_mod_exp_mont sample_ossl = (\<lambda>a e m. (1, (a ^ e) mod m))"
    "BN_mod_exp_mont_consttime sample_ossl = (\<lambda>a e m. (1, (a ^ e) mod m))"
    "BN_to_montgomery sample_ossl = (\<lambda>a m. (1, a mod m))"
    "BN_mod_mul_montgomery sample_ossl = (\<lambda>a b m. (1, (a * b) mod m))"
    "d2i_PUBKEY sample_ossl = (\<lambda>der. if der = [1] then Some () else None)"
    "d2i_AutoPrivateKey sample_ossl = (\<lambda>der. if der = [2] then Some () else None)"
    "i2d_PUBKEY_size sample_ossl = (\<lambda>key. 1)"
    "i2d_PUBKEY sample_ossl = (\<lambda>key. (1, [1]))"
    "i2d_PrivateKey_size sample_ossl = (\<lambda>key. 1)"
    "i2d_PrivateKey sample_ossl = (\<lambda>key. (1, [2]))"
    "EVP_PKEY_RSA_PSS sample_ossl = 912"
    "EVP_PKEY_base_id sample_ossl = (\<lambda>key. 912)"
    "EVP_PKEY_get_bn_param sample_ossl = (\<lambda>key param. (1, case param of PARAM_RSA_N
     \<Rightarrow> sample_n | PARAM_RSA_E \<Rightarrow> sample_e | PARAM_RSA_D \<Rightarrow>
     sample_d))"
    "EVP_PKEY_get_saltlen_param sample_ossl = (\<lambda>key. (1, 48))"
    "EVP_PKEY_get_utf8_string_param sample_ossl = (\<lambda>key param. (1, ''SHA384''))"
    "EVP_PKEY_get1_RSA sample_ossl = (\<lambda>key. True)"
    "RSA_size sample_ossl = (\<lambda>key. 256)"
    "RSA_padding_add_PKCS1_PSS_mgf1 sample_ossl = (\<lambda>rng key hash md mgf salt. (if length
     hash = 48 then (1, sample_em hash) else (0, []), rng))"
    "OSSL_PARAM_BLD_new sample_ossl = Some ()"
    "OSSL_PARAM_BLD_push_BN sample_ossl = (\<lambda>b param n. (1, b))"
    "OSSL_PARAM_BLD_push_utf8_string sample_ossl = (\<lambda>b param s. (1, b))"
    "OSSL_PARAM_BLD_push_saltlen sample_ossl = (\<lambda>b n. (1, b))"
    "OSSL_PARAM_BLD_to_param sample_ossl = Some"
    "EVP_PKEY_CTX_new_from_name sample_ossl = (\<lambda>name. Some ())"
    "EVP_PKEY_fromdata_init sample_ossl = (\<lambda>ctx. (1, ctx))"
    "EVP_PKEY_fromdata sample_ossl = (\<lambda>ctx params. (1, Some ()))"
    "EVP_PKEY_CTX_new_rsa_pss sample_ossl = Some ()"
    "EVP_PKEY_keygen_init sample_ossl = (\<lambda>ctx. (1, ctx))"
    "set_rsa_keygen_bits sample_ossl = (\<lambda>ctx bits. (1, ctx))"
    "set_rsa_pss_keygen_md sample_ossl = (\<lambda>ctx md. (1, ctx))"
    "set_rsa_pss_keygen_mgf1_md sample_ossl = (\<lambda>ctx md. (1, ctx))"
    "set_rsa_pss_keygen_saltlen sample_ossl = (\<lambda>ctx salt. (1, ctx))"
    "EVP_PKEY_keygen sample_ossl = (\<lambda>rng ctx. ((1, Some ()), rng))"
    "EVP_DigestVerifyInit sample_ossl = (\<lambda>ctx md key. (1, (md, [])))"
    "EVP_DigestSignInit sample_ossl = (\<lambda>ctx md key. (1, (md, [])))"
    "set_rsa_padding sample_ossl = (\<lambda>ctx pad. (1, ctx))"
    "set_rsa_pss_saltlen sample_ossl = (\<lambda>ctx salt. (1, ctx))"
    "set_rsa_mgf1_md sample_ossl = (\<lambda>ctx md. (1, ctx))"
    "EVP_DigestVerify sample_ossl = sample_verify"
    "EVP_DigestSign_size sample_ossl = (\<lambda>ctx msg. (1, 256))"
    "EVP_DigestSign sample_ossl = (\<lambda>rng ctx msg len. ((1, be_bytes 256 (be_val (sample_em
     (sample_digest EVP_sha384 msg)) ^ sample_d mod sample_n)), rng))"
    "EC_GROUP_new_by_curve_name sample_ossl = True"
    "EC_GROUP_get_curve sample_ossl = (23, 20, 8)"
    "EC_GROUP_get_order sample_ossl = (1, 31)"
    "EC_POINT_new sample_ossl = True"
    "EC_POINT_point2oct_size sample_ossl = (\<lambda>k. fst (sample_encode k))"
    "EC_POINT_point2oct sample_ossl = sample_encode"
    "EC_POINT_oct2point sample_ossl = sample_decode"
    "EC_POINT_is_on_curve sample_ossl = (\<lambda>k. 1)"
    "EC_POINT_is_at_infinity sample_ossl = (\<lambda>k. if k mod 31 = 0 then 1 else 0)"
    "EC_POINT_add sample_ossl = (\<lambda>a b. (1, (a + b) mod 31))"
    "EC_POINT_mul sample_ossl = (\<lambda>g qm. (1, ((case g of None \<Rightarrow> 0 | Some k
     \<Rightarrow> k) + (case qm of None \<Rightarrow> 0 | Some (a, m) \<Rightarrow> a * m)) mod
     31))"
    "EC_POINT_set_affine_coordinates sample_ossl = sample_affine"
    "CRYPTO_memcmp sample_ossl = (\<lambda>a b. if a = b then 0 else 1)"
  by (simp_all add: sample_ossl_def)

subsection \<open>It is documented\<close>

lemma sample_evp: "evp_documented sample_ossl sample_digest"
  by (rule sample_digest_documented) simp_all

lemma sample_bn: "bn_documented sample_ossl"
  unfolding bn_documented_def sample_sel
  by (auto simp: bit_len_le sample_compare_def sample_inverse_ex dest: sample_inverse_Some)

lemma sample_mont: "mont_documented sample_ossl m"
  by (auto simp: mont_documented_def mod_mult_right_eq intro!: exI [of _ 1])

lemma sample_prime: "k mod 31 \<noteq> 0 \<Longrightarrow> coprime k (31 :: nat)"
proof -
  assume "k mod 31 \<noteq> 0"
  moreover have "trial_prime 31" by (simp add: trial_prime_def small_primes_def)
  ultimately have "coprime 31 (k mod 31)" by (intro trial_prime_coprime) simp_all
  then show "coprime k (31 :: nat)" by (metis coprime_commute coprime_mod_right_iff zero_neq_numeral)
qed

lemma sample_pt_simps:
  "sample_pt a = sample_pt b \<longleftrightarrow> a mod 31 = b mod 31"
  "(sample_pt a + sample_pt b) mod 31 = sample_pt (a + b)"
  "(sample_pt a * m) mod 31 = sample_pt (a * m)"
  "(g + sample_pt a * m) mod 31 = sample_pt (g + a * m)"
  "g mod 31 = sample_pt g" "sample_pt a mod 31 = sample_pt a"
  unfolding sample_pt_def
  by (simp_all add: mod_add_eq mod_mult_left_eq) (metis mod_add_right_eq mod_mult_left_eq)

lemma sample_affine_pt: "sample_affine x y = (1, p) \<Longrightarrow> \<exists>a. p = sample_pt a"
proof -
  assume "sample_affine x y = (1, p)"
  then have "p = 1 + (x + y) mod 5" by (simp add: sample_affine_def split: if_splits)
  moreover have "(x + y) mod 5 < 5" by simp
  ultimately have "p = sample_pt p" unfolding sample_pt_def by simp
  then show ?thesis ..
qed

lemma sample_group: "group_documented sample_ossl 31 sample_pt"
  unfolding group_documented_def sample_sel
  using sample_prime sample_affine_pt by (simp add: sample_pt_simps(1-4)) (simp add: sample_pt_def)

lemma sample_encode_pt:
  "sample_encode (sample_pt a) = (if a mod 31 = 0 then (1, [0]) else (49, 2 # be_bytes 48 (a mod 31)))"
  by (simp add: sample_encode_def sample_pt_def)

lemma sample_value: "k < 31 \<Longrightarrow> be_val (be_bytes 48 k) = k"
  by (rule be_val_be_bytes) simp

lemma sample_decode_encode: "0 < a mod 31 \<Longrightarrow> sample_decode (2 # be_bytes 48 (a mod 31)) = (1, a mod 31)"
  using sample_value [of "a mod 31"] by (simp add: sample_decode_def)

lemma sample_encode_decode:
  assumes "sample_decode bs = (1, p)"
  shows "p = sample_pt p" "length bs = 49 \<Longrightarrow> snd (sample_encode p) = bs"
proof -
  have bs: "length bs = 49" "hd bs = 2" "0 < be_val (tl bs)" "be_val (tl bs) < 31" and p: "p = be_val (tl bs)"
    using assms by (auto simp: sample_decode_def split: if_splits)
  then show "p = sample_pt p" by (simp add: sample_pt_def)
  have "be_bytes 48 (be_val (tl bs)) = tl bs" using be_bytes_be_val [of "tl bs"] bs(1) by simp
  moreover have "bs = hd bs # tl bs" using bs(1) by (cases bs) simp_all
  ultimately show "snd (sample_encode p) = bs" using bs p by (simp add: sample_encode_def)
qed

lemma sample_encoding: "encoding_documented sample_ossl 31 sample_pt"
  unfolding encoding_documented_def sample_sel
  by (auto simp: sample_encode_pt sample_decode_encode sample_pt_simps(6)
      dest: sample_encode_decode) (simp_all add: sample_pt_def)

lemma sample_ec: "ec_documented sample_ossl 31 sample_pt"
  using sample_bn sample_group sample_encoding by (simp add: ec_documented_def)

lemma sample_n_bits': "bit_len sample_n = 2048"
proof -
  have "bit_len sample_n \<le> 2048" using sample_n_bits(2) by (simp only: bit_len_le)
  moreover have "\<not> bit_len sample_n \<le> 2047" using sample_n_bits(1) by (simp only: bit_len_le not_less)
  ultimately show ?thesis by linarith
qed

lemma sample_em_bounds:
  assumes "length hash = 48"
  shows "length (sample_em hash) = 256" "0 < be_val (sample_em hash)" "be_val (sample_em hash) < sample_n"
proof -
  have zeros: "be_val (replicate k 0 @ bs) = be_val bs" for k bs
    by (induction k) (simp_all add: be_val_def)
  have v: "be_val (sample_em hash) = be_val (hash @ [0xBC])"
    by (simp add: sample_em_def zeros del: be_val_snoc)
  show "length (sample_em hash) = 256" using assms by (simp add: sample_em_def)
  show "0 < be_val (sample_em hash)" by (simp add: v)
  have "be_val (hash @ [0xBC]) < 256 ^ 49" using be_val_less [of "hash @ [0xBC]"] assms by simp
  also have "(256 :: nat) ^ 49 \<le> 2 ^ 2047" by simp
  also have "\<dots> \<le> sample_n" by (rule sample_n_bits)
  finally show "be_val (sample_em hash) < sample_n" by (simp only: v)
qed

lemma sample_padding: "padding_documented sample_ossl (\<lambda>hash em. em = sample_em hash) pkey sample_n"
  using sample_em_bounds by (auto simp: padding_documented_def)

lemma sample_verifies:
  "verify_documented sample_ossl sample_digest (\<lambda>hash em. em = sample_em hash) pkey sample_n sample_e"
  by (auto simp: verify_documented_def sample_verify_def)

lemma sample_public_key:
  "public_key_documented sample_ossl sample_digest (\<lambda>hash em. em = sample_em hash) pkey sample_n sample_e"
  using sample_mont sample_padding sample_verifies
  by (simp add: public_key_documented_def sample_n_bits' RSA_BITS_def sample_e_def)

lemma sample_private_key: "private_key_documented sample_ossl skey sample_n sample_e sample_d"
  using sample_key_law by (simp add: private_key_documented_def)

subsection \<open>Its generator works, and its curve has the constants of the map\<close>

lemma sample_generator: "generator_works sample_ossl pkey sample_n"
proof -
  have "1 < sample_n" using sample_n_bits(1) by (rule less_le_trans [rotated]) simp
  then have "draw_stops sample_ossl sample_n (after_draws sample_ossl sample_n 0 rng)" for rng
    by (simp add: draw_stops_def sample_inverse_def)
  then show ?thesis unfolding generator_works_def by (auto simp del: after_draws.simps)
qed

lemma sample_scalars: "scalars_work sample_ossl 31"
proof -
  have "scalar_stops sample_ossl 31 (after_draws sample_ossl 31 0 rng)" for rng
    by (simp add: scalar_stops_def)
  then show ?thesis unfolding scalars_work_def by (auto simp del: after_draws.simps)
qed

lemma sample_sswu: "sswu_parameters 23 20 8"
proof -
  have root: "swu_g 23 20 8 ((8 * i) mod 23) = 4" if "((23 - 12) * 20 * i) mod 23 = 1" for i :: nat
  proof -
    have "(8 * i) mod 23 = (2860 mod 23 * i) mod 23" by simp
    also have "\<dots> = (220 * i * 13) mod 23" unfolding mod_mult_left_eq by (simp only: ac_simps) simp
    also have "\<dots> = (((23 - 12) * 20 * i) mod 23 * 13) mod 23" unfolding mod_mult_left_eq by simp
    also have "\<dots> = 13" by (simp only: that) simp
    finally show ?thesis by (simp add: swu_g_def)
  qed
  have "trial_prime 23" by (simp add: trial_prime_def small_primes_def)
  then have "prime_modulus 23" by (rule trial_prime_modulus)
  moreover have "euler 23 (23 - 12) = 23 - 1" "euler 23 4 = 1" by (simp_all add: euler_def)
  ultimately show ?thesis unfolding sswu_parameters_def using root by simp
qed

lemma sample_affine_documented: "affine_documented sample_ossl 23 20 8"
  by (simp add: affine_documented_def sample_affine_def swu_g_def)

lemma sample_hash_finite: "hash_to_curve sample_ossl input = Ok h \<Longrightarrow> EC_POINT_is_at_infinity sample_ossl h \<noteq> 1"
proof -
  have map: "0 < Q \<and> Q < 6" if "map_to_curve_sswu sample_ossl u = Ok Q" for u Q
  proof -
    obtain x y where "map_to_curve_sswu sample_ossl u = Ok (snd (sample_affine x y))"
      and "y ^ 2 mod 23 = swu_g 23 20 8 x"
      using map_to_curve_total [OF sample_ec sample_affine_documented sample_sswu, of u] by auto
    moreover have "(x + y) mod 5 < 5" by simp
    ultimately show ?thesis using that by (simp add: sample_affine_def swu_g_def)
  qed
  assume "hash_to_curve sample_ossl input = Ok h"
  then obtain a b where "0 < a \<and> a < 6" "0 < b \<and> b < 6" "h = (a + b) mod 31"
    by (auto simp: hash_to_curve_def Let_def try_bind_Ok_iff dest!: map split: if_splits)
  then show ?thesis by simp
qed

end
