(* ===== verification/PP_Sample_Flow.thy ===== *)
theory PP_Sample_Flow
  imports PP_Sample_Ossl PP_Token_Authenticator
begin

text \<open>
  An issuer, a provider, an origin and an authenticator that share the sample RSA key, for
  the witnesses of the properties about the whole exchange.
\<close>

definition sample_rsa_key :: "unit BlindRsaPublicKey" where
  "sample_rsa_key = BlindRsaPublicKey_new\<lparr>bpk_pkey := Some (), bpk_original_spki := [1]\<rparr>"

definition sample_key_id :: TokenKeyId where
  "sample_key_id = sample_digest EVP_sha256 [1]"

lemma sample_parses: "BlindRsaPublicKey_from_spki sample_ossl [1] = Ok sample_rsa_key"
  by (simp add: BlindRsaPublicKey_from_spki_def parse_public_key_spki_def validate_rsa_params_def INT_MAX_def
      sample_n_bits' RSA_BITS_def RSA_PUBLIC_EXPONENT_def sample_e_def digest_ok_def sample_rsa_key_def)

lemma sample_key_identified:
  "BlindRsaPublicKey_key_id sample_ossl sample_rsa_key =
     (Ok sample_key_id, sample_rsa_key\<lparr>bpk_cached_key_id := sample_key_id, bpk_key_id_computed := True\<rparr>)"
  by (simp add: BlindRsaPublicKey_key_id_def sample_rsa_key_def BlindRsaPublicKey_new_def
      sha256_documented [OF sample_evp] sample_key_id_def)

lemma sample_rsa_pkey: "bpk_pkey sample_rsa_key = Some ()"
  by (simp add: sample_rsa_key_def)

definition sample_public_key :: PublicKey where
  "sample_public_key = \<lparr>pk_type = BLIND_RSA, pk_data = [1], pk_key_id = sample_key_id\<rparr>"

definition sample_provider :: TokenProvider where
  "sample_provider =
     TokenProvider_add_issuer_key ''issuer.example'' sample_public_key
       (TokenProvider_new \<lparr>pc_max_cached_tokens = 2, pc_token_prefetch_threshold = 60,
          pc_allow_token_reuse = False, pc_origin_name = ''A.example''\<rparr>)"

lemma sample_provider_eq:
  "sample_provider =
     \<lparr>tp_config = \<lparr>pc_max_cached_tokens = 2, pc_token_prefetch_threshold = 60, pc_allow_token_reuse = False,
        pc_origin_name = ''A.example''\<rparr>,
      tp_issuer_keys = [''issuer.example'' \<mapsto> [sample_public_key]], tp_token_cache = Map.empty\<rparr>"
  by (simp add: sample_provider_def TokenProvider_add_issuer_key_def TokenProvider_new_def)

lemma sample_find_key: "find_key sample_provider ''issuer.example'' BLIND_RSA = Some sample_public_key"
  by (simp add: find_key_def sample_provider_eq sample_public_key_def)

lemma sample_listed_keys: "listed_keys sample_provider [''issuer.example''] = [sample_public_key]"
  by (simp add: listed_keys_def sample_provider_eq)

definition sample_private_key :: "unit BlindRsaPrivateKey" where
  "sample_private_key = \<lparr>bsk_pkey = Some ()\<rparr>"

definition sample_issuer :: "unit PublicIssuer" where
  "sample_issuer = PublicIssuer_new sample_ossl sample_private_key"

lemma sample_issuer_key:
  "bsk_pkey (pi_private_key sample_issuer) = Some ()" "pi_truncated_key_id sample_issuer = sample_key_id ! 31"
  by (simp_all add: sample_issuer_def PublicIssuer_new_def BlindRsaPrivateKey_public_key_def sample_private_key_def
      marshal_public_key_def sample_parses sample_key_identified)

definition sample_config :: OriginConfig where
  "sample_config = \<lparr>oc_issuer_name = ''issuer.example'', oc_origin_names = [''a.example''],
     oc_redemption_window = 10, oc_require_redemption_context = False, oc_max_replay_cache_size = 7\<rparr>"

definition sample_origin :: "unit PublicOrigin" where
  "sample_origin = PublicOrigin_new sample_ossl sample_config [sample_rsa_key]"

lemma sample_trusted:
  "trusted sample_origin sample_key_id
     = Some (sample_rsa_key\<lparr>bpk_cached_key_id := sample_key_id, bpk_key_id_computed := True\<rparr>)"
  by (simp add: sample_origin_def PublicOrigin_new_ops run_key_ops_trusted [OF keys_ok_empty] sample_key_identified)

lemma sample_challenge_digest:
  "TokenChallenge_digest sample_ossl sample_challenge =
     (Ok (sample_digest EVP_sha256 (challenge_bytes sample_challenge)),
      sample_challenge\<lparr>tc_cached_digest := Some (sample_digest EVP_sha256 (challenge_bytes sample_challenge))\<rparr>)"
  using sample_challenge_wf by (intro TokenChallenge_digest_documented [OF sample_evp]) (simp_all add: challenge_wf_def)

lemma sample_allowed: "origin_info_allows ''A.example'' (tc_origin_info sample_challenge)"
proof -
  have "origin_info_allows ''A.example'' [''a.example'', ''b.example'']" by code_simp
  then show ?thesis by (simp add: sample_challenge_def)
qed

definition sample_ac_config :: TokenAuthenticatorConfig where
  "sample_ac_config = \<lparr>ac_issuer_name = ''issuer.example'', ac_origin_names = [''a.example''],
     ac_redemption_window = 10, ac_replay_window = 10, ac_require_redemption_context = False,
     ac_max_replay_cache_size = 7\<rparr>"

definition sample_authenticator :: "(unit, nat) TokenAuthenticator" where
  "sample_authenticator =
     TokenAuthenticator_add_trusted_rsa_key sample_ossl ''issuer.example'' sample_rsa_key
       (TokenAuthenticator_new sample_ac_config)"

lemma sample_authenticator_reach: "auth_reach sample_ossl sample_ac_config 0 sample_authenticator"
  unfolding sample_authenticator_def by (intro auth_reach.intros)

lemma sample_to_spki: "BlindRsaPublicKey_to_spki sample_ossl sample_rsa_key = Ok [1]"
  by (simp add: BlindRsaPublicKey_to_spki_def sample_rsa_key_def marshal_public_key_def)

lemma sample_authenticator_origin:
  "or_public_origin (ta_origin sample_authenticator)
     = Some (PublicOrigin_new sample_ossl (authenticator_origin_config sample_ac_config) [sample_rsa_key])"
  by (simp add: sample_authenticator_def TokenAuthenticator_add_trusted_rsa_key_def TokenAuthenticator_new_def
      sample_to_spki sample_parses Origin_add_blind_rsa_key_def copy_rsa_key_def Origin_new_def)

lemma sample_authenticator_empty: "ta_redeemed_nonces sample_authenticator = {}"
  by (simp add: sample_authenticator_def TokenAuthenticator_add_trusted_rsa_key_def TokenAuthenticator_new_def
      sample_to_spki sample_parses)

lemma sample_trusts: "trusted (PublicOrigin_new sample_ossl config [sample_rsa_key]) sample_key_id
     = Some (sample_rsa_key\<lparr>bpk_cached_key_id := sample_key_id, bpk_key_id_computed := True\<rparr>)"
  by (simp add: PublicOrigin_new_ops run_key_ops_trusted [OF keys_ok_empty] sample_key_identified)

text \<open>There is a token that the authenticator accepts: the exchange makes one.\<close>

lemma sample_exchange:
  assumes "trusted origin sample_key_id = Some okey" "bpk_pkey okey = Some ()"
  shows "\<exists>ctx challenge' rng' resp token.
    TokenProvider_prepare_request sample_ossl sample_provider sample_challenge () = Some ((Ok ctx, challenge'), rng')
    \<and> PublicIssuer_issue sample_ossl sample_issuer (trc_request ctx) = Ok resp
    \<and> TokenProvider_finalize sample_ossl [''issuer.example''] sample_provider resp ctx = Ok token
    \<and> fst (PublicOrigin_verify sample_ossl origin token sample_challenge) = Ok True"
proof (rule provider_token_issued [OF sample_bn sample_evp, where key = sample_public_key])
  show "find_key sample_provider (tc_issuer_name sample_challenge) BLIND_RSA = Some sample_public_key"
    using sample_find_key by (simp add: sample_challenge_def)
  show "BlindRsaPublicKey_from_spki sample_ossl (pk_data sample_public_key) = Ok sample_rsa_key"
    by (simp add: sample_public_key_def sample_parses)
  show "public_key_documented sample_ossl sample_digest (\<lambda>hash em. em = sample_em hash) () sample_n sample_e"
    by (rule sample_public_key)
  show "private_key_documented sample_ossl () sample_n sample_e sample_d" by (rule sample_private_key)
  show "fst (TokenChallenge_digest sample_ossl sample_challenge)
      = Ok (sample_digest EVP_sha256 (challenge_bytes sample_challenge))"
    by (simp add: sample_challenge_digest)
  show "origin_info_allows (pc_origin_name (tp_config sample_provider)) (tc_origin_info sample_challenge)"
    using sample_allowed by (simp add: sample_provider_eq)
  show "trusted origin (pk_key_id sample_public_key) = Some okey" using assms(1) by (simp add: sample_public_key_def)
  show "generator_works sample_ossl () sample_n" by (rule sample_generator)
qed (simp_all add: sample_listed_keys sample_public_key_def sample_challenge_def sample_key_identified
    sample_rsa_pkey sample_issuer_key assms(2))

lemma sample_valid_token:
  "\<exists>token. fst (Origin_verify sample_ossl (ta_origin sample_authenticator) token sample_challenge) = Ok True"
proof -
  obtain token where token: "fst (PublicOrigin_verify sample_ossl
      (PublicOrigin_new sample_ossl (authenticator_origin_config sample_ac_config) [sample_rsa_key])
      token sample_challenge) = Ok True"
    using sample_exchange [OF sample_trusts] sample_rsa_pkey by auto
  then have "tok_type token = BLIND_RSA \<or> tok_type token = PARTIALLY_BLIND_RSA" by (simp add: PublicOrigin_accepts_iff)
  then show ?thesis using token by (intro exI [of _ token]) (simp add: Origin_verify_def sample_authenticator_origin)
qed

subsection \<open>Requests of the other kinds\<close>

definition sample_voprf_key :: "nat VoprfPublicKey" where
  "sample_voprf_key = VoprfPublicKey_new\<lparr>vpk_point := Some (sample_pt 5)\<rparr>"

lemma sample_voprf_blind:
  "length input \<le> 0xFFFF \<Longrightarrow> \<exists>fin. VoprfClient_blind sample_ossl input () = Some (Ok fin, ())"
  using voprf_issued [OF sample_ec sample_evp sample_scalars sample_affine_documented sample_sswu, of 5
      sample_voprf_key input "()" 1 1 "()" "()"] sample_hash_finite
  by (auto simp: sample_voprf_key_def)

lemma sample_private_request:
  "\<exists>res c k. PrivateClient_create_token_request sample_ossl sample_challenge sample_voprf_key ()
     = Some ((Ok res, c, k), ())"
proof -
  let ?d = "sample_digest EVP_sha256 (challenge_bytes sample_challenge)"
  have bytes: "VoprfPublicKey_to_bytes sample_ossl k = Ok (2 # be_bytes 48 5)"
    if "vpk_point k = Some (sample_pt 5)" for k
    using that by (simp add: VoprfPublicKey_to_bytes_def point_to_bytes_def sample_encode_def sample_pt_def)
  obtain kid k where id: "VoprfPublicKey_key_id sample_ossl sample_voprf_key = (Ok kid, k)"
    and k: "vpk_point k = Some (sample_pt 5)"
    using bytes [of sample_voprf_key]
    by (simp add: VoprfPublicKey_key_id_def sample_voprf_key_def VoprfPublicKey_new_def
        sha256_documented [OF sample_evp])
  have parse: "VoprfPublicKey_from_bytes sample_ossl (2 # be_bytes 48 5)
      = Ok (VoprfPublicKey_new\<lparr>vpk_point := Some (sample_pt 5)\<rparr>)"
    using VoprfPublicKey_from_bytes_iff [OF sample_ec, of "2 # be_bytes 48 5"
        "VoprfPublicKey_new\<lparr>vpk_point := Some (sample_pt 5)\<rparr>"] bytes
    by (auto intro!: exI [of _ 5])
  obtain input where input: "AuthenticatorInput_serialize \<lparr>ai_token_type = tc_type sample_challenge,
      ai_nonce = replicate 32 7, ai_challenge_digest = ?d, ai_token_key_id = kid\<rparr> = Ok input"
    by (simp add: AuthenticatorInput_serialize_eq)
  have len: "length input \<le> 0xFFFF"
  proof -
    have "length kid = 32" using id by (auto simp: VoprfPublicKey_key_id_def sample_voprf_key_def VoprfPublicKey_new_def
        sha256_documented [OF sample_evp] bytes split: sum.splits)
    then show ?thesis using input by (auto simp: AuthenticatorInput_serialize_eq)
  qed
  obtain fin where "VoprfClient_blind sample_ossl input () = Some (Ok fin, ())"
    using sample_voprf_blind [OF len] by blast
  then show ?thesis
    using input by (simp add: PrivateClient_create_token_request_def random_nonce_def sample_challenge_digest id
        bytes [OF k] parse Let_def tryM_def liftM_def)
qed

definition sample_partial_request :: TokenRequest where
  "sample_partial_request = TokenRequest_create PARTIALLY_BLIND_RSA (sample_key_id ! 31) (be_bytes 256 1)"

lemma sample_partial_issue:
  "PublicIssuer_issue sample_ossl sample_issuer sample_partial_request = Ok (create_blind_rsa (be_bytes 256 1))"
proof -
  have n: "1 < sample_n" using sample_n_bits(1) by (rule less_le_trans [rotated]) simp
  have "be_val (be_bytes 256 1) = 1" by (rule be_val_be_bytes) simp
  then show ?thesis
    using n by (simp add: PublicIssuer_issue_def sample_partial_request_def TokenRequest_create_def sample_issuer_key
        BlindRsaPrivateKey_blind_sign_def INT_MAX_def rsa_get_bn_param_def rsa_get_secure_bn_param_def
        sample_n_bits' RSA_MODULUS_SIZE_def sample_compare_def)
qed

definition sample_partial_provider :: TokenProvider where
  "sample_partial_provider =
     TokenProvider_add_issuer_key ''issuer.example'' (sample_public_key\<lparr>pk_type := PARTIALLY_BLIND_RSA\<rparr>)
       (TokenProvider_new (tp_config sample_provider))"

definition sample_context :: TokenRequestContext where
  "sample_context =
     \<lparr>trc_request = sample_partial_request,
      trc_finalization_data = \<lparr>fd_token_type = PARTIALLY_BLIND_RSA, fd_nonce = replicate 32 7,
        fd_challenge_digest = replicate 32 8, fd_token_key_id = sample_key_id,
        fd_data = BlindingVariant \<lparr>bd_inverse = be_bytes 256 1, bd_blinded_msg = []\<rparr>\<rparr>,
      trc_challenge_digest = replicate 32 8\<rparr>"

lemma sample_partial_keys:
  "listed_keys sample_partial_provider [''issuer.example''] = [sample_public_key\<lparr>pk_type := PARTIALLY_BLIND_RSA\<rparr>]"
  by (simp add: listed_keys_def sample_partial_provider_def TokenProvider_add_issuer_key_def TokenProvider_new_def)

end
