(* ===== verification/PP_Moq_Relay.thy ===== *)
theory PP_Moq_Relay
  imports PP_Token_Authenticator PP_Moq_Authorization PP_Liveness
begin

text \<open>
  The relay and the client that the MOQT examples build on the library, \<open>MoqRelay\<close> of
  examples/moq_relay.cpp and \<open>MoqClient\<close> of examples/moq_client.cpp: the token authenticator
  composed with the grants in the origin_info of its challenges. An error code of a relay is
  the 16-bit number behind its \<open>enum class\<close>, which the success value sets to zero, a number
  that is no code. The time is that of the token authenticator.
\<close>

datatype MoqErrorCode =
  MOQ_TOKEN_MISSING | MOQ_TOKEN_INVALID | MOQ_TOKEN_EXPIRED | MOQ_TOKEN_REPLAYED
  | MOQ_SCOPE_MISMATCH | MOQ_ISSUER_UNKNOWN | MOQ_TOKEN_MALFORMED

fun moq_error_value :: "MoqErrorCode \<Rightarrow> u16" where
  "moq_error_value MOQ_TOKEN_MISSING = 0x0100"
| "moq_error_value MOQ_TOKEN_INVALID = 0x0101"
| "moq_error_value MOQ_TOKEN_EXPIRED = 0x0102"
| "moq_error_value MOQ_TOKEN_REPLAYED = 0x0103"
| "moq_error_value MOQ_SCOPE_MISMATCH = 0x0104"
| "moq_error_value MOQ_ISSUER_UNKNOWN = 0x0105"
| "moq_error_value MOQ_TOKEN_MALFORMED = 0x0106"

record MoqVerificationResult =
  mv_valid :: bool
  mv_error_code :: u16
  mv_error_message :: string
  mv_auth_info :: "AuthorizationInfo option"

definition MoqVerificationResult_success :: "AuthorizationInfo \<Rightarrow> MoqVerificationResult" where
  "MoqVerificationResult_success info =
     \<lparr>mv_valid = True, mv_error_code = 0, mv_error_message = [], mv_auth_info = Some info\<rparr>"

definition MoqVerificationResult_failure :: "MoqErrorCode \<Rightarrow> string \<Rightarrow> MoqVerificationResult" where
  "MoqVerificationResult_failure code msg =
     \<lparr>mv_valid = False, mv_error_code = moq_error_value code, mv_error_message = msg, mv_auth_info = None\<rparr>"

subsection \<open>The relay\<close>

record ('p, 't) MoqRelay =
  mr_relay_name :: string
  mr_issuer_name :: string
  mr_authenticator :: "('p, 't) TokenAuthenticator"

definition MoqRelay_new :: "string \<Rightarrow> string \<Rightarrow> ('p, 't) MoqRelay" where
  "MoqRelay_new relay_name issuer_name =
     \<lparr>mr_relay_name = relay_name, mr_issuer_name = issuer_name,
      mr_authenticator = TokenAuthenticator_new
        \<lparr>ac_issuer_name = issuer_name, ac_origin_names = [relay_name], ac_redemption_window = 3600,
         ac_replay_window = 3600, ac_require_redemption_context = False, ac_max_replay_cache_size = 100000\<rparr>\<rparr>"

definition MoqRelay_add_trusted_issuer ::
  "('m, 'd, 'r, 'p, 'k, 'b, 'z) rsa_api_scheme \<Rightarrow> 'p BlindRsaPublicKey \<Rightarrow> ('p, 't) MoqRelay
     \<Rightarrow> ('p, 't) MoqRelay" where
  "MoqRelay_add_trusted_issuer L key relay =
     relay\<lparr>mr_authenticator :=
       TokenAuthenticator_add_trusted_rsa_key L (mr_issuer_name relay) key (mr_authenticator relay)\<rparr>"

definition MoqRelay_create_challenge ::
  "('p, 't) MoqRelay \<Rightarrow> AuthorizationInfo \<Rightarrow> TokenChallenge result" where
  "MoqRelay_create_challenge relay required_auth =
     (case encode_for_origin_info required_auth of
        Inl e \<Rightarrow> Inl e
      | Inr encoded \<Rightarrow>
          TokenAuthenticator_create_challenge (mr_authenticator relay) BLIND_RSA None [encoded])"

definition validation_message :: "ValidationResult \<Rightarrow> string" where
  "validation_message result =
     (case vr_error_message result of None \<Rightarrow> ''Validation failed'' | Some msg \<Rightarrow> msg)"

definition MoqRelay_verify_token ::
  "('m, 'd, 'r, 'p, 'k, 'b, 'z) rsa_api_scheme \<Rightarrow> Token \<Rightarrow> TokenChallenge \<Rightarrow> ('p, 't) MoqRelay
     \<Rightarrow> MoqVerificationResult \<times> TokenChallenge" where
  "MoqRelay_verify_token L token challenge relay =
     (case TokenAuthenticator_validate L (mr_authenticator relay) token challenge of
        (result, challenge) \<Rightarrow>
          (if \<not> vr_valid result then
             (let code = MOQ_TOKEN_INVALID;
                  code = (if vr_error_code result = Some TOKEN_REPLAYED then MOQ_TOKEN_REPLAYED
                          else if vr_error_code result = Some ISSUER_UNKNOWN then MOQ_ISSUER_UNKNOWN
                          else code)
              in MoqVerificationResult_failure code (validation_message result))
           else if tc_origin_info challenge = [] then
             MoqVerificationResult_failure MOQ_TOKEN_MALFORMED ''Missing authorization info''
           else
             (case decode_from_origin_info (tc_origin_info challenge ! 0) of
                Inl e \<Rightarrow> MoqVerificationResult_failure MOQ_TOKEN_MALFORMED ''Invalid authorization info''
              | Inr auth_info \<Rightarrow> MoqVerificationResult_success auth_info),
           challenge))"

definition MoqRelay_verify_and_authorize ::
  "('m, 'd, 'r, 'p, 'k, 'b, 'z) rsa_api_scheme \<Rightarrow> int \<Rightarrow> Token \<Rightarrow> TokenChallenge \<Rightarrow> Action \<Rightarrow> Namespace
     \<Rightarrow> TrackName \<Rightarrow> ('p, 't) MoqRelay \<Rightarrow> (MoqVerificationResult \<times> TokenChallenge) \<times> ('p, 't) MoqRelay" where
  "MoqRelay_verify_and_authorize L now token challenge action ns track relay =
     (case TokenAuthenticator_validate_and_redeem L now token challenge (mr_authenticator relay) of
        ((result, challenge), authenticator) \<Rightarrow>
          ((if \<not> vr_valid result then
              (let code = MOQ_TOKEN_INVALID;
                   code = (if vr_error_code result = Some TOKEN_REPLAYED then MOQ_TOKEN_REPLAYED else code)
               in MoqVerificationResult_failure code (validation_message result))
            else if tc_origin_info challenge = [] then
              MoqVerificationResult_failure MOQ_TOKEN_MALFORMED ''Missing authorization info''
            else
              (case decode_from_origin_info (tc_origin_info challenge ! 0) of
                 Inl e \<Rightarrow> MoqVerificationResult_failure MOQ_TOKEN_MALFORMED ''Invalid authorization info''
               | Inr auth_info \<Rightarrow>
                   if \<not> info_authorizes auth_info action ns track then
                     MoqVerificationResult_failure MOQ_SCOPE_MISMATCH
                       (''Token does not authorize '' @ action_name action)
                   else MoqVerificationResult_success auth_info),
            challenge),
           relay\<lparr>mr_authenticator := authenticator\<rparr>))"

subsection \<open>The client\<close>

record MoqClient =
  mc_provider :: TokenProvider

definition MoqClient_new :: MoqClient where
  "MoqClient_new =
     \<lparr>mc_provider = TokenProvider_new
        \<lparr>pc_max_cached_tokens = 10, pc_token_prefetch_threshold = 60, pc_allow_token_reuse = False,
         pc_origin_name = ''origin.example.com''\<rparr>\<rparr>"

definition MoqClient_add_issuer :: "string \<Rightarrow> PublicKey \<Rightarrow> MoqClient \<Rightarrow> MoqClient" where
  "MoqClient_add_issuer name key client =
     client\<lparr>mc_provider := TokenProvider_add_issuer_key name key (mc_provider client)\<rparr>"

definition MoqClient_prepare_request ::
  "('m, 'd, 'r, 'p, 'k, 'b, 't, 'z) ossl_scheme \<Rightarrow> MoqClient \<Rightarrow> TokenChallenge \<Rightarrow> 'r
     \<Rightarrow> ((TokenRequestContext result \<times> TokenChallenge) \<times> 'r) option" where
  "MoqClient_prepare_request L client challenge rng =
     TokenProvider_prepare_request L (mc_provider client) challenge rng"

definition MoqClient_finalize ::
  "('m, 'd, 'r, 'p, 'k, 'b, 't, 'z) ossl_scheme \<Rightarrow> string list \<Rightarrow> MoqClient \<Rightarrow> TokenResponse
     \<Rightarrow> TokenRequestContext \<Rightarrow> Token result" where
  "MoqClient_finalize L issuers client response ctx =
     TokenProvider_finalize L issuers (mc_provider client) response ctx"

definition MoqClient_parse_auth_info :: "TokenChallenge \<Rightarrow> AuthorizationInfo result" where
  "MoqClient_parse_auth_info challenge =
     (if tc_origin_info challenge = [] then Err MALFORMED_DATA ''No origin_info''
      else decode_from_origin_info (tc_origin_info challenge ! 0))"

definition MoqClient_token_authorizes ::
  "TokenChallenge \<Rightarrow> Action \<Rightarrow> Namespace \<Rightarrow> TrackName \<Rightarrow> bool" where
  "MoqClient_token_authorizes challenge action ns track =
     (case MoqClient_parse_auth_info challenge of
        Inl e \<Rightarrow> False
      | Inr auth_info \<Rightarrow> info_authorizes auth_info action ns track)"

text \<open>The challenge that \<open>main\<close> of examples/moq_client.cpp hands to its client.\<close>

definition moq_client_challenge :: "Namespace \<Rightarrow> TrackName \<Rightarrow> TokenChallenge result" where
  "moq_client_challenge test_ns test_track =
     (let auth_info = for_subscriber test_ns test_track
      in case encode_for_origin_info auth_info of
           Inl e \<Rightarrow> Inl e
         | Inr encoded_auth \<Rightarrow>
             Ok (TokenChallenge_create BLIND_RSA ''issuer.example.com'' None
                   [encoded_auth, ''relay.example.com'']))"

end
