(* ===== verification/PP_Relay_Flow.thy ===== *)
theory PP_Relay_Flow
  imports PP_Moq_Relay
begin

text \<open>
  What the relay decides: when it grants a request, that a token that verified is used up
  whatever the decision was, that a token is granted at most once, and that the token a client
  obtains for a challenge of the relay is granted exactly what the grant in the challenge
  says.
\<close>

lemma digest_keeps_origin_info:
  "TokenChallenge_digest L c = (r, c') \<Longrightarrow> tc_origin_info c' = tc_origin_info c"
  by (auto simp: TokenChallenge_digest_def split: option.splits sum.splits)

lemma Origin_verify_origin_info:
  "tc_origin_info (snd (Origin_verify L origin token challenge)) = tc_origin_info challenge"
  by (auto simp: Origin_verify_def PublicOrigin_verify_def dest!: digest_keeps_origin_info
      split: option.splits sum.splits prod.splits)

lemma check_token_origin_info:
  "tc_origin_info (snd (check_token L origin token challenge)) = tc_origin_info challenge"
proof -
  have v: "tc_origin_info c' = tc_origin_info c" if "Origin_verify L origin token c = (r, c')" for c r c'
    using Origin_verify_origin_info [of L origin token c] that by simp
  show ?thesis
    by (auto simp: check_token_def dest!: v digest_keeps_origin_info split: sum.splits prod.splits)
qed

text \<open>The grant in a challenge: its first origin entry, decoded.\<close>

definition granted :: "TokenChallenge \<Rightarrow> AuthorizationInfo option" where
  "granted challenge =
     (case tc_origin_info challenge of
        [] \<Rightarrow> None
      | entry # _ \<Rightarrow> (case decode_from_origin_info entry of Inl _ \<Rightarrow> None | Inr i \<Rightarrow> Some i))"

lemma MoqVerificationResult_valid [simp]:
  "mv_valid (MoqVerificationResult_success i)" "\<not> mv_valid (MoqVerificationResult_failure code msg)"
  "mv_auth_info (MoqVerificationResult_success i) = Some i"
  by (simp_all add: MoqVerificationResult_success_def MoqVerificationResult_failure_def)

text \<open>
  A verified token that is not yet redeemed leaves its mark; everything else leaves the relay
  alone.
\<close>

definition relay_spends :: "('m, 'd, 'r, 'p, 'k, 'b, 'z) rsa_api_scheme \<Rightarrow> Token \<Rightarrow> TokenChallenge
    \<Rightarrow> ('p, 't) MoqRelay \<Rightarrow> bool" where
  "relay_spends L token challenge relay \<longleftrightarrow>
     tok_nonce token \<notin> ta_redeemed_nonces (mr_authenticator relay)
     \<and> fst (Origin_verify L (ta_origin (mr_authenticator relay)) token challenge) = Ok True"

lemma relay_state:
  "snd (MoqRelay_verify_and_authorize L now token challenge action ns track relay) =
     (if relay_spends L token challenge relay then
        relay\<lparr>mr_authenticator := snd (check_and_add_nonce now (tok_nonce token) (mr_authenticator relay))\<rparr>
      else relay)"
  using check_token_valid_iff [of L "ta_origin (mr_authenticator relay)" token challenge]
  by (auto simp: MoqRelay_verify_and_authorize_def TokenAuthenticator_validate_and_redeem_def relay_spends_def
      split: prod.splits)

lemma relay_grants:
  fixes L :: "('m, 'd, 'r, 'p, 'k, 'b, 'z) rsa_api_scheme" and relay :: "('p, 't) MoqRelay"
    and now :: int and token :: Token and challenge :: TokenChallenge and action :: Action
    and ns :: Namespace and track :: TrackName
  assumes "cache_inv w m t (mr_authenticator relay)"
  defines "v \<equiv> fst (fst (MoqRelay_verify_and_authorize L now token challenge action ns track relay))"
  shows "mv_valid v \<longleftrightarrow> relay_spends L token challenge relay
      \<and> (\<exists>i. granted challenge = Some i \<and> info_authorizes i action ns track)"
    and "mv_valid v \<Longrightarrow> mv_auth_info v = granted challenge"
    and "mv_valid v \<Longrightarrow> fst (check_and_add_nonce now (tok_nonce token) (mr_authenticator relay))"
proof -
  let ?auth = "mr_authenticator relay"
  have fresh: "fst (check_and_add_nonce now (tok_nonce token) ?auth)"
    if "tok_nonce token \<notin> ta_redeemed_nonces ?auth"
    using that kept_entries_ok(2) [OF assms(1), of now] assms(1)
    by (auto simp: check_and_add_nonce_parts(1) [OF assms(1)] cache_inv_def entries_ok_def)
  obtain r ch where ck: "check_token L (ta_origin ?auth) token challenge = (r, ch)" by (metis prod.collapse)
  have valid: "vr_valid r \<longleftrightarrow> fst (Origin_verify L (ta_origin ?auth) token challenge) = Ok True"
    using check_token_valid_iff [of L "ta_origin ?auth" token challenge] by (simp add: ck)
  have info: "tc_origin_info ch = tc_origin_info challenge"
    using check_token_origin_info [of L "ta_origin ?auth" token challenge] by (simp add: ck)
  obtain auth' where add: "tok_nonce token \<notin> ta_redeemed_nonces ?auth \<Longrightarrow>
      check_and_add_nonce now (tok_nonce token) ?auth = (True, auth')"
    using fresh by (metis prod.collapse)
  have spent: "v = (case granted challenge of
        None \<Rightarrow> MoqVerificationResult_failure MOQ_TOKEN_MALFORMED
          (if tc_origin_info challenge = [] then ''Missing authorization info'' else ''Invalid authorization info'')
      | Some i \<Rightarrow>
          if info_authorizes i action ns track then MoqVerificationResult_success i
          else MoqVerificationResult_failure MOQ_SCOPE_MISMATCH (''Token does not authorize '' @ action_name action))"
    if "relay_spends L token challenge relay"
    using that valid
    by (auto simp: v_def MoqRelay_verify_and_authorize_def TokenAuthenticator_validate_and_redeem_def
        relay_spends_def ck add info granted_def Let_def split: list.splits sum.splits)
  have unspent: "\<not> mv_valid v" if "\<not> relay_spends L token challenge relay"
    using that valid
    by (auto simp: v_def MoqRelay_verify_and_authorize_def TokenAuthenticator_validate_and_redeem_def
        relay_spends_def ck ValidationResult_failure_def Let_def)
  show iff: "mv_valid v \<longleftrightarrow> relay_spends L token challenge relay
      \<and> (\<exists>i. granted challenge = Some i \<and> info_authorizes i action ns track)"
    by (cases "relay_spends L token challenge relay"; cases "granted challenge")
      (simp_all add: spent unspent split: if_splits)
  show "mv_auth_info v = granted challenge" if "mv_valid v"
    using that iff spent by (auto split: if_splits)
  show "fst (check_and_add_nonce now (tok_nonce token) ?auth)" if "mv_valid v"
    using that iff fresh by (simp add: relay_spends_def)
qed

subsection \<open>A token is granted at most once\<close>

record relay_call =
  rl_now :: int
  rl_token :: Token
  rl_challenge :: TokenChallenge
  rl_action :: Action
  rl_namespace :: Namespace
  rl_track :: TrackName

definition relay_request ::
  "('m, 'd, 'r, 'p, 'k, 'b, 'z) rsa_api_scheme \<Rightarrow> relay_call \<Rightarrow> ('p, 't) MoqRelay
     \<Rightarrow> MoqVerificationResult \<times> ('p, 't) MoqRelay" where
  "relay_request L c relay =
     (case MoqRelay_verify_and_authorize L (rl_now c) (rl_token c) (rl_challenge c) (rl_action c)
         (rl_namespace c) (rl_track c) relay of
        ((r, _), relay) \<Rightarrow> (r, relay))"

lemma relay_request_parts:
  "fst (relay_request L c relay) = fst (fst (MoqRelay_verify_and_authorize L (rl_now c) (rl_token c)
      (rl_challenge c) (rl_action c) (rl_namespace c) (rl_track c) relay))"
  "snd (relay_request L c relay) = snd (MoqRelay_verify_and_authorize L (rl_now c) (rl_token c)
      (rl_challenge c) (rl_action c) (rl_namespace c) (rl_track c) relay)"
  by (simp_all add: relay_request_def split: prod.splits)

lemma relay_grant_adds:
  assumes "mv_valid (fst (relay_request L c relay))"
  shows "fst (check_and_add_nonce (rl_now c) (tok_nonce (rl_token c)) (mr_authenticator relay))
    \<and> mr_authenticator (snd (relay_request L c relay))
        = snd (check_and_add_nonce (rl_now c) (tok_nonce (rl_token c)) (mr_authenticator relay))"
  using assms
  by (auto simp: relay_request_def MoqRelay_verify_and_authorize_def TokenAuthenticator_validate_and_redeem_def
      ValidationResult_failure_def Let_def split: prod.splits if_splits)

interpretation relay_redeemer: redeemer check_and_add_nonce redeemed_at
    TokenAuthenticator_redemption_cache_size "cache_inv w m" "nonce_expired w" m
    "relay_request L" mr_authenticator rl_now "\<lambda>c. tok_nonce (rl_token c)" mv_valid
  for w m and L :: "('m, 'd, 'r, 'p, 'k, 'b, 'z) rsa_api_scheme"
proof unfold_locales
  fix c :: relay_call and relay :: "('p, 't) MoqRelay"
  show "mr_authenticator (snd (relay_request L c relay)) = mr_authenticator relay \<or>
      mr_authenticator (snd (relay_request L c relay))
        = snd (check_and_add_nonce (rl_now c) (tok_nonce (rl_token c)) (mr_authenticator relay))"
    by (simp add: relay_request_parts relay_state)
qed (use relay_grant_adds in \<open>auto intro: cache_inv_mono\<close>)

subsection \<open>The whole exchange\<close>

text \<open>The grant of a challenge that the relay makes is the one it was made for.\<close>

lemma relay_challenge:
  "MoqRelay_create_challenge relay grant =
     Ok (TokenChallenge_create BLIND_RSA (ac_issuer_name (ta_config (mr_authenticator relay))) None
       (b64_encode (info_bytes grant) # ac_origin_names (ta_config (mr_authenticator relay))))"
  by (simp add: MoqRelay_create_challenge_def encode_for_origin_info_def AuthorizationInfo_serialize_eq
      TokenAuthenticator_create_challenge_def)

lemma relay_challenge_granted:
  assumes "info_wf grant" "MoqRelay_create_challenge relay grant = Ok challenge"
  shows "granted challenge = Some grant" "tc_type challenge = BLIND_RSA" "tc_cached_digest challenge = None"
proof -
  have "decode_from_origin_info (b64_encode (info_bytes grant)) = Ok grant"
    using origin_info_round_trip [OF assms(1)]
    by (simp add: encode_for_origin_info_def AuthorizationInfo_serialize_eq)
  then show "granted challenge = Some grant" "tc_type challenge = BLIND_RSA" "tc_cached_digest challenge = None"
    using assms(2) by (auto simp: relay_challenge granted_def TokenChallenge_create_def)
qed

theorem relay_token_issued:
  assumes bn: "bn_documented L" and evp: "evp_documented L H"
    and pub: "public_key_documented L H em_ok pkey n e" "bpk_pkey key = Some pkey"
    and priv: "private_key_documented L skey n e d" "bsk_pkey (pi_private_key issuer) = Some skey"
    and id: "fst (BlindRsaPublicKey_key_id L key) = Ok key_id" "pi_truncated_key_id issuer = key_id ! 31"
    and works: "generator_works L pkey n"
    and trust: "or_public_origin (ta_origin (mr_authenticator relay)) = Some origin"
      "trusted origin key_id = Some okey" "bpk_pkey okey = Some pkey"
    and inv: "cache_inv w m t (mr_authenticator relay)"
    and grant: "info_wf grant" "MoqRelay_create_challenge relay grant = Ok challenge"
      "TokenChallenge_serialize challenge = Ok bs"
    and fkey: "bpk_pkey fkey = Some pkey"
  shows "\<exists>res challenge' key' rng' resp token.
    PublicClient_create_token_request L challenge key rng = Some ((Ok res, challenge', key'), rng')
    \<and> PublicIssuer_issue L issuer (trr_request res) = Ok resp
    \<and> PublicClient_finalize L resp (trr_finalization_data res) fkey = Ok token
    \<and> (tok_nonce token \<notin> ta_redeemed_nonces (mr_authenticator relay) \<longrightarrow>
       (mv_valid (fst (fst (MoqRelay_verify_and_authorize L now token challenge action ns track relay)))
         \<longleftrightarrow> info_authorizes grant action ns track))"
proof -
  note ch = relay_challenge_granted [OF grant(1,2)]
  have fits: "challenge_fits challenge" using grant(3) by (simp add: TokenChallenge_serialize_Ok_iff)
  obtain dg challenge' where dg: "TokenChallenge_digest L challenge = (Ok dg, challenge')"
    using TokenChallenge_digest_documented [OF evp fits ch(3)] by blast
  obtain key' where key': "BlindRsaPublicKey_key_id L key = (Ok key_id, key')" using id(1) by (metis prod.collapse)
  obtain res rng' where create:
    "PublicClient_create_token_request L challenge key rng = Some ((Ok res, challenge', key'), rng')"
    using PublicClient_create_total [OF bn evp pub works dg key'] by blast
  obtain resp token where issue: "PublicIssuer_issue L issuer (trr_request res) = Ok resp"
    and fin: "PublicClient_finalize L resp (trr_finalization_data res) key' = Ok token"
    and type: "tok_type token = tc_type challenge"
    and ok: "fst (PublicOrigin_verify L origin token challenge) = Ok True"
    using public_token_complete [OF bn evp pub priv disjI1 [OF ch(2)] id create trust(2,3)] by blast
  have same: "bpk_pkey key' = bpk_pkey fkey" using key_id_keeps_pkey [OF key'] pub(2) fkey by simp
  have "fst (Origin_verify L (ta_origin (mr_authenticator relay)) token challenge) = Ok True"
    using ok type ch(2) by (simp add: Origin_verify_def trust(1))
  then have "mv_valid (fst (fst (MoqRelay_verify_and_authorize L now token challenge action ns track relay)))
      \<longleftrightarrow> info_authorizes grant action ns track"
    if "tok_nonce token \<notin> ta_redeemed_nonces (mr_authenticator relay)"
    using that relay_grants(1) [OF inv, of L now token challenge action ns track] ch(1)
    by (simp add: relay_spends_def)
  then show ?thesis using create issue fin PublicClient_finalize_pkey [OF same] by metis
qed

subsection \<open>The example client\<close>

text \<open>
  The client of the example is configured for another origin than the one its challenge
  names, so it answers no challenge of this form, whatever issuers were added.
\<close>

lemma add_issuers_config:
  "tp_config (mc_provider (foldl (\<lambda>c (name, key). MoqClient_add_issuer name key c) client keys))
     = tp_config (mc_provider client)"
  by (induction keys arbitrary: client)
    (auto simp: MoqClient_add_issuer_def TokenProvider_add_issuer_key_def split: option.splits)

lemma example_origin_mismatch:
  assumes "CHR ''.'' \<notin> set entry"
  shows "\<not> origin_info_allows ''origin.example.com'' [entry, ''relay.example.com'']"
proof -
  have dot: "c = CHR ''.''" if "tolower c = CHR ''.''" for c
  proof -
    have "of_char (tolower c) = (46 :: nat)" by (simp add: that)
    then have "of_char c = (46 :: nat)" by (auto simp: tolower_def Let_def split: if_splits)
    moreover have "of_char (CHR ''.'') = (46 :: nat)" by simp
    ultimately show ?thesis by (metis char_of_char)
  qed
  have "\<not> ascii_equal_case_insensitive ''origin.example.com'' entry"
  proof
    assume same: "ascii_equal_case_insensitive ''origin.example.com'' entry"
    have len: "length (''origin.example.com'') = length entry"
      and eq: "\<forall>i < length (''origin.example.com''). tolower (''origin.example.com'' ! i) = tolower (entry ! i)"
      using same unfolding ascii_equal_case_insensitive_def list_all2_conv_all_nth by blast+
    have six: "6 < length (''origin.example.com'')" "''origin.example.com'' ! 6 = CHR ''.''"
      "tolower (CHR ''.'') = CHR ''.''" by (simp_all add: tolower_def)
    have "tolower (entry ! 6) = CHR ''.''" using eq six by metis
    then have "entry ! 6 = CHR ''.''" by (rule dot)
    then show False using assms six(1) nth_mem [of 6 entry] unfolding len by metis
  qed
  then show ?thesis by (simp add: origin_info_allows_def ascii_equal_case_insensitive_def)
qed

text \<open>The text of an encoding has no dot.\<close>

theorem example_client_refuses:
  assumes "moq_client_challenge test_ns test_track = Ok challenge"
  shows "MoqClient_prepare_request L (foldl (\<lambda>c (name, key). MoqClient_add_issuer name key c) MoqClient_new keys)
      challenge rng
    = Some ((Err INVALID_CHALLENGE ''Challenge origin_info does not include current origin'', challenge), rng)"
proof -
  have "CHR ''.'' \<notin> set (b64_encode bs)" for bs
  proof -
    have "CHR ''.'' \<notin> set ENCODE_TABLE" by (simp add: ENCODE_TABLE_def)
    then show ?thesis using set_b64_encode [of bs] by blast
  qed
  then have "\<not> origin_info_allows ''origin.example.com'' (tc_origin_info challenge)"
    using assms example_origin_mismatch
    by (auto simp: moq_client_challenge_def encode_for_origin_info_def AuthorizationInfo_serialize_eq
        TokenChallenge_create_def)
  then show ?thesis
    by (simp add: MoqClient_prepare_request_def TokenProvider_prepare_request_def add_issuers_config
        MoqClient_new_def TokenProvider_new_def)
qed

end
