(* ===== verification/PP_Sample_Relay.thy ===== *)
theory PP_Sample_Relay
  imports PP_Sample_Flow PP_Relay_Flow
begin

text \<open>A relay that trusts the sample key, and a grant it makes a challenge for.\<close>

definition sample_relay :: "(unit, nat) MoqRelay" where
  "sample_relay =
     MoqRelay_add_trusted_issuer sample_ossl sample_rsa_key (MoqRelay_new ''relay.example'' ''issuer.example'')"

definition sample_relay_config :: TokenAuthenticatorConfig where
  "sample_relay_config = \<lparr>ac_issuer_name = ''issuer.example'', ac_origin_names = [''relay.example''],
     ac_redemption_window = 3600, ac_replay_window = 3600, ac_require_redemption_context = False,
     ac_max_replay_cache_size = 100000\<rparr>"

lemma sample_relay_reach: "auth_reach sample_ossl sample_relay_config 0 (mr_authenticator sample_relay)"
  unfolding sample_relay_def MoqRelay_add_trusted_issuer_def MoqRelay_new_def sample_relay_config_def
  by (simp only: MoqRelay.simps) (intro auth_reach.intros)

lemma sample_relay_parts:
  "or_public_origin (ta_origin (mr_authenticator sample_relay))
     = Some (PublicOrigin_new sample_ossl (authenticator_origin_config sample_relay_config) [sample_rsa_key])"
  "ta_redeemed_nonces (mr_authenticator sample_relay) = {}"
  "ta_config (mr_authenticator sample_relay) = sample_relay_config"
  by (simp_all add: sample_relay_def MoqRelay_add_trusted_issuer_def MoqRelay_new_def
      TokenAuthenticator_add_trusted_rsa_key_def TokenAuthenticator_new_def sample_relay_config_def
      sample_to_spki sample_parses Origin_add_blind_rsa_key_def copy_rsa_key_def Origin_new_def)

text \<open>A grant to subscribe to one track; what its challenge looks like.\<close>

definition sample_grant :: AuthorizationInfo where
  "sample_grant = for_subscriber [[1]] [2]"

definition sample_relay_challenge :: TokenChallenge where
  "sample_relay_challenge =
     TokenChallenge_create BLIND_RSA ''issuer.example'' None [b64_encode (info_bytes sample_grant), ''relay.example'']"

lemma sample_grant_wf: "info_wf sample_grant"
  by (simp add: sample_grant_def preset_defs info_wf_def scope_wf_def namespace_match_wf_def track_match_wf_def
      elem_ok_def scope_bytes_def namespace_match_bytes_def track_match_bytes_def elem_bytes_def)

lemma sample_relay_challenge_made: "MoqRelay_create_challenge sample_relay sample_grant = Ok sample_relay_challenge"
  by (simp add: relay_challenge sample_relay_parts sample_relay_challenge_def sample_relay_config_def)

lemma sample_relay_challenge_fits:
  "TokenChallenge_serialize sample_relay_challenge = Ok (challenge_bytes sample_relay_challenge)"
  by (simp add: TokenChallenge_serialize_Ok_iff challenge_fits_def sample_relay_challenge_def
      TokenChallenge_create_def length_b64_encode sample_grant_def preset_defs info_bytes_def framed_scope_def
      scope_bytes_def namespace_match_bytes_def track_match_bytes_def elem_bytes_def)

lemma sample_relay_grants:
  "\<exists>token. mv_valid (fst (fst (MoqRelay_verify_and_authorize sample_ossl 5 token sample_relay_challenge
      FETCH [[1]] [2] sample_relay)))"
  using relay_token_issued [OF sample_bn sample_evp sample_public_key sample_rsa_pkey sample_private_key
      sample_issuer_key(1) _ sample_issuer_key(2) sample_generator sample_relay_parts(1) sample_trusts _
      auth_reach_inv [OF sample_relay_reach] sample_grant_wf sample_relay_challenge_made
      sample_relay_challenge_fits sample_rsa_pkey, of "()" 5 FETCH "[[1]]" "[2]"]
  by (simp add: sample_key_identified sample_rsa_pkey sample_relay_parts sample_grant_def
      for_subscriber_authorizes_iff) blast

end
