(* ===== verification/PP_Compat_Backends.thy ===== *)
theory PP_Compat_Backends
  imports PP_Blind_Rsa
begin

text \<open>
  The branches of src/crypto/compat.hpp for the other two libraries the code can be built
  with, BoringSSL and OpenSSL 1.1; the branch for OpenSSL 3 is in \<open>PP_Hash\<close> and
  \<open>PP_Blind_Rsa\<close>. Both reach the RSA structure behind a key with the low-level calls; a
  function named for one library is compiled for that library only, one that ends in
  \<open>low_level\<close> for both. A null pointer is \<open>None\<close>. The memory that is freed on the way out of
  an error is not modelled.
\<close>

datatype pkey_alg = EVP_pkey_rsa_pss_sha384 | EVP_pkey_rsa

record ('md, 'kdf, 'rng, 'pkey, 'kc, 'bld, 'rsa) low_level_api =
    "('md, 'kdf, 'rng, 'pkey, 'kc, 'bld) rsa_api" +
  EVP_PKEY_RSA :: int
  EVP_PKEY_id :: "'pkey \<Rightarrow> int"
  EVP_PKEY_get0_RSA :: "'pkey \<Rightarrow> 'rsa option"
  RSA_get0_key :: "'rsa \<Rightarrow> nat option \<times> nat option \<times> nat option"
  BN_dup :: "nat \<Rightarrow> nat option"
  BN_set_word :: "nat \<Rightarrow> nat option"
  RSA_new :: "'rsa option"
  RSA_set0_key :: "'rsa \<Rightarrow> nat \<Rightarrow> nat \<Rightarrow> int \<times> 'rsa"
  EVP_PKEY_new :: "'pkey option"
  EVP_PKEY_assign_RSA :: "'pkey \<Rightarrow> 'rsa \<Rightarrow> int \<times> 'pkey"
  RSA_generate_key_ex :: "'rng \<Rightarrow> 'rsa \<Rightarrow> int \<Rightarrow> nat \<Rightarrow> (int \<times> 'rsa) \<times> 'rng"
  EVP_PKEY_from_subject_public_key_info :: "bytes \<Rightarrow> pkey_alg list \<Rightarrow> 'pkey option"
  EVP_PKEY_from_private_key_info :: "bytes \<Rightarrow> pkey_alg list \<Rightarrow> 'pkey option"
  CBB_init :: bool
  EVP_marshal_public_key :: "'pkey \<Rightarrow> bytes option"
  EVP_marshal_private_key :: "'pkey \<Rightarrow> bytes option"
  CBB_finish :: "bytes \<Rightarrow> bytes option"
  HKDF_extract :: "nat \<Rightarrow> EVP_MD \<Rightarrow> bytes \<Rightarrow> bytes \<Rightarrow> int \<times> bytes"
  HKDF_expand :: "nat \<Rightarrow> EVP_MD \<Rightarrow> bytes \<Rightarrow> bytes \<Rightarrow> int \<times> bytes"

subsection \<open>HKDF\<close>

text \<open>\<open>HKDF_extract\<close> writes at most the size of the hash and says how much it wrote.\<close>

definition hkdf_extract_boringssl ::
  "('m, 'd, 'r, 'p, 'k, 'b, 'rsa, 'z) low_level_api_scheme \<Rightarrow> EVP_MD \<Rightarrow> bytes \<Rightarrow> bytes \<Rightarrow> bytes result" where
  "hkdf_extract_boringssl L md salt ikm =
     (case HKDF_extract L (EVP_MD_size L md) md ikm salt of (r, prk) \<Rightarrow>
        if r \<noteq> 1 then Err CRYPTO_ERROR ''HKDF-Extract failed'' else Ok prk)"

definition hkdf_expand_boringssl ::
  "('m, 'd, 'r, 'p, 'k, 'b, 'rsa, 'z) low_level_api_scheme \<Rightarrow> EVP_MD \<Rightarrow> bytes \<Rightarrow> bytes \<Rightarrow> nat \<Rightarrow> bytes result" where
  "hkdf_expand_boringssl L md prk info len =
     (case HKDF_expand L len md prk info of (r, okm) \<Rightarrow>
        if r \<noteq> 1 then Err CRYPTO_ERROR ''HKDF-Expand failed'' else Ok okm)"

subsection \<open>Validation of keys\<close>

text \<open>The part the two libraries share: the structure, its size and its exponent.\<close>

definition rsa_components_ok ::
  "('m, 'd, 'r, 'p, 'k, 'b, 'rsa, 'z) low_level_api_scheme \<Rightarrow> 'p \<Rightarrow> int \<Rightarrow> nat \<Rightarrow> unit result" where
  "rsa_components_ok L pkey expected_bits expected_e =
     (case EVP_PKEY_get0_RSA L pkey of
        None \<Rightarrow> Err INVALID_KEY ''Failed to get RSA key''
      | Some rsa \<Rightarrow>
          (case RSA_get0_key L rsa of
             (Some n, Some e, _) \<Rightarrow>
               if BN_num_bits L n \<noteq> expected_bits \<or> \<not> BN_is_word L e expected_e then
                 Err INVALID_KEY ''RSA key must be RSA-2048 with exponent 65537''
               else Ok ()
           | _ \<Rightarrow> Err INVALID_KEY ''RSA key must be RSA-2048 with exponent 65537''))"

definition validate_rsa_params_boringssl ::
  "('m, 'd, 'r, 'p, 'k, 'b, 'rsa, 'z) low_level_api_scheme \<Rightarrow> 'p \<Rightarrow> int \<Rightarrow> nat \<Rightarrow> unit result" where
  "validate_rsa_params_boringssl L pkey expected_bits expected_e =
     (let pkey_type = EVP_PKEY_id L pkey
      in if pkey_type \<noteq> EVP_PKEY_RSA L \<and> pkey_type \<noteq> EVP_PKEY_RSA_PSS L then
           Err INVALID_KEY ''Not an RSA key''
         else rsa_components_ok L pkey expected_bits expected_e)"

definition validate_rsa_params_openssl11 ::
  "('m, 'd, 'r, 'p, 'k, 'b, 'rsa, 'z) low_level_api_scheme \<Rightarrow> 'p \<Rightarrow> int \<Rightarrow> nat \<Rightarrow> unit result" where
  "validate_rsa_params_openssl11 L pkey expected_bits expected_e =
     (let pkey_type = EVP_PKEY_base_id L pkey
      in if pkey_type \<noteq> EVP_PKEY_RSA L \<and> pkey_type \<noteq> EVP_PKEY_RSA_PSS L then
           Err INVALID_KEY ''Not an RSA key''
         else rsa_components_ok L pkey expected_bits expected_e)"

subsection \<open>Keys\<close>

definition emsa_pss_encode_boringssl ::
  "('m, 'd, 'r, 'p, 'k, 'b, 'rsa, 'z) low_level_api_scheme \<Rightarrow> 'p \<Rightarrow> bytes \<Rightarrow> int \<Rightarrow> ('r, bytes) proc" where
  "emsa_pss_encode_boringssl L pkey msg_hash salt_len =
     (if EVP_PKEY_get0_RSA L pkey = None then liftM (Err INVALID_KEY ''Failed to get RSA key'')
      else drawM (\<lambda>rng.
        case RSA_padding_add_PKCS1_PSS_mgf1 L rng pkey msg_hash EVP_sha384 EVP_sha384 salt_len of
          ((r, encoded), rng') \<Rightarrow>
            (if r \<noteq> 1 then Err CRYPTO_ERROR sanitized_error else Ok encoded, rng')))"

definition parse_public_key_spki_boringssl ::
  "('m, 'd, 'r, 'p, 'k, 'b, 'rsa, 'z) low_level_api_scheme \<Rightarrow> bytes \<Rightarrow> 'p option" where
  "parse_public_key_spki_boringssl L spki =
     EVP_PKEY_from_subject_public_key_info L spki [EVP_pkey_rsa_pss_sha384, EVP_pkey_rsa]"

definition parse_private_key_der_boringssl ::
  "('m, 'd, 'r, 'p, 'k, 'b, 'rsa, 'z) low_level_api_scheme \<Rightarrow> bytes \<Rightarrow> 'p option" where
  "parse_private_key_der_boringssl L der =
     EVP_PKEY_from_private_key_info L der [EVP_pkey_rsa_pss_sha384, EVP_pkey_rsa]"

definition marshal_public_key_boringssl ::
  "('m, 'd, 'r, 'p, 'k, 'b, 'rsa, 'z) low_level_api_scheme \<Rightarrow> 'p \<Rightarrow> bytes result" where
  "marshal_public_key_boringssl L pkey =
     (if \<not> CBB_init L then Err CRYPTO_ERROR ''Failed to encode SPKI''
      else
        (case EVP_marshal_public_key L pkey of
           None \<Rightarrow> Err CRYPTO_ERROR ''Failed to encode SPKI''
         | Some cbb \<Rightarrow>
             (case CBB_finish L cbb of
                None \<Rightarrow> Err CRYPTO_ERROR ''Failed to finish SPKI''
              | Some data \<Rightarrow> Ok data)))"

definition marshal_private_key_boringssl ::
  "('m, 'd, 'r, 'p, 'k, 'b, 'rsa, 'z) low_level_api_scheme \<Rightarrow> 'p \<Rightarrow> bytes result" where
  "marshal_private_key_boringssl L pkey =
     (if \<not> CBB_init L then Err CRYPTO_ERROR ''Failed to encode PKCS#8''
      else
        (case EVP_marshal_private_key L pkey of
           None \<Rightarrow> Err CRYPTO_ERROR ''Failed to encode PKCS#8''
         | Some cbb \<Rightarrow>
             (case CBB_finish L cbb of
                None \<Rightarrow> Err CRYPTO_ERROR ''Failed to finish PKCS#8''
              | Some data \<Rightarrow> Ok data)))"

definition rsa_public_key_from_components_low_level ::
  "('m, 'd, 'r, 'p, 'k, 'b, 'rsa, 'z) low_level_api_scheme \<Rightarrow> nat \<Rightarrow> nat \<Rightarrow> 'p option" where
  "rsa_public_key_from_components_low_level L n e =
     (case RSA_new L of
        None \<Rightarrow> None
      | Some rsa \<Rightarrow>
          (case (BN_dup L n, BN_dup L e) of
             (Some n_dup, Some e_dup) \<Rightarrow>
               and_then (RSA_set0_key L rsa n_dup e_dup) (\<lambda>rsa.
                 case EVP_PKEY_new L of
                   None \<Rightarrow> None
                 | Some pkey \<Rightarrow> and_then (EVP_PKEY_assign_RSA L pkey rsa) Some)
           | _ \<Rightarrow> None))"

text \<open>\<open>RSA_F4\<close> is the constant 65537. The length of the salt is not used.\<close>

definition generate_rsa_pss_keypair_boringssl ::
  "('m, 'd, 'r, 'p, 'k, 'b, 'rsa, 'z) low_level_api_scheme \<Rightarrow> int \<Rightarrow> int \<Rightarrow> 'r \<Rightarrow> 'p option \<times> 'r" where
  "generate_rsa_pss_keypair_boringssl L bits salt_len rng =
     (if \<not> BN_new L then (None, rng)
      else
        (case BN_set_word L 65537 of
           None \<Rightarrow> (None, rng)
         | Some bn_e \<Rightarrow>
             (case RSA_new L of
                None \<Rightarrow> (None, rng)
              | Some rsa \<Rightarrow>
                  (case RSA_generate_key_ex L rng rsa bits bn_e of ((r, rsa), rng') \<Rightarrow>
                     if r \<noteq> 1 then (None, rng')
                     else
                       (case EVP_PKEY_new L of
                          None \<Rightarrow> (None, rng')
                        | Some pkey \<Rightarrow> (and_then (EVP_PKEY_assign_RSA L pkey rsa) Some, rng'))))))"

definition rsa_get_bn_param_low_level ::
  "('m, 'd, 'r, 'p, 'k, 'b, 'rsa, 'z) low_level_api_scheme \<Rightarrow> 'p \<Rightarrow> rsa_param \<Rightarrow> nat option" where
  "rsa_get_bn_param_low_level L pkey name =
     (case EVP_PKEY_get0_RSA L pkey of
        None \<Rightarrow> None
      | Some rsa \<Rightarrow>
          (case RSA_get0_key L rsa of (n, e, d) \<Rightarrow>
             (let src = (if name = PARAM_RSA_N then n else if name = PARAM_RSA_E then e else None)
              in case src of None \<Rightarrow> None | Some src \<Rightarrow> BN_dup L src)))"

definition rsa_get_secure_bn_param_low_level ::
  "('m, 'd, 'r, 'p, 'k, 'b, 'rsa, 'z) low_level_api_scheme \<Rightarrow> 'p \<Rightarrow> rsa_param \<Rightarrow> nat option" where
  "rsa_get_secure_bn_param_low_level L pkey name =
     (case EVP_PKEY_get0_RSA L pkey of
        None \<Rightarrow> None
      | Some rsa \<Rightarrow>
          (case RSA_get0_key L rsa of (n, e, d) \<Rightarrow>
             (let src = (if name = PARAM_RSA_D then d else None)
              in case src of None \<Rightarrow> None | Some src \<Rightarrow> BN_dup L src)))"

subsection \<open>The backends compared\<close>

text \<open>
  The interfaces describe the same key: the parameters of OpenSSL 3 are the numbers in the
  RSA structure, the two queries of the type agree, and a number can be copied.
\<close>

definition same_key ::
  "('m, 'd, 'r, 'p, 'k, 'b, 'rsa, 'z) low_level_api_scheme \<Rightarrow> 'p \<Rightarrow> bool" where
  "same_key L pkey \<longleftrightarrow>
     EVP_PKEY_id L pkey = EVP_PKEY_base_id L pkey \<and> (\<forall>k. BN_dup L k = Some k) \<and>
     (\<exists>rsa n e d. EVP_PKEY_get0_RSA L pkey = Some rsa \<and> RSA_get0_key L rsa = (Some n, Some e, d) \<and>
        EVP_PKEY_get_bn_param L pkey PARAM_RSA_N = (1, n) \<and>
        EVP_PKEY_get_bn_param L pkey PARAM_RSA_E = (1, e) \<and>
        (case d of None \<Rightarrow> fst (EVP_PKEY_get_bn_param L pkey PARAM_RSA_D) \<noteq> 1
         | Some d \<Rightarrow> EVP_PKEY_get_bn_param L pkey PARAM_RSA_D = (1, d)))"

lemma components_ok:
  assumes "same_key L pkey"
  shows "rsa_components_ok L pkey bits w = Ok () \<longleftrightarrow>
     BN_num_bits L (snd (EVP_PKEY_get_bn_param L pkey PARAM_RSA_N)) = bits
     \<and> BN_is_word L (snd (EVP_PKEY_get_bn_param L pkey PARAM_RSA_E)) w"
  using assms by (auto simp: rsa_components_ok_def same_key_def split: if_splits)

lemma backends_read_alike:
  assumes "same_key L pkey"
  shows "p \<noteq> PARAM_RSA_D \<Longrightarrow> rsa_get_bn_param_low_level L pkey p = rsa_get_bn_param L pkey p"
    and "rsa_get_secure_bn_param_low_level L pkey PARAM_RSA_D = rsa_get_secure_bn_param L pkey PARAM_RSA_D"
    and "rsa_get_bn_param_low_level L pkey PARAM_RSA_D = None"
  using assms
  by (cases p; auto simp: same_key_def rsa_get_bn_param_low_level_def rsa_get_bn_param_def
      rsa_get_secure_bn_param_low_level_def rsa_get_secure_bn_param_def split: option.splits prod.splits)+

text \<open>
  The other backends accept every key that OpenSSL 3 accepts, and all that differs is what
  they do not look at: the type may be plain RSA, and the salt and the digests any.
\<close>

lemma backends_accept:
  assumes "same_key L pkey"
  shows "validate_rsa_params_boringssl L pkey bits w = validate_rsa_params_openssl11 L pkey bits w"
    and "validate_rsa_params L pkey bits w = Ok () \<longleftrightarrow>
      validate_rsa_params_boringssl L pkey bits w = Ok () \<and> EVP_PKEY_base_id L pkey = EVP_PKEY_RSA_PSS L
      \<and> EVP_PKEY_get_saltlen_param L pkey = (1, 48)
      \<and> digest_ok L PARAM_RSA_DIGEST pkey \<and> digest_ok L PARAM_RSA_MGF1_DIGEST pkey"
proof -
  show "validate_rsa_params_boringssl L pkey bits w = validate_rsa_params_openssl11 L pkey bits w"
    using assms by (simp add: validate_rsa_params_boringssl_def validate_rsa_params_openssl11_def same_key_def)
  have one: "fst (EVP_PKEY_get_bn_param L pkey PARAM_RSA_N) = 1" "fst (EVP_PKEY_get_bn_param L pkey PARAM_RSA_E) = 1"
    and id: "EVP_PKEY_id L pkey = EVP_PKEY_base_id L pkey"
    using assms by (auto simp: same_key_def)
  show "validate_rsa_params L pkey bits w = Ok () \<longleftrightarrow>
      validate_rsa_params_boringssl L pkey bits w = Ok () \<and> EVP_PKEY_base_id L pkey = EVP_PKEY_RSA_PSS L
      \<and> EVP_PKEY_get_saltlen_param L pkey = (1, 48)
      \<and> digest_ok L PARAM_RSA_DIGEST pkey \<and> digest_ok L PARAM_RSA_MGF1_DIGEST pkey"
    using one by (auto simp: validate_rsa_params_def validate_rsa_params_boringssl_def id components_ok [OF assms]
        Let_def split: prod.splits if_splits)
qed

end
