(* ===== verification/PP_Sample_Backends.thy ===== *)
theory PP_Sample_Backends
  imports PP_Sample_Flow PP_Compat_Backends
begin

text \<open>The sample key seen through the low-level calls.\<close>

definition sample_low_level ::
  "(EVP_MD \<times> bytes, unit, unit, unit, unit, unit, nat \<times> nat \<times> nat) low_level_api" where
  "sample_low_level =
     rsa_api.extend (rsa_api.truncate sample_ossl)
       (low_level_api.fields 6 (\<lambda>key. 912) (\<lambda>key. Some (sample_n, sample_e, sample_d))
         (\<lambda>(n, e, d). (Some n, Some e, Some d)) Some Some (Some (0, 0, 0)) (\<lambda>rsa n e. (1, (n, e, 0))) (Some ())
         (\<lambda>key rsa. (1, ())) (\<lambda>rng rsa bits e. ((1, (sample_n, e, sample_d)), rng))
         (\<lambda>der algs. if der = [1] then Some () else None) (\<lambda>der algs. if der = [2] then Some () else None)
         True (\<lambda>key. Some [1]) (\<lambda>key. Some [2]) Some (\<lambda>len md ikm salt. (1, [])) (\<lambda>len md prk info. (1, [])))"

lemmas low_level_record =
  sample_low_level_def rsa_api.extend_def rsa_api.truncate_def low_level_api.fields_def

lemma sample_low_level_sel [simp]:
  "EVP_PKEY_id sample_low_level key = 912" "EVP_PKEY_base_id sample_low_level key = 912"
  "EVP_PKEY_RSA_PSS sample_low_level = 912"
  "EVP_PKEY_get0_RSA sample_low_level key = Some (sample_n, sample_e, sample_d)"
  "RSA_get0_key sample_low_level (n, e, d) = (Some n, Some e, Some d)"
  "BN_dup sample_low_level = Some"
  "EVP_PKEY_get_bn_param sample_low_level key param = (1, case param of PARAM_RSA_N \<Rightarrow> sample_n
     | PARAM_RSA_E \<Rightarrow> sample_e | PARAM_RSA_D \<Rightarrow> sample_d)"
  "EVP_PKEY_get_saltlen_param sample_low_level key = (1, 48)"
  "EVP_PKEY_get_utf8_string_param sample_low_level key digest_param = (1, ''SHA384'')"
  "BN_num_bits sample_low_level = BN_num_bits sample_ossl" "BN_is_word sample_low_level = BN_is_word sample_ossl"
  by (simp_all add: low_level_record)

lemma sample_same_key: "same_key sample_low_level key"
  by (simp add: same_key_def)

end
