(* ===== verification/PP_Client_Safety.thy ===== *)
theory PP_Client_Safety
  imports PP_Token_Provider
begin

text \<open>
  A client that gets a token got a valid one, whatever the issuer answered and whatever
  OpenSSL does: every way to an \<open>Ok\<close> goes through the verification of the signature, or of
  the proof that the issuer used its key.
\<close>

lemma finalize_verified:
  assumes "BlindRsaPublicKey_finalize L key blind_sig bd msg = (Ok sig, bd')"
  shows "BlindRsaPublicKey_verify L key msg sig = Ok True \<and> bd' = bd\<lparr>bd_inverse := []\<rparr>"
  using assms by (auto simp: BlindRsaPublicKey_finalize_def Let_def split: option.splits if_splits prod.splits)

lemma PublicClient_finalize_Ok:
  assumes "PublicClient_finalize L response fin key = Ok token"
  shows "\<exists>input. AuthenticatorInput_serialize (authenticator_input token) = Ok input
    \<and> BlindRsaPublicKey_verify L key input (tok_authenticator token) = Ok True
    \<and> authenticator_input token = \<lparr>ai_token_type = fd_token_type fin, ai_nonce = fd_nonce fin,
        ai_challenge_digest = fd_challenge_digest fin, ai_token_key_id = fd_token_key_id fin\<rparr>"
proof -
  let ?ai = "\<lparr>ai_token_type = fd_token_type fin, ai_nonce = fd_nonce fin,
      ai_challenge_digest = fd_challenge_digest fin, ai_token_key_id = fd_token_key_id fin\<rparr>"
  obtain rsa where rsa: "as_blind_rsa response = Some rsa"
    using assms by (cases "as_blind_rsa response") (auto simp: PublicClient_finalize_def Let_def try_bind_Ok_iff split: option.splits)
  obtain bd where bd: "fd_data fin = BlindingVariant bd"
    using assms by (cases "fd_data fin") (auto simp: PublicClient_finalize_def Let_def try_bind_Ok_iff rsa)
  obtain input where input: "AuthenticatorInput_serialize ?ai = Ok input"
    using assms by (auto simp: PublicClient_finalize_def Let_def try_bind_Ok_iff rsa bd)
  obtain sig where fin: "fst (BlindRsaPublicKey_finalize L key (rsa_blind_sig rsa) bd input) = Ok sig"
    and token: "token = Token_create (fd_token_type fin) (fd_nonce fin) (fd_challenge_digest fin) (fd_token_key_id fin) sig"
    using assms by (auto simp: PublicClient_finalize_def Let_def try_bind_Ok_iff rsa bd input)
  have "BlindRsaPublicKey_verify L key input sig = Ok True"
    using finalize_verified [of L key "rsa_blind_sig rsa" bd input sig] fin by (metis prod.collapse)
  then show ?thesis using input by (simp add: token Token_create_def authenticator_input_def)
qed

lemma finalize_with_rsa_Ok:
  "finalize_with_rsa L response fin keys = Some (Ok token) \<Longrightarrow>
     \<exists>key \<in> set keys. pk_type key = resp_type response \<and> pk_key_id key = fd_token_key_id fin
       \<and> (\<exists>rsa_key. BlindRsaPublicKey_from_spki L (pk_data key) = Ok rsa_key
         \<and> PublicClient_finalize L response fin rsa_key = Ok token)"
  by (induction L response fin keys rule: finalize_with_rsa.induct) (auto split: if_splits sum.splits)

lemma finalize_with_voprf_Ok:
  "finalize_with_voprf L response fin keys = Some (Ok token) \<Longrightarrow>
     \<exists>key \<in> set keys. pk_type key = resp_type response \<and> pk_key_id key = fd_token_key_id fin
       \<and> (\<exists>voprf_key. VoprfPublicKey_from_bytes L (pk_data key) = Ok voprf_key
         \<and> PrivateClient_finalize L response fin voprf_key = Ok token)"
  by (induction L response fin keys rule: finalize_with_voprf.induct) (auto split: if_splits sum.splits)

text \<open>The proof that a VOPRF client accepted, for the points it parsed.\<close>

definition evaluation_proved ::
  "('m, 'd, 'r, 'p, 'k, 'b, 't, 'z) ossl_scheme \<Rightarrow> 't VoprfPublicKey \<Rightarrow> VoprfFinalizationData
     \<Rightarrow> VoprfEvaluation \<Rightarrow> bool" where
  "evaluation_proved L key fin ev \<longleftrightarrow>
     (\<exists>Y R Z pub. VoprfPublicKey_to_bytes L key = Ok pub \<and> bytes_to_point L pub = Some Y
       \<and> bytes_to_point L (vfd_blinded_element fin) = Some R
       \<and> bytes_to_point L (ve_evaluated_element ev) = Some Z
       \<and> verify_dleq_proof L Y R Z (ve_proof ev) = Ok True)"

lemma VoprfClient_finalize_Ok:
  "VoprfClient_finalize L key fin ev = Ok out \<Longrightarrow> evaluation_proved L key fin ev"
  by (auto simp: VoprfClient_finalize_def evaluation_proved_def try_bind_Ok_iff
      split: if_splits option.splits)

lemma PrivateClient_finalize_Ok:
  assumes "PrivateClient_finalize L response fin key = Ok token"
  shows "\<exists>resp data bytes copy. as_voprf response = Some resp \<and> fd_data fin = VoprfDataVariant data
    \<and> VoprfPublicKey_to_bytes L key = Ok bytes \<and> VoprfPublicKey_from_bytes L bytes = Ok copy
    \<and> evaluation_proved L copy data
        \<lparr>ve_evaluated_element = voprf_evaluate_msg resp, ve_proof = voprf_evaluate_proof resp\<rparr>
    \<and> authenticator_input token = \<lparr>ai_token_type = fd_token_type fin, ai_nonce = fd_nonce fin,
        ai_challenge_digest = fd_challenge_digest fin, ai_token_key_id = fd_token_key_id fin\<rparr>"
  using assms
  by (auto simp: PrivateClient_finalize_def Let_def try_bind_Ok_iff Token_create_def authenticator_input_def
      dest!: VoprfClient_finalize_Ok split: option.splits FinalizationVariant.splits)

theorem provider_token_valid:
  assumes "TokenProvider_finalize L issuers provider response ctx = Ok token"
  defines "fin \<equiv> trc_finalization_data ctx"
  shows "authenticator_input token = \<lparr>ai_token_type = fd_token_type fin, ai_nonce = fd_nonce fin,
      ai_challenge_digest = fd_challenge_digest fin, ai_token_key_id = fd_token_key_id fin\<rparr>
    \<and> (\<exists>key \<in> set (listed_keys provider issuers).
      pk_type key = resp_type response \<and> pk_key_id key = tok_key_id token \<and>
      (if resp_type response = VOPRF_P384_SHA384 then
         \<exists>resp data k bytes copy. as_voprf response = Some resp \<and> fd_data fin = VoprfDataVariant data
           \<and> VoprfPublicKey_from_bytes L (pk_data key) = Ok k \<and> VoprfPublicKey_to_bytes L k = Ok bytes
           \<and> VoprfPublicKey_from_bytes L bytes = Ok copy
           \<and> evaluation_proved L copy data
               \<lparr>ve_evaluated_element = voprf_evaluate_msg resp, ve_proof = voprf_evaluate_proof resp\<rparr>
       else
         \<exists>k input. BlindRsaPublicKey_from_spki L (pk_data key) = Ok k
           \<and> AuthenticatorInput_serialize (authenticator_input token) = Ok input
           \<and> BlindRsaPublicKey_verify L k input (tok_authenticator token) = Ok True))"
proof (cases "resp_type response = BLIND_RSA \<or> resp_type response = PARTIALLY_BLIND_RSA")
  case True
  then have type: "resp_type response \<noteq> VOPRF_P384_SHA384" by auto
  have "finalize_with_rsa L response fin (listed_keys provider issuers) = Some (Ok token)"
    using assms True by (simp add: TokenProvider_finalize_def split: option.splits)
  from finalize_with_rsa_Ok [OF this] obtain key k where
    key: "key \<in> set (listed_keys provider issuers)" "pk_type key = resp_type response" "pk_key_id key = fd_token_key_id fin"
      "BlindRsaPublicKey_from_spki L (pk_data key) = Ok k"
    and ok: "PublicClient_finalize L response fin k = Ok token" by blast
  note v = PublicClient_finalize_Ok [OF ok]
  then have "tok_key_id token = fd_token_key_id fin" by (auto simp: authenticator_input_def)
  then show ?thesis using v key type by auto
next
  case False
  then have type: "resp_type response = VOPRF_P384_SHA384"
    and "finalize_with_voprf L response fin (listed_keys provider issuers) = Some (Ok token)"
    using assms by (auto simp: TokenProvider_finalize_def split: option.splits if_splits)
  from finalize_with_voprf_Ok [OF this(2)] obtain key k where
    key: "key \<in> set (listed_keys provider issuers)" "pk_type key = resp_type response" "pk_key_id key = fd_token_key_id fin"
      "VoprfPublicKey_from_bytes L (pk_data key) = Ok k"
    and ok: "PrivateClient_finalize L response fin k = Ok token" by blast
  note v = PrivateClient_finalize_Ok [OF ok]
  then have "tok_key_id token = fd_token_key_id fin" by (auto simp: authenticator_input_def)
  then show ?thesis using v key type by auto
qed

end
