(* ===== verification/PP_Blindness.thy ===== *)
theory PP_Blindness
  imports PP_Liveness
begin

text \<open>
  What an issuer learns from a request: nothing. Whatever it is sent, every message could
  have been blinded to it, each by exactly one blinding factor, so when the factor is drawn
  uniformly the request has the same distribution for every message. \<open>with_draw r L\<close> is
  OpenSSL with a generator that draws the number \<open>r\<close>.
\<close>

definition with_draw :: "nat \<Rightarrow> ('m, 'd, 'r, 'z) bn_api_scheme \<Rightarrow> ('m, 'd, 'r, 'z) bn_api_scheme" where
  "with_draw r L = L\<lparr>BN_rand_range := \<lambda>rng m. ((1, r mod m), rng)\<rparr>"

lemma with_draw_bn: "bn_documented L \<Longrightarrow> bn_documented (with_draw r L)"
  by (simp add: bn_documented_def with_draw_def)

lemma with_draw_public_key:
  "public_key_documented L H em_ok pkey n e \<Longrightarrow> public_key_documented (with_draw r L) H em_ok pkey n e"
  by (simp add: public_key_documented_def mont_documented_def padding_documented_def verify_documented_def
      with_draw_def)

lemma with_draw_encode: "do_emsa_pss_encode (with_draw r L) pkey msg = do_emsa_pss_encode L pkey msg"
  by (simp add: do_emsa_pss_encode_def sha384_def digest_once_def emsa_pss_encode_def with_draw_def
      cong: option.case_cong if_cong prod.case_cong)

subsection \<open>Blind RSA\<close>

lemma blind_factor_with_draw:
  assumes bn: "bn_documented L" and "1 < n" "r < n"
  shows "blind_factor (with_draw r L) n rng =
    (if coprime r n then Some (Ok (r, the (BN_mod_inverse L r n)), rng) else None)"
proof -
  let ?L = "with_draw r L"
  note bn' = with_draw_bn [OF bn, of r]
  have draw: "BN_rand_range ?L rng n = ((1, r), rng)" for rng using assms(3) by (simp add: with_draw_def)
  have sel: "BN_mod_inverse ?L = BN_mod_inverse L" by (simp add: with_draw_def)
  have inv: "BN_mod_inverse L r n = None \<longleftrightarrow> \<not> coprime r n"
  proof
    assume "\<not> coprime r n"
    moreover have "coprime r n" if "BN_mod_inverse L r n = Some b" for b
    proof -
      have "(r * b) mod n = 1" using bn_doc_inverse(1) [OF bn that] assms(2) by simp
      then have "coprime (r * b mod n) n" by simp
      then have "coprime (r * b) n" using assms(2) by (subst (asm) coprime_mod_left_iff) simp_all
      then show ?thesis by simp
    qed
    ultimately show "BN_mod_inverse L r n = None" by (cases "BN_mod_inverse L r n") auto
  qed (use bn_doc_inverse(2) [OF bn assms(2)] in fastforce)
  have zero: "coprime r n \<Longrightarrow> r \<noteq> 0" using assms(2) by (cases "r = 0") simp_all
  have stops: "draw_stops ?L n rng \<longleftrightarrow> coprime r n" for rng
    using zero by (auto simp: draw_stops_def draw sel inv bn_doc_tests(1) [OF bn'] simp del: not_None_eq)
  show ?thesis
  proof (cases "coprime r n")
    case True
    then show ?thesis by (subst blind_factor_unfold) (simp add: stops draw sel)
  next
    case False
    have "after_draws ?L n k rng = rng" for k by (induction k) (simp_all add: draw)
    then show ?thesis using False blind_factor_loops [of ?L n rng]
      by (cases "blind_factor ?L n rng") (simp_all add: stops)
  qed
qed

text \<open>Exactly one unit \<open>r\<close> solves \<open>m r\<^sup>e = b\<close> for units \<open>m\<close> and \<open>b\<close>.\<close>

lemma factor_exists:
  fixes n :: nat
  assumes law: "\<forall>m < n. m ^ (e * d) mod n = m" and n: "1 < n" and e: "0 < e"
    and i: "(m * i) mod n = 1" and b: "coprime b n" "b < n"
  shows "\<exists>!r. r < n \<and> coprime r n \<and> (m * r ^ e) mod n = b"
proof -
  have root: "r ^ (e * d) mod n = r mod n" for r
    using law n by (metis mod_less_divisor less_trans zero_less_one power_mod)
  show ?thesis
  proof
    let ?r = "(b * i) ^ d mod n"
    have "?r ^ e mod n = (b * i) ^ (e * d) mod n" by (simp add: power_mod mult.commute flip: power_mult)
    then have re: "?r ^ e mod n = (b * i) mod n" by (simp add: root)
    have "(m * ?r ^ e) mod n = (m * (b * i)) mod n" using re by (metis mod_mult_right_eq)
    also have "\<dots> = (b * (m * i)) mod n" by (simp only: ac_simps)
    also have "\<dots> = b" using i b n by (metis mod_mult_right_eq mult_1_right mod_less)
    finally have eq: "(m * ?r ^ e) mod n = b" .
    then have "coprime (m * ?r ^ e) n" using b(1) by (metis coprime_mod_left_iff n less_imp_neq not_less_zero)
    then have "coprime ?r n" using e by simp
    then show "?r < n \<and> coprime ?r n \<and> (m * ?r ^ e) mod n = b" using eq n by simp
  next
    fix r
    assume r: "r < n \<and> coprime r n \<and> (m * r ^ e) mod n = b"
    have "(b * i) mod n = (m * r ^ e * i) mod n" using r by (metis mod_mult_left_eq)
    also have "\<dots> = (r ^ e * (m * i)) mod n" by (simp only: ac_simps)
    also have "\<dots> = r ^ e mod n" using i by (metis mod_mult_right_eq mult_1_right)
    finally have "(b * i) ^ d mod n = (r ^ e) ^ d mod n" by (metis power_mod)
    then show "r = (b * i) ^ d mod n" using root [of r] r by (simp flip: power_mult)
  qed
qed

theorem blinding_hides_message:
  assumes bn: "bn_documented L" and evp: "evp_documented L H"
    and pub: "public_key_documented L H em_ok pkey n e" "bpk_pkey key = Some pkey"
    and law: "\<forall>m < n. m ^ (e * d) mod n = m"
    and sent: "BlindRsaPublicKey_blind L key msg rng = Some (Ok bd, rng')"
      "coprime (be_val (bd_blinded_msg bd)) n"
    and enc: "do_emsa_pss_encode L pkey msg' rng0 = Some (Ok em', rng1)" "coprime (be_val em') n"
  shows "\<exists>!r. r < n \<and> (\<exists>bd'. BlindRsaPublicKey_blind (with_draw r L) key msg' rng0 = Some (Ok bd', rng1)
    \<and> bd_blinded_msg bd' = bd_blinded_msg bd)"
proof -
  have n: "n < 256 ^ 256" "1 < n" and e: "0 < e"
    using modulus_size [OF bn] pub(1) by (simp_all add: public_key_documented_def)
  have pad: "padding_documented L em_ok pkey n" using pub(1) by (simp add: public_key_documented_def)
  note em' = do_emsa_pss_encode_Ok [OF evp pad enc(1)]
  obtain b where b: "bd_blinded_msg bd = be_bytes 256 b" "b < n"
    using blind_Ok [OF bn evp pub sent(1)] n(2) by force
  have fits: "k < 256 ^ 256" if "k < n" for k using that n(1) by linarith
  have bv: "be_val (bd_blinded_msg bd) = b" using be_val_be_bytes [OF fits [OF b(2)]] by (simp add: b(1))
  have iff: "(\<exists>bd'. BlindRsaPublicKey_blind (with_draw r L) key msg' rng0 = Some (Ok bd', rng1)
      \<and> bd_blinded_msg bd' = bd_blinded_msg bd) \<longleftrightarrow> coprime r n \<and> (be_val em' * r ^ e) mod n = b"
    if r: "r < n" for r
  proof -
    note draw = blind_factor_with_draw [OF bn n(2) r, of rng1]
    have enc': "do_emsa_pss_encode (with_draw r L) pkey msg' rng0 = Some (Ok em', rng1)"
      using enc(1) by (simp add: with_draw_encode)
    show ?thesis
    proof (cases "coprime r n")
      case True
      note v = blind_value [OF with_draw_bn [OF bn] with_draw_public_key [OF pub(1)] pub(2) enc' _ draw [unfolded if_P [OF True]]]
      have "(be_val em' * r ^ e) mod n < n" using n(2) by simp
      then show ?thesis using v em' True be_bytes_inject [OF fits fits, of _ b] b by simp
    next
      case False
      then show ?thesis
        using blind_draws [OF with_draw_bn [OF bn] with_draw_public_key [OF pub(1)] pub(2), of r msg' rng0]
          enc' draw by fastforce
    qed
  qed
  obtain i where "(be_val em' * i) mod n = 1"
    using bn_doc_inverse [OF bn] n(2) enc(2) by (metis mod_less)
  from factor_exists [OF law n(2) e this sent(2) [unfolded bv] b(2)] show ?thesis
    using iff by (auto elim!: ex1E intro!: ex1I)
qed

subsection \<open>VOPRF\<close>

lemma scalar_exists:
  fixes q :: nat
  assumes q: "1 < q" and i: "(a' * i) mod q = 1" and b: "b mod q \<noteq> 0"
  shows "\<exists>r0. 0 < r0 \<and> r0 < q \<and> (\<forall>r < q. (a' * r) mod q = b mod q \<longleftrightarrow> r = r0)"
proof (intro exI conjI allI impI)
  let ?r = "(b * i) mod q"
  have eq: "(a' * ?r) mod q = b mod q"
  proof -
    have "(a' * ?r) mod q = (a' * (b * i)) mod q" by (simp only: mod_mult_right_eq)
    also have "\<dots> = (b * (a' * i)) mod q" by (simp only: ac_simps)
    also have "\<dots> = (b * ((a' * i) mod q)) mod q" by (simp only: mod_mult_right_eq)
    finally show ?thesis by (simp add: i)
  qed
  show "0 < ?r" using eq b by (intro gr0I) simp
  show "?r < q" using q by simp
  fix r assume r: "r < q"
  show "(a' * r) mod q = b mod q \<longleftrightarrow> r = ?r"
  proof
    assume "(a' * r) mod q = b mod q"
    then have "?r = (a' * r * i) mod q" by (metis mod_mult_left_eq)
    also have "\<dots> = (r * (a' * i)) mod q" by (simp only: ac_simps)
    also have "\<dots> = (r * ((a' * i) mod q)) mod q" by (simp only: mod_mult_right_eq)
    finally show "r = ?r" using r by (simp add: i)
  qed (use eq in simp)
qed

lemma enc_inject:
  assumes doc: "ec_documented L q pt" and "a mod q \<noteq> 0" "b mod q \<noteq> 0"
  shows "enc L (pt a) = enc L (pt b) \<longleftrightarrow> a mod q = b mod q"
proof -
  have "enc L (pt a) = enc L (pt b) \<longleftrightarrow> pt a = pt b"
    using bytes_to_point_enc [OF doc assms(2)] bytes_to_point_enc [OF doc assms(3)] by (metis option.inject)
  then show ?thesis by (simp only: group_doc(7) [OF doc])
qed

lemma voprf_blind_value:
  assumes doc: "ec_documented L q pt" and h: "hash_to_curve L input = Ok (pt a)"
    and draw: "BN_rand_range L rng q = ((ok, r), rng')"
  shows "VoprfClient_blind L input rng = Some
    (if ok = 0 \<or> r = 0 then Err BLINDING_FAILED ''Failed to generate blinding scalar''
     else Ok \<lparr>vfd_blind_scalar = snd (BN_bn2binpad L r 48), vfd_blinded_element = enc L (pt (a * r)),
       vfd_input = input\<rparr>, rng')"
  by (simp add: VoprfClient_blind_def group_doc(1-3,10) [OF doc] h draw bn_doc_alloc [OF ec_doc_bn [OF doc]] drawM_def
      bn_doc_tests [OF ec_doc_bn [OF doc]] point_to_bytes_doc [OF doc] P384_SCALAR_SIZE_def)

theorem voprf_request_hides_input:
  assumes doc: "ec_documented L q pt"
    and h: "hash_to_curve L input = Ok h" "EC_POINT_is_at_infinity L h \<noteq> 1"
    and sent: "VoprfClient_blind L input rng = Some (Ok fin, rng')"
    and h': "hash_to_curve L input' = Ok h'" "EC_POINT_is_at_infinity L h' \<noteq> 1"
  shows "\<exists>r0. 0 < r0 \<and> r0 < q \<and> (\<forall>rng0 ok r rng1. BN_rand_range L rng0 q = ((ok, r), rng1) \<longrightarrow> ok \<noteq> 0 \<longrightarrow> r \<noteq> 0 \<longrightarrow>
    (\<exists>fin'. VoprfClient_blind L input' rng0 = Some (Ok fin', rng1)
      \<and> (vfd_blinded_element fin' = vfd_blinded_element fin \<longleftrightarrow> r = r0)))"
proof -
  note bn = ec_doc_bn [OF doc] and gr = group_doc [OF doc]
  obtain a a' where a: "h = pt a" "h' = pt a'"
    using hash_to_curve_pt [OF doc h(1)] hash_to_curve_pt [OF doc h'(1)] by blast
  have am: "a mod q \<noteq> 0" "a' mod q \<noteq> 0" using h(2) h'(2) enc_doc(2) [OF doc] a by simp_all
  have small: "k < q" if "BN_rand_range L rng q = ((ok, k), rng1)" for rng ok k rng1
    using bn_doc_rand [OF bn _ that] gr(4) by simp
  obtain ok s rng1 where draw: "BN_rand_range L rng q = ((ok, s), rng1)" by (metis prod.collapse)
  have s: "s \<noteq> 0" "vfd_blinded_element fin = enc L (pt (a * s))"
    using sent voprf_blind_value [OF doc h(1) [unfolded a] draw] by (auto split: if_splits)
  have b: "(a * s) mod q \<noteq> 0" using product_nonzero [OF doc am(1), of s] s(1) small [OF draw] by simp
  obtain i where "(a' * i) mod q = 1"
    using bn_doc_inverse [OF bn] gr(4) gr(6) [OF am(2)] by (metis mod_less)
  from scalar_exists [OF gr(4) this b] obtain r0
    where r0: "0 < r0" "r0 < q" "\<And>r. r < q \<Longrightarrow> (a' * r) mod q = (a * s) mod q \<longleftrightarrow> r = r0" by blast
  have "\<exists>fin'. VoprfClient_blind L input' rng0 = Some (Ok fin', rng1)
      \<and> (vfd_blinded_element fin' = vfd_blinded_element fin \<longleftrightarrow> r = r0)"
    if d: "BN_rand_range L rng0 q = ((ok, r), rng1)" and ok: "ok \<noteq> 0" "r \<noteq> 0" for rng0 ok r rng1
  proof -
    have r: "r < q" by (rule small [OF d])
    then have "(a' * r) mod q \<noteq> 0" using product_nonzero [OF doc am(2), of r] ok(2) by simp
    then show ?thesis
      using voprf_blind_value [OF doc h'(1) [unfolded a] d] ok enc_inject [OF doc _ b] r0(3) [OF r] by (simp add: s(2))
  qed
  then show ?thesis using r0 by blast
qed

end
