(* ===== verification/PP_Sample_Blindness.thy ===== *)
theory PP_Sample_Blindness
  imports PP_Sample_Flow PP_Blindness
begin

text \<open>
  Two messages whose encodings are invertible modulo the sample key, and a request for one of
  them, for the witnesses of the properties about what requests reveal.
\<close>

lemma coprime_sample_n:
  assumes "list_all (\<lambda>p. int m mod p \<noteq> 0) int_primes"
  shows "coprime m sample_n"
proof -
  have "coprime m p" if p: "p \<in> set sample_primes" for p
  proof -
    have tp: "trial_prime p" using sample_primes_prime p by (simp add: list_all_iff)
    have "m mod p \<noteq> 0"
    proof -
      have "int p \<in> set int_primes" using p int_primes_positive by (force simp: sample_primes_eq)
      then have "int m mod int p \<noteq> 0" using assms by (simp add: list_all_iff)
      then show ?thesis by (auto simp flip: of_nat_mod)
    qed
    moreover have p0: "0 < p" using tp by (simp add: trial_prime_def)
    ultimately have "coprime p (m mod p)" using tp by (intro trial_prime_coprime) simp_all
    then show ?thesis using p0 by (simp add: coprime_commute)
  qed
  then have "coprime m (prod_list ps)" if "set ps \<subseteq> set sample_primes" for ps
    using that by (induction ps) auto
  then show ?thesis by (simp add: sample_n_def)
qed

definition sample_message :: bytes where
  "sample_message = replicate 47 0 @ [5]"

lemma be_val_zeros: "be_val (replicate k 0 @ bs) = be_val bs"
  by (induction k) (simp_all add: be_val_def)

lemma sample_em_values:
  "be_val (sample_em (sample_digest EVP_sha384 [])) = 188"
  "be_val (sample_em (sample_digest EVP_sha384 sample_message)) = 1468"
proof -
  have "sample_em (sample_digest EVP_sha384 []) = replicate 255 0 @ [0xBC]"
    "sample_em (sample_digest EVP_sha384 sample_message) = replicate 254 0 @ [5, 0xBC]"
    by (simp_all add: sample_em_def sample_digest_def sample_message_def flip: replicate_add append_assoc)
  then show "be_val (sample_em (sample_digest EVP_sha384 [])) = 188"
    "be_val (sample_em (sample_digest EVP_sha384 sample_message)) = 1468"
    by (simp_all only: be_val_zeros) (simp_all add: be_val_def)
qed

lemma sample_coprime: "coprime 188 sample_n" "coprime 1468 sample_n"
proof -
  have "list_all (\<lambda>p. 188 mod p \<noteq> 0 \<and> 1468 mod p \<noteq> 0) int_primes" by code_simp
  then show "coprime 188 sample_n" "coprime 1468 sample_n"
    by (auto intro!: coprime_sample_n simp: list_all_iff)
qed

lemma sample_encodes:
  "do_emsa_pss_encode sample_ossl () msg () = Some (Ok (sample_em (sample_digest EVP_sha384 msg)), ())"
  by (simp add: do_emsa_pss_encode_def sha384_documented [OF sample_evp] emsa_pss_encode_def tryM_def liftM_def
      RSA_MODULUS_SIZE_def SALT_LENGTH_def)

lemma sample_sent:
  "\<exists>bd. BlindRsaPublicKey_blind sample_ossl sample_rsa_key [] () = Some (Ok bd, ())
     \<and> be_val (bd_blinded_msg bd) = 188"
proof -
  have n: "188 < sample_n" using sample_n_bits(1) by (rule less_le_trans [rotated]) simp
  have "draw_stops sample_ossl sample_n ()" using n by (simp add: draw_stops_def sample_inverse_def)
  then have draw: "blind_factor sample_ossl sample_n () = Some (Ok (1, the (sample_inverse 1 sample_n)), ())"
    using n by (subst blind_factor_unfold) simp
  have v: "be_val (be_bytes 256 188) = 188" by (rule be_val_be_bytes) simp
  show ?thesis
    using blind_value [OF sample_bn sample_public_key sample_rsa_pkey sample_encodes _ draw] n v
    by (simp add: sample_em_values)
qed

end
