(* ===== verification/PP_Example_Flows.thy ===== *)
theory PP_Example_Flows
  imports PP_Relay_Flow PP_Client_Safety PP_Auth_Scheme
begin

text \<open>
  The \<open>main\<close> functions of the example programs, examples/basic_flow.cpp, moq_relay.cpp,
  moq_client.cpp and moq_blind_rsa_auth.cpp, which run an issuer, a client and an origin or a
  relay against each other. A run ends with a message on the error stream and status 1, with
  status 0, or in behaviour that C++ leaves undefined: reading the value of a \<open>std::expected\<close>
  or a pointer that is not checked, when there is none. What is printed on the way is kept as
  the values of the variables at the end. The readings of the clock are arguments.
  \<open>initialize\<close> cannot fail, so the test of its result is left out.
\<close>

datatype 'o main_end = Undefined | Failed string | Completed 'o

type_synonym ('r, 'o) main = "'r \<Rightarrow> ('o main_end \<times> 'r) option"

text \<open>A result that is tested, one whose value is read untested, and a call that draws.\<close>

definition checked :: "'a result \<Rightarrow> (Error \<Rightarrow> string) \<Rightarrow> ('a \<Rightarrow> ('r, 'o) main) \<Rightarrow> ('r, 'o) main" where
  "checked result message f rng =
     (case result of Inl e \<Rightarrow> Some (Failed (message e), rng) | Inr x \<Rightarrow> f x rng)"

definition deref :: "'a result \<Rightarrow> ('a \<Rightarrow> ('r, 'o) main) \<Rightarrow> ('r, 'o) main" where
  "deref result f rng = (case result of Inl e \<Rightarrow> Some (Undefined, rng) | Inr x \<Rightarrow> f x rng)"

definition deref_pointer :: "'a option \<Rightarrow> ('a \<Rightarrow> ('r, 'o) main) \<Rightarrow> ('r, 'o) main" where
  "deref_pointer p f rng = (case p of None \<Rightarrow> Some (Undefined, rng) | Some x \<Rightarrow> f x rng)"

definition call :: "('r \<Rightarrow> ('a \<times> 'r) option) \<Rightarrow> ('a \<Rightarrow> ('r, 'o) main) \<Rightarrow> ('r, 'o) main" where
  "call m f rng = (case m rng of None \<Rightarrow> None | Some (x, rng') \<Rightarrow> f x rng')"

definition completed :: "'o \<Rightarrow> ('r, 'o) main" where
  "completed x rng = Some (Completed x, rng)"

named_theorems main_simps

lemma main_steps [main_simps]:
  "checked (Inr x) message f = f x" "deref (Inr x) f = f x" "deref_pointer (Some x) f = f x"
  "m rng = Some (y, rng') \<Longrightarrow> call m g rng = g y rng'" "completed z rng = Some (Completed z, rng)"
  by (simp_all add: fun_eq_iff checked_def deref_def deref_pointer_def call_def completed_def)

subsection \<open>examples/basic_flow.cpp\<close>

definition basic_origin_config :: OriginConfig where
  "basic_origin_config =
     \<lparr>oc_issuer_name = ''issuer.example.com'', oc_origin_names = [''origin.example.com''],
      oc_redemption_window = 3600, oc_require_redemption_context = True, oc_max_replay_cache_size = 100000\<rparr>"

record BasicOutcome =
  bo_challenge :: TokenChallenge
  bo_token :: Token
  bo_valid :: bool
  bo_redeem1 :: bool
  bo_redeem2 :: "bool result"
  bo_www_auth :: string
  bo_auth_header :: string

text \<open>The set-up: the keys of the issuer, the origin with the parsed key.\<close>

definition basic_setup ::
  "('m, 'd, 'r, 'p, 'k, 'b, 'z) rsa_api_scheme
     \<Rightarrow> ('p PublicIssuer \<Rightarrow> bytes \<Rightarrow> 'p PublicOrigin \<Rightarrow> ('r, 'o) main) \<Rightarrow> ('r, 'o) main" where
  "basic_setup L rest =
     call (PublicIssuer_generate L) (\<lambda>issuer_result.
     checked issuer_result (\<lambda>e. ''Failed to generate issuer: '' @ err_message e) (\<lambda>issuer.
     checked (PublicIssuer_public_key L issuer) (\<lambda>_. ''Failed to get public key'') (\<lambda>pub_key.
     (let spki = BlindRsaPublicKey_to_spki L pub_key;
          (key_id, pub_key) = BlindRsaPublicKey_key_id L pub_key
      in deref key_id (\<lambda>_.
         deref spki (\<lambda>spki.
         checked (BlindRsaPublicKey_from_spki L spki) (\<lambda>_. ''Failed to parse origin key'') (\<lambda>origin_key.
         rest issuer spki (PublicOrigin_new L basic_origin_config [origin_key]))))))))"

text \<open>Steps 1 to 4: a challenge, a request for it, the signature and the token.\<close>

definition basic_issuance ::
  "('m, 'd, 'r, 'p, 'k, 'b, 'z) rsa_api_scheme \<Rightarrow> 'p PublicIssuer \<Rightarrow> bytes \<Rightarrow> 'p PublicOrigin
     \<Rightarrow> (TokenChallenge \<Rightarrow> Token \<Rightarrow> ('r, 'o) main) \<Rightarrow> ('r, 'o) main" where
  "basic_issuance L issuer spki origin rest =
     call (\<lambda>rng. Some (PublicOrigin_create_challenge L origin None rng)) (\<lambda>challenge.
     checked challenge (\<lambda>e. ''Failed to create challenge: '' @ err_message e) (\<lambda>challenge.
     (case TokenChallenge_digest L challenge of (challenge_digest, challenge) \<Rightarrow>
     deref challenge_digest (\<lambda>_.
     checked (BlindRsaPublicKey_from_spki L spki) (\<lambda>_. ''Failed to parse client key'') (\<lambda>client_key.
     call (PublicClient_create_token_request L challenge client_key) (\<lambda>(request_result, challenge, client_key).
     checked request_result (\<lambda>e. ''Failed to create token request: '' @ err_message e) (\<lambda>request_result.
     checked (PublicIssuer_issue L issuer (trr_request request_result))
       (\<lambda>e. ''Failed to issue token: '' @ err_message e) (\<lambda>response.
     deref_pointer (as_blind_rsa response) (\<lambda>_.
     deref (BlindRsaPublicKey_from_spki L spki) (\<lambda>finalize_key.
     checked (PublicClient_finalize L response (trr_finalization_data request_result) finalize_key)
       (\<lambda>e. ''Failed to finalize token: '' @ err_message e) (\<lambda>token.
     rest challenge token)))))))))))"

text \<open>Steps 5 and 6, the replay and the headers.\<close>

definition basic_redemption ::
  "('m, 'd, 'r, 'p, 'k, 'b, 'z) rsa_api_scheme \<Rightarrow> nat \<Rightarrow> nat \<Rightarrow> bytes \<Rightarrow> 'p PublicOrigin
     \<Rightarrow> TokenChallenge \<Rightarrow> Token \<Rightarrow> ('r, BasicOutcome) main" where
  "basic_redemption L time1 time2 spki origin challenge token =
     (case PublicOrigin_verify L origin token challenge of (valid, challenge) \<Rightarrow>
      checked valid (\<lambda>e. ''Verification failed: '' @ err_message e) (\<lambda>valid.
      (case PublicOrigin_verify_and_redeem L time1 token challenge origin of ((redeem1, challenge), origin) \<Rightarrow>
       checked redeem1 (\<lambda>e. ''Redemption failed: '' @ err_message e) (\<lambda>redeem1.
       (case PublicOrigin_verify_and_redeem L time2 token challenge origin of ((redeem2, challenge), origin) \<Rightarrow>
        deref (build_www_authenticate challenge spki (Some 600)) (\<lambda>www_auth.
        deref (build_authorization token) (\<lambda>auth_header.
        completed \<lparr>bo_challenge = challenge, bo_token = token, bo_valid = valid, bo_redeem1 = redeem1,
          bo_redeem2 = redeem2, bo_www_auth = www_auth, bo_auth_header = auth_header\<rparr>)))))))"

definition basic_flow_main ::
  "('m, 'd, 'r, 'p, 'k, 'b, 'z) rsa_api_scheme \<Rightarrow> nat \<Rightarrow> nat \<Rightarrow> ('r, BasicOutcome) main" where
  "basic_flow_main L time1 time2 =
     basic_setup L (\<lambda>issuer spki origin.
     basic_issuance L issuer spki origin (\<lambda>challenge token.
     basic_redemption L time1 time2 spki origin challenge token))"

subsection \<open>examples/moq_relay.cpp\<close>

record RelayOutcome =
  ro_verify :: MoqVerificationResult
  ro_publish :: MoqVerificationResult
  ro_subscribe :: MoqVerificationResult
  ro_replay :: MoqVerificationResult

text \<open>Text literals of the programs, as the bytes of names.\<close>

definition relay_pub_ns :: Namespace where
  "relay_pub_ns = [str_bytes ''live'', str_bytes ''stream'']"

definition relay_video_track :: TrackName where
  "relay_video_track = str_bytes ''video''"

text \<open>Steps 1 to 4: the relay with the key of its issuer, a challenge for a publisher, a token.\<close>

definition relay_issuance ::
  "('m, 'd, 'r, 'p, 'k, 'b, 'z) rsa_api_scheme
     \<Rightarrow> ('p PublicIssuer \<Rightarrow> bytes \<Rightarrow> ('p, 't) MoqRelay \<Rightarrow> 'p BlindRsaPublicKey \<Rightarrow> TokenChallenge \<Rightarrow> Token
          \<Rightarrow> ('r, 'o) main) \<Rightarrow> ('r, 'o) main" where
  "relay_issuance L rest =
     call (PublicIssuer_generate L) (\<lambda>issuer.
     checked issuer (\<lambda>_. ''Failed to generate issuer'') (\<lambda>issuer.
     deref (PublicIssuer_public_key L issuer) (\<lambda>pub_key.
     deref (BlindRsaPublicKey_to_spki L pub_key) (\<lambda>spki.
     deref (BlindRsaPublicKey_from_spki L spki) (\<lambda>issuer_key.
     (let relay = MoqRelay_new ''relay.example.com'' ''issuer.example.com'';
          relay = MoqRelay_add_trusted_issuer L issuer_key relay;
          pub_auth = for_publisher relay_pub_ns
      in checked (MoqRelay_create_challenge relay pub_auth) (\<lambda>_. ''Failed to create challenge'') (\<lambda>challenge.
         deref (BlindRsaPublicKey_from_spki L spki) (\<lambda>client_key.
         call (PublicClient_create_token_request L challenge client_key) (\<lambda>(req_result, challenge, client_key).
         checked req_result (\<lambda>_. ''Failed to create request'') (\<lambda>req_result.
         checked (PublicIssuer_issue L issuer (trr_request req_result)) (\<lambda>_. ''Issuer failed'') (\<lambda>response.
         deref (BlindRsaPublicKey_from_spki L spki) (\<lambda>finalize_key.
         checked (PublicClient_finalize L response (trr_finalization_data req_result) finalize_key)
           (\<lambda>_. ''Failed to finalize token'') (\<lambda>token.
         rest issuer spki relay client_key challenge token)))))))))))))"

text \<open>
  Steps 5 to 7: the token is verified and used to publish; a second token, whose results are
  not tested, is used to subscribe and then once more to publish.
\<close>

definition relay_redemption ::
  "('m, 'd, 'r, 'p, 'k, 'b, 'z) rsa_api_scheme \<Rightarrow> int \<Rightarrow> int \<Rightarrow> int \<Rightarrow> 'p PublicIssuer \<Rightarrow> bytes
     \<Rightarrow> ('p, 't) MoqRelay \<Rightarrow> 'p BlindRsaPublicKey \<Rightarrow> TokenChallenge \<Rightarrow> Token \<Rightarrow> ('r, RelayOutcome) main" where
  "relay_redemption L time1 time2 time3 issuer spki relay client_key challenge token =
     (case MoqRelay_verify_token L token challenge relay of (verify_result, challenge) \<Rightarrow>
     (case MoqRelay_verify_and_authorize L time1 token challenge PUBLISH relay_pub_ns relay_video_track relay of
        ((publish_result, challenge), relay) \<Rightarrow>
     call (PublicClient_create_token_request L challenge client_key) (\<lambda>(req_result, challenge, client_key).
     deref req_result (\<lambda>req_result.
     deref (PublicIssuer_issue L issuer (trr_request req_result)) (\<lambda>response.
     deref (BlindRsaPublicKey_from_spki L spki) (\<lambda>finalize_key.
     deref (PublicClient_finalize L response (trr_finalization_data req_result) finalize_key) (\<lambda>token.
     (case MoqRelay_verify_and_authorize L time2 token challenge SUBSCRIBE relay_pub_ns relay_video_track relay of
        ((subscribe_result, challenge), relay) \<Rightarrow>
     (case MoqRelay_verify_and_authorize L time3 token challenge PUBLISH relay_pub_ns relay_video_track relay of
        ((replay_result, challenge), relay) \<Rightarrow>
     completed \<lparr>ro_verify = verify_result, ro_publish = publish_result, ro_subscribe = subscribe_result,
       ro_replay = replay_result\<rparr>)))))))))"

definition relay_main ::
  "('m, 'd, 'r, 'p, 'k, 'b, 't, 'z) ossl_scheme \<Rightarrow> int \<Rightarrow> int \<Rightarrow> int \<Rightarrow> ('r, RelayOutcome) main" where
  "relay_main L time1 time2 time3 =
     relay_issuance L (\<lambda>issuer spki (relay :: ('p, 't) MoqRelay) client_key challenge token.
     relay_redemption L time1 time2 time3 issuer spki relay client_key challenge token)"

subsection \<open>examples/moq_client.cpp\<close>

record ClientOutcome =
  co_scopes :: nat
  co_token :: Token
  co_can_subscribe :: bool
  co_can_publish :: bool

definition client_test_ns :: Namespace where
  "client_test_ns = [str_bytes ''test'', str_bytes ''stream'']"

definition client_test_track :: TrackName where
  "client_test_track = str_bytes ''video''"

definition client_main ::
  "('m, 'd, 'r, 'p, 'k, 'b, 't, 'z) ossl_scheme \<Rightarrow> string list \<Rightarrow> ('r, ClientOutcome) main" where
  "client_main L issuers =
     call (PublicIssuer_generate L) (\<lambda>issuer.
     checked issuer (\<lambda>_. ''Failed to generate issuer'') (\<lambda>issuer.
     deref (PublicIssuer_public_key L issuer) (\<lambda>pub_key.
     (let spki = BlindRsaPublicKey_to_spki L pub_key;
          (key_id, pub_key) = BlindRsaPublicKey_key_id L pub_key
      in deref spki (\<lambda>spki. deref key_id (\<lambda>key_id.
     (let issuer_pub = \<lparr>pk_type = BLIND_RSA, pk_data = spki, pk_key_id = key_id\<rparr>;
          client = MoqClient_add_issuer ''issuer.example.com'' issuer_pub MoqClient_new
      in checked (moq_client_challenge client_test_ns client_test_track)
           (\<lambda>_. ''Failed to encode auth info'') (\<lambda>challenge.
         checked (MoqClient_parse_auth_info challenge) (\<lambda>_. ''Failed to parse auth info'') (\<lambda>parsed_auth.
         call (MoqClient_prepare_request L client challenge) (\<lambda>(ctx, challenge).
         checked ctx (\<lambda>e. ''Failed to prepare request: '' @ err_message e) (\<lambda>ctx.
         checked (PublicIssuer_issue L issuer (trc_request ctx)) (\<lambda>e. ''Issuer failed: '' @ err_message e)
           (\<lambda>response.
         checked (MoqClient_finalize L issuers client response ctx)
           (\<lambda>e. ''Failed to finalize token: '' @ err_message e) (\<lambda>token.
         completed
           \<lparr>co_scopes = length (info_scopes parsed_auth), co_token = token,
            co_can_subscribe = MoqClient_token_authorizes challenge SUBSCRIBE client_test_ns client_test_track,
            co_can_publish = MoqClient_token_authorizes challenge PUBLISH client_test_ns client_test_track\<rparr>
         )))))))))))))"

subsection \<open>examples/moq_blind_rsa_auth.cpp\<close>

definition auth_relay_config :: TokenAuthenticatorConfig where
  "auth_relay_config =
     \<lparr>ac_issuer_name = ''issuer.example.com'', ac_origin_names = [''relay.example.com''],
      ac_redemption_window = 3600, ac_replay_window = 3600, ac_require_redemption_context = False,
      ac_max_replay_cache_size = 100000\<rparr>"

definition auth_stream_ns :: Namespace where
  "auth_stream_ns = [str_bytes ''conference'', str_bytes ''room123'']"

definition auth_video_track :: TrackName where "auth_video_track = str_bytes ''video''"
definition auth_audio_track :: TrackName where "auth_audio_track = str_bytes ''audio''"
definition auth_other_ns :: Namespace where "auth_other_ns = [str_bytes ''other'']"

definition auth_main_info :: AuthorizationInfo where
  "auth_main_info =
     (let auth_scope = for_any_track (for_namespace MATCH_PREFIX auth_stream_ns
                         (allow_actions [SUBSCRIBE, PUBLISH] scope_builder))
      in \<lparr>info_scopes = [auth_scope]\<rparr>)"

text \<open>The four answers of step 8, when the token is valid and the grant is read.\<close>

record AuthDecisions =
  ad_can_subscribe :: bool
  ad_publish_audio :: bool
  ad_fetch_video :: bool
  ad_subscribe_other :: bool

record AuthOutcome =
  ao_valid :: bool
  ao_decisions :: "AuthDecisions option"
  ao_replay_valid :: bool

text \<open>The set-up: the keys of the issuer and the authenticator of the relay.\<close>

definition auth_setup ::
  "('m, 'd, 'r, 'p, 'k, 'b, 'z) rsa_api_scheme
     \<Rightarrow> ('p PublicIssuer \<Rightarrow> bytes \<Rightarrow> ('p, 't) TokenAuthenticator \<Rightarrow> ('r, 'o) main) \<Rightarrow> ('r, 'o) main" where
  "auth_setup L rest =
     call (PublicIssuer_generate L) (\<lambda>issuer_result.
     checked issuer_result (\<lambda>_. ''Failed to generate issuer keys'') (\<lambda>issuer.
     deref (PublicIssuer_public_key L issuer) (\<lambda>issuer_pub.
     (let issuer_spki = BlindRsaPublicKey_to_spki L issuer_pub;
          (issuer_key_id, issuer_pub) = BlindRsaPublicKey_key_id L issuer_pub
      in deref issuer_key_id (\<lambda>_.
         deref issuer_spki (\<lambda>issuer_spki.
         deref (BlindRsaPublicKey_from_spki L issuer_spki) (\<lambda>relay_issuer_key.
         rest issuer issuer_spki
           (TokenAuthenticator_add_trusted_rsa_key L ''issuer.example.com'' relay_issuer_key
             (TokenAuthenticator_new auth_relay_config)))))))))"

text \<open>Steps 2 to 6: the challenge of the relay, the request, the signature and the token.\<close>

definition auth_issuance ::
  "('m, 'd, 'r, 'p, 'k, 'b, 'z) rsa_api_scheme \<Rightarrow> 'p PublicIssuer \<Rightarrow> bytes
     \<Rightarrow> (TokenChallenge \<Rightarrow> Token \<Rightarrow> ('r, 'o) main) \<Rightarrow> ('r, 'o) main" where
  "auth_issuance L issuer issuer_spki rest =
     checked (encode_for_origin_info auth_main_info) (\<lambda>_. ''Failed to encode authorization info'') (\<lambda>encoded_auth.
     (let challenge = TokenChallenge_create BLIND_RSA ''issuer.example.com'' None
                        [encoded_auth, ''relay.example.com''];
          (challenge_digest, challenge) = TokenChallenge_digest L challenge
      in deref challenge_digest (\<lambda>_.
         deref (BlindRsaPublicKey_from_spki L issuer_spki) (\<lambda>client_issuer_key.
         call (PublicClient_create_token_request L challenge client_issuer_key)
           (\<lambda>(request_result, challenge, client_issuer_key).
         checked request_result (\<lambda>e. ''Failed to create token request: '' @ err_message e) (\<lambda>request_result.
         checked (PublicIssuer_issue L issuer (trr_request request_result))
           (\<lambda>e. ''Issuer failed to sign: '' @ err_message e) (\<lambda>response.
         deref_pointer (as_blind_rsa response) (\<lambda>_.
         deref (BlindRsaPublicKey_from_spki L issuer_spki) (\<lambda>finalize_key.
         checked (PublicClient_finalize L response (trr_finalization_data request_result) finalize_key)
           (\<lambda>e. ''Failed to finalize token: '' @ err_message e) (\<lambda>token.
         rest challenge token))))))))))"

text \<open>Steps 7 to 9. The header of step 7 is built and not used, so its failure changes nothing.\<close>

definition auth_redemption ::
  "('m, 'd, 'r, 'p, 'k, 'b, 'z) rsa_api_scheme \<Rightarrow> int \<Rightarrow> int \<Rightarrow> ('p, 't) TokenAuthenticator
     \<Rightarrow> TokenChallenge \<Rightarrow> Token \<Rightarrow> ('r, AuthOutcome) main" where
  "auth_redemption L time1 time2 relay challenge token =
     (case TokenAuthenticator_validate_and_redeem L time1 token challenge relay of
        ((validation, challenge), relay) \<Rightarrow>
      (let decisions =
             (if vr_valid validation then
                (case decode_from_origin_info (tc_origin_info challenge ! 0) of
                   Inl e \<Rightarrow> None
                 | Inr parsed_auth \<Rightarrow>
                     Some \<lparr>ad_can_subscribe = info_authorizes parsed_auth SUBSCRIBE auth_stream_ns auth_video_track,
                           ad_publish_audio = info_authorizes parsed_auth PUBLISH auth_stream_ns auth_audio_track,
                           ad_fetch_video = info_authorizes parsed_auth FETCH auth_stream_ns auth_video_track,
                           ad_subscribe_other = info_authorizes parsed_auth SUBSCRIBE auth_other_ns auth_video_track\<rparr>)
              else None)
       in case TokenAuthenticator_validate_and_redeem L time2 token challenge relay of
            ((replay_attempt, challenge), relay) \<Rightarrow>
              completed \<lparr>ao_valid = vr_valid validation, ao_decisions = decisions,
                ao_replay_valid = vr_valid replay_attempt\<rparr>))"

definition auth_main ::
  "('m, 'd, 'r, 'p, 'k, 'b, 't, 'z) ossl_scheme \<Rightarrow> int \<Rightarrow> int \<Rightarrow> ('r, AuthOutcome) main" where
  "auth_main L time1 time2 =
     auth_setup L (\<lambda>issuer issuer_spki (relay :: ('p, 't) TokenAuthenticator).
     auth_issuance L issuer issuer_spki (\<lambda>challenge token.
     auth_redemption L time1 time2 relay challenge token))"

end
