(* ===== verification/PP_Example_Runs.thy ===== *)
theory PP_Example_Runs
  imports PP_Example_Flows
begin

text \<open>
  What the example programs do, when OpenSSL behaves as documented and none of its calls
  fails: the basic flow and the MOQT programs end with status 0 and the decisions they
  announce, and the client program ends with status 1.
\<close>

subsection \<open>The keys of the issuer\<close>

text \<open>A private key, its encoded public key and the key that the encoding parses to.\<close>

definition key_pair_documented ::
  "('m, 'd, 'r, 'p, 'k, 'b, 'z) rsa_api_scheme \<Rightarrow> (EVP_MD \<Rightarrow> bytes \<Rightarrow> bytes) \<Rightarrow> (bytes \<Rightarrow> bytes \<Rightarrow> bool)
     \<Rightarrow> 'p \<Rightarrow> bytes \<Rightarrow> 'p \<Rightarrow> nat \<Rightarrow> nat \<Rightarrow> nat \<Rightarrow> bool" where
  "key_pair_documented L H em_ok skey spki pkey n e d \<longleftrightarrow>
     marshal_public_key L skey = Ok spki \<and> marshal_public_key L pkey = Ok spki \<and>
     spki \<noteq> [] \<and> length spki \<le> INT_MAX \<and> parse_public_key_spki L spki = Some pkey \<and>
     validate_rsa_params L pkey RSA_BITS RSA_PUBLIC_EXPONENT = Ok () \<and>
     public_key_documented L H em_ok pkey n e \<and> private_key_documented L skey n e d \<and>
     generator_works L pkey n"

text \<open>Key generation succeeds, whatever the state of the generator, with some key pair.\<close>

definition keygen_documented ::
  "('m, 'd, 'r, 'p, 'k, 'b, 'z) rsa_api_scheme \<Rightarrow> (EVP_MD \<Rightarrow> bytes \<Rightarrow> bytes) \<Rightarrow> (bytes \<Rightarrow> bytes \<Rightarrow> bool) \<Rightarrow> bool" where
  "keygen_documented L H em_ok \<longleftrightarrow>
     (\<forall>rng. \<exists>skey rng' spki pkey n e d.
        generate_rsa_pss_keypair L RSA_BITS SALT_LENGTH rng = (Some skey, rng') \<and>
        key_pair_documented L H em_ok skey spki pkey n e d)"

text \<open>An issuer whose key pair has the public key \<open>pkey\<close> with the id \<open>kid\<close>.\<close>

definition issues_for ::
  "('m, 'd, 'r, 'p, 'k, 'b, 'z) rsa_api_scheme \<Rightarrow> (EVP_MD \<Rightarrow> bytes \<Rightarrow> bytes) \<Rightarrow> (bytes \<Rightarrow> bytes \<Rightarrow> bool)
     \<Rightarrow> 'p PublicIssuer \<Rightarrow> 'p \<Rightarrow> TokenKeyId \<Rightarrow> bool" where
  "issues_for L H em_ok issuer pkey kid \<longleftrightarrow> length kid = 32 \<and> pi_truncated_key_id issuer = kid ! 31 \<and>
     (\<exists>skey n e d. bsk_pkey (pi_private_key issuer) = Some skey \<and> public_key_documented L H em_ok pkey n e
        \<and> private_key_documented L skey n e d \<and> generator_works L pkey n)"

lemma generated_issuer:
  assumes evp: "evp_documented L H" and gen: "keygen_documented L H em_ok"
  shows "\<exists>issuer rng' key spki pkey kid.
    PublicIssuer_generate L rng = Some (Ok issuer, rng') \<and> PublicIssuer_public_key L issuer = Ok key
    \<and> BlindRsaPublicKey_to_spki L key = Ok spki \<and> BlindRsaPublicKey_from_spki L spki = Ok key
    \<and> bpk_pkey key = Some pkey
    \<and> BlindRsaPublicKey_key_id L key = (Ok kid, key\<lparr>bpk_cached_key_id := kid, bpk_key_id_computed := True\<rparr>)
    \<and> issues_for L H em_ok issuer pkey kid"
proof -
  obtain skey rng' spki pkey n e d where k: "generate_rsa_pss_keypair L RSA_BITS SALT_LENGTH rng = (Some skey, rng')"
    "key_pair_documented L H em_ok skey spki pkey n e d"
    using gen unfolding keygen_documented_def by blast
  let ?key = "BlindRsaPublicKey_new\<lparr>bpk_pkey := Some pkey, bpk_original_spki := spki\<rparr>"
  let ?kid = "H EVP_sha256 spki"
  have parse: "BlindRsaPublicKey_from_spki L spki = Ok ?key"
    using k(2) by (simp add: BlindRsaPublicKey_from_spki_def key_pair_documented_def)
  have pub: "BlindRsaPrivateKey_public_key L \<lparr>bsk_pkey = Some skey\<rparr> = Ok ?key"
    using k(2) parse by (simp add: BlindRsaPrivateKey_public_key_def key_pair_documented_def)
  have id: "BlindRsaPublicKey_key_id L ?key = (Ok ?kid, ?key\<lparr>bpk_cached_key_id := ?kid, bpk_key_id_computed := True\<rparr>)"
    using k(2) by (simp add: BlindRsaPublicKey_key_id_def BlindRsaPublicKey_new_def key_pair_documented_def
        sha256_documented [OF evp])
  let ?issuer = "PublicIssuer_new L \<lparr>bsk_pkey = Some skey\<rparr>"
  have i: "pi_private_key ?issuer = \<lparr>bsk_pkey = Some skey\<rparr>" "pi_truncated_key_id ?issuer = ?kid ! 31"
    by (simp_all add: PublicIssuer_new_def pub id)
  have "PublicIssuer_generate L rng = Some (Ok ?issuer, rng')"
    by (simp add: PublicIssuer_generate_def tryM_def BlindRsaPrivateKey_generate_def drawM_def k(1) pub liftM_def)
  moreover have "PublicIssuer_public_key L ?issuer = Ok ?key" by (simp add: PublicIssuer_public_key_def i pub)
  moreover have "BlindRsaPublicKey_to_spki L ?key = Ok spki"
    using k(2) by (simp add: BlindRsaPublicKey_to_spki_def key_pair_documented_def)
  moreover have "issues_for L H em_ok ?issuer pkey ?kid"
    using k(2) documented_len [OF evp, of EVP_sha256 spki] i
    by (auto simp: issues_for_def key_pair_documented_def)
  ultimately show ?thesis using parse id by fastforce
qed

subsection \<open>The exchange\<close>

lemma token_exchange:
  assumes bn: "bn_documented L" and evp: "evp_documented L H"
    and iss: "issues_for L H em_ok issuer pkey kid"
    and key: "BlindRsaPublicKey_key_id L key = (Ok kid, key')" "bpk_pkey key = Some pkey"
    and fin: "bpk_pkey fkey = Some pkey"
    and c: "tc_type c = BLIND_RSA" "TokenChallenge_digest L c = (Ok dg, c')" "length dg = 32"
  shows "\<exists>res rng' resp rsa token.
    PublicClient_create_token_request L c key rng = Some ((Ok res, c', key'), rng')
    \<and> PublicIssuer_issue L issuer (trr_request res) = Ok resp \<and> as_blind_rsa resp = Some rsa
    \<and> PublicClient_finalize L resp (trr_finalization_data res) fkey = Ok token
    \<and> tok_type token = BLIND_RSA \<and> token_wf token
    \<and> (\<forall>origin okey. trusted origin kid = Some okey \<longrightarrow> bpk_pkey okey = Some pkey \<longrightarrow>
         fst (PublicOrigin_verify L origin token c) = Ok True)"
proof -
  obtain skey n e d where priv: "private_key_documented L skey n e d" "bsk_pkey (pi_private_key issuer) = Some skey"
    and pub: "public_key_documented L H em_ok pkey n e" and works: "generator_works L pkey n"
    and id: "pi_truncated_key_id issuer = kid ! 31" "length kid = 32"
    using iss unfolding issues_for_def by blast
  obtain res rng' where create: "PublicClient_create_token_request L c key rng = Some ((Ok res, c', key'), rng')"
    and nonce: "length (fd_nonce (trr_finalization_data res)) = 32"
    using PublicClient_create_total [OF bn evp pub key(2) works c(2) key(1)] by blast
  have kid: "fst (BlindRsaPublicKey_key_id L key) = Ok kid" by (simp add: key(1))
  note complete = public_token_complete [OF bn evp pub key(2) priv disjI1 [OF c(1)] kid id(1) create]
  let ?some = "PublicOrigin_empty undefined\<lparr>po_issuer_keys := [key], po_key_index_by_full_id := [kid \<mapsto> 0]\<rparr>"
  have "trusted ?some kid = Some key" by (simp add: trusted_def PublicOrigin_empty_def)
  from complete [OF this key(2)] obtain resp token where issue: "PublicIssuer_issue L issuer (trr_request res) = Ok resp"
    and final: "PublicClient_finalize L resp (trr_finalization_data res) key' = Ok token"
    and type: "tok_type token = tc_type c" and ok: "fst (PublicOrigin_verify L ?some token c) = Ok True" by blast
  have same: "bpk_pkey key' = bpk_pkey fkey" using key_id_keeps_pkey [OF key(1)] key(2) fin by simp
  have final': "PublicClient_finalize L resp (trr_finalization_data res) fkey = Ok token"
    using final PublicClient_finalize_pkey [OF same] by metis
  have all: "fst (PublicOrigin_verify L origin token c) = Ok True"
    if "trusted origin kid = Some okey" "bpk_pkey okey = Some pkey" for origin okey
    using complete [OF that] issue final by auto
  have parts: "fd_challenge_digest (trr_finalization_data res) = dg" "fd_token_key_id (trr_finalization_data res) = kid"
    using PublicClient_create_Ok [OF create] c(2) key(1) by auto
  have "token_wf token"
    using PublicClient_finalize_Ok [OF final] ok nonce parts c(3) id(2)
    by (auto simp: token_wf_def token_arrays_def is_array_def authenticator_input_def PublicOrigin_accepts_iff)
  moreover obtain rsa where "as_blind_rsa resp = Some rsa"
    using final by (cases "as_blind_rsa resp") (auto simp: PublicClient_finalize_def)
  moreover have "tok_type token = BLIND_RSA" using type c(1) by simp
  ultimately show ?thesis using create issue final' all by blast
qed

lemma single_key_trusted:
  assumes "BlindRsaPublicKey_key_id L key = (Ok kid, key')"
  shows "trusted (PublicOrigin_new L config [key]) kid = Some key'"
  by (simp add: PublicOrigin_new_ops run_key_ops_trusted [OF keys_ok_empty] assms)

text \<open>One run of the exchange, from the challenge that the client is handed to a token that is accepted.\<close>

definition exchange_run ::
  "('m, 'd, 'r, 'p, 'k, 'b, 'z) rsa_api_scheme \<Rightarrow> 'p PublicIssuer \<Rightarrow> 'p BlindRsaPublicKey \<Rightarrow> 'p BlindRsaPublicKey
     \<Rightarrow> TokenChallenge \<Rightarrow> TokenChallenge \<Rightarrow> 'r \<Rightarrow> TokenRequestResult \<Rightarrow> 'r \<Rightarrow> TokenResponse
     \<Rightarrow> BlindRsaTokenResponse \<Rightarrow> Token \<Rightarrow> bool" where
  "exchange_run L issuer key key' c start rng res rng' resp rsa token \<longleftrightarrow>
     PublicClient_create_token_request L start key rng = Some ((Ok res, c, key'), rng') \<and>
     PublicIssuer_issue L issuer (trr_request res) = Ok resp \<and> as_blind_rsa resp = Some rsa \<and>
     PublicClient_finalize L resp (trr_finalization_data res) key = Ok token \<and>
     tok_type token = BLIND_RSA \<and> token_wf token \<and>
     (\<forall>config. fst (PublicOrigin_verify L (PublicOrigin_new L config [key]) token c) = Ok True)"

text \<open>
  The exchange for a new challenge: the client may be handed the challenge as it is or with its
  digest cached, and every origin that trusts the key accepts the token.
\<close>

lemma main_exchange:
  assumes bn: "bn_documented L" and evp: "evp_documented L H"
    and iss: "issues_for L H em_ok issuer pkey kid"
    and key: "BlindRsaPublicKey_key_id L key = (Ok kid, key')" "bpk_pkey key = Some pkey"
    and c0: "challenge_fits c0" "tc_cached_digest c0 = None" "tc_type c0 = BLIND_RSA"
  obtains dg c where "c = c0\<lparr>tc_cached_digest := Some dg\<rparr>" "length dg = 32"
    "TokenChallenge_digest L c0 = (Ok dg, c)" "TokenChallenge_digest L c = (Ok dg, c)"
    "\<And>start rng. start = c0 \<or> start = c \<Longrightarrow>
       \<exists>res rng' resp rsa token. exchange_run L issuer key key' c start rng res rng' resp rsa token"
proof -
  define dg where "dg = H EVP_sha256 (challenge_bytes c0)"
  define c where "c = c0\<lparr>tc_cached_digest := Some dg\<rparr>"
  have d: "TokenChallenge_digest L c0 = (Ok dg, c)"
    unfolding c_def dg_def by (rule TokenChallenge_digest_documented [OF evp c0(1,2)])
  note d' = digest_cached_again [OF d]
  have len: "length dg = 32" using documented_len [OF evp, of EVP_sha256] by (simp add: dg_def)
  have pkey': "bpk_pkey key' = Some pkey" using key_id_keeps_pkey [OF key(1)] key(2) by simp
  have "\<exists>res rng' resp rsa token. exchange_run L issuer key key' c start rng res rng' resp rsa token"
    if "start = c0 \<or> start = c" for start rng
  proof -
    have s: "tc_type start = BLIND_RSA" "TokenChallenge_digest L start = (Ok dg, c)"
      using that c0(3) d d' by (auto simp: c_def)
    have "fst (PublicOrigin_verify L o' token start) = Ok True \<longleftrightarrow> fst (PublicOrigin_verify L o' token c) = Ok True" for o' token
      by (simp only: PublicOrigin_accepts_iff s(2) d')
    then show ?thesis unfolding exchange_run_def
      using token_exchange [OF bn evp iss key key(2) s len, of rng] single_key_trusted [OF key(1)] pkey' by blast
  qed
  then show thesis by (rule that [OF c_def len d d'])
qed

lemma build_authorization_parses:
  assumes "token_wf token"
  shows "\<exists>header. build_authorization token = Ok header \<and> parse_authorization header = Ok token"
  using authorization_round_trip [OF assms] by (auto simp: try_bind_Ok_iff)

subsection \<open>The basic flow\<close>

lemma origin_challenge_drawn:
  assumes "issues_for L H em_ok issuer pkey kid" "oc_require_redemption_context config"
  shows "\<exists>ctx rng'. origin_challenge L config type None rng =
      (Ok (TokenChallenge_create type (oc_issuer_name config) (Some ctx) (oc_origin_names config)), rng')
    \<and> is_array 32 ctx"
proof -
  have "fst (fst (RAND_bytes L rng 32)) = 1" "length (snd (fst (RAND_bytes L rng 32))) = 32"
    using assms(1) by (auto simp: issues_for_def generator_works_def)
  then show ?thesis using assms(2)
    by (cases "RAND_bytes L rng 32")
      (auto simp: origin_challenge_def challenge_context_def random_bytes_def INT_MAX_def is_array_def)
qed

lemma PublicOrigin_verify_challenge:
  "TokenChallenge_digest L c = (Ok dg, c) \<Longrightarrow> snd (PublicOrigin_verify L origin token c) = c"
  by (simp add: PublicOrigin_verify_def split: sum.splits)

lemma basic_redemption_runs:
  assumes digest: "TokenChallenge_digest L c = (Ok dg, c)" and wf: "challenge_wf c" "token_wf token"
    and ok: "fst (PublicOrigin_verify L (PublicOrigin_new L basic_origin_config keys) token c) = Ok True"
    and time: "current_tick time1 \<le> current_tick time2"
      "\<not> rc_expired 3600 (current_tick time1) (current_tick time2)"
  shows "\<exists>out. basic_redemption L time1 time2 spki (PublicOrigin_new L basic_origin_config keys) c token rng
      = Some (Completed out, rng)
    \<and> bo_challenge out = c \<and> bo_token out = token \<and> bo_valid out \<and> bo_redeem1 out \<and> replayed (bo_redeem2 out)
    \<and> parse_authorization (bo_auth_header out) = Ok token
    \<and> (\<exists>h. ChallengeHeader_parse (bo_www_auth out) = Ok h \<and> decode_challenge h = Ok (c\<lparr>tc_cached_digest := None\<rparr>)
         \<and> decode_token_key h = Ok spki \<and> ch_max_age h = Some 600)"
proof -
  let ?o = "PublicOrigin_new L basic_origin_config keys"
  let ?c1 = "\<lparr>rd_elapsed = time1, rd_token = token, rd_challenge = c\<rparr>"
  let ?c2 = "\<lparr>rd_elapsed = time2, rd_token = token, rd_challenge = c\<rparr>"
  have cache: "po_replay_cache ?o = ReplayCache_new 3600 100000"
    by (simp add: PublicOrigin_new_ops run_key_ops_cache PublicOrigin_empty_def basic_origin_config_def)
  have inv: "rc_inv 3600 100000 0 (po_replay_cache ?o)" using rc_inv_new [of 3600 100000 0] by (simp add: cache)
  have fresh: "fst (check_and_add_at (current_tick time1) (tok_nonce token) (po_replay_cache ?o))"
    by (rule replay.add_accepts [OF inv]) (simp_all add: cache rc_recorded_def ReplayCache_new_def)
  have first: "fst (public_redeem L ?c1 ?o) = Ok True"
    using fresh ok by (auto simp: public_redeem_eq call_tick_def call_nonce_def split: prod.splits)
  then have acc: "\<not> replayed (fst (public_redeem L ?c1 ?o))" by (simp add: replayed_def)
  have second: "replayed (fst (public_redeem L ?c2 (snd (public_redeem L ?c1 ?o))))"
    using public_redeemer.redeemed_twice [OF inv _ acc, of ?c2] time
    by (simp add: call_tick_def call_nonce_def cache rc_size_def ReplayCache_new_def)
  have snd_c: "snd (fst (PublicOrigin_verify_and_redeem L t token c origin)) = c" for t origin
    using PublicOrigin_verify_challenge [OF digest]
    by (simp add: PublicOrigin_verify_and_redeem_def Let_def split: prod.splits)
  obtain o1 where r1: "PublicOrigin_verify_and_redeem L time1 token c ?o = ((Ok True, c), o1)"
    "snd (public_redeem L ?c1 ?o) = o1"
    using first snd_c [of time1 ?o] by (auto simp: public_redeem_def split: prod.splits)
  obtain r2 o2 where r2: "PublicOrigin_verify_and_redeem L time2 token c o1 = ((r2, c), o2)" "replayed r2"
    using second [unfolded r1(2)] snd_c [of time2 o1] by (auto simp: public_redeem_def split: prod.splits)
  have v: "PublicOrigin_verify L ?o token c = (Ok True, c)"
    using ok PublicOrigin_verify_challenge [OF digest] by (metis prod.collapse)
  obtain auth where auth: "build_authorization token = Ok auth" "parse_authorization auth = Ok token"
    using build_authorization_parses [OF wf(2)] by blast
  have "challenge_wf (c\<lparr>tc_cached_digest := None\<rparr>)" using wf(1) by (simp add: challenge_wf_def challenge_fits_def)
  then obtain www h where www: "build_www_authenticate (c\<lparr>tc_cached_digest := None\<rparr>) spki (Some 600) = Ok www"
    "ChallengeHeader_parse www = Ok h" "decode_challenge h = Ok (c\<lparr>tc_cached_digest := None\<rparr>)"
    "decode_token_key h = Ok spki" "ch_max_age h = Some 600"
    using www_authenticate_round_trip [of "c\<lparr>tc_cached_digest := None\<rparr>" spki "Some 600"] by auto
  have same: "TokenChallenge_serialize c = TokenChallenge_serialize (c\<lparr>tc_cached_digest := None\<rparr>)"
    using wf(1) by (simp add: TokenChallenge_serialize_eq challenge_wf_def challenge_fits_def challenge_bytes_def)
  have "build_www_authenticate c spki (Some 600) = Ok www"
    using www(1) same by (simp add: build_www_authenticate_def)
  then show ?thesis using r2(2) auth(2) www(2-5)
    by (simp add: basic_redemption_def v r1(1) r2(1) auth(1) main_simps)
qed

theorem basic_flow_runs:
  assumes bn: "bn_documented L" and evp: "evp_documented L H" and gen: "keygen_documented L H em_ok"
    and time: "current_tick time1 \<le> current_tick time2"
      "\<not> rc_expired 3600 (current_tick time1) (current_tick time2)"
  shows "\<exists>out rng'. basic_flow_main L time1 time2 rng = Some (Completed out, rng')
    \<and> bo_valid out \<and> bo_redeem1 out \<and> replayed (bo_redeem2 out)
    \<and> parse_authorization (bo_auth_header out) = Ok (bo_token out)
    \<and> (\<exists>h. ChallengeHeader_parse (bo_www_auth out) = Ok h
         \<and> decode_challenge h = Ok ((bo_challenge out)\<lparr>tc_cached_digest := None\<rparr>) \<and> ch_max_age h = Some 600)"
proof -
  obtain issuer rng1 key spki pkey kid where gen1: "PublicIssuer_generate L rng = Some (Ok issuer, rng1)"
    and key: "PublicIssuer_public_key L issuer = Ok key" "BlindRsaPublicKey_to_spki L key = Ok spki"
      "BlindRsaPublicKey_from_spki L spki = Ok key" "bpk_pkey key = Some pkey"
    and id: "BlindRsaPublicKey_key_id L key = (Ok kid, key\<lparr>bpk_cached_key_id := kid, bpk_key_id_computed := True\<rparr>)"
      (is "_ = (_, ?key')")
    and iss: "issues_for L H em_ok issuer pkey kid"
    using generated_issuer [OF evp gen, of rng] by blast
  let ?o = "PublicOrigin_new L basic_origin_config [key]"
  have config: "po_config ?o = basic_origin_config"
    by (simp add: PublicOrigin_new_def PublicOrigin_add_issuer_key_def id Let_def)
  obtain ctx rng2 where ch: "PublicOrigin_create_challenge L ?o None rng1 = (Ok (TokenChallenge_create BLIND_RSA
      ''issuer.example.com'' (Some ctx) [''origin.example.com'']), rng2)" (is "_ = (Ok ?c, _)") and ctx: "is_array 32 ctx"
    using origin_challenge_drawn [OF iss, of basic_origin_config BLIND_RSA rng1]
    by (auto simp: PublicOrigin_create_challenge_def config) (auto simp: basic_origin_config_def)
  have wf: "challenge_wf ?c" using ctx
    by (simp add: challenge_wf_def challenge_fits_def TokenChallenge_create_def origin_ok_def MAX_ORIGIN_ENTRIES_def)
  have c0: "challenge_fits ?c" "tc_cached_digest ?c = None" "tc_type ?c = BLIND_RSA"
    using wf by (simp_all add: challenge_wf_def TokenChallenge_create_def)
  obtain dg c where c: "c = ?c\<lparr>tc_cached_digest := Some dg\<rparr>" and digest: "TokenChallenge_digest L ?c = (Ok dg, c)"
    and again: "TokenChallenge_digest L c = (Ok dg, c)"
    and ex: "\<And>start rng. start = ?c \<or> start = c \<Longrightarrow>
       \<exists>res rng' resp rsa token. exchange_run L issuer key ?key' c start rng res rng' resp rsa token"
    by (rule main_exchange [OF bn evp iss id key(4) c0]) (rule that; assumption)
  obtain res rng3 resp rsa token where run: "exchange_run L issuer key ?key' c c rng2 res rng3 resp rsa token"
    using ex [of c rng2] by blast
  then have token: "token_wf token" "fst (PublicOrigin_verify L ?o token c) = Ok True" by (simp_all add: exchange_run_def)
  have wf_c: "challenge_wf c" using wf by (simp add: c challenge_wf_def challenge_fits_def)
  from basic_redemption_runs [OF again wf_c token time, of spki rng3]
  obtain out where out: "basic_redemption L time1 time2 spki ?o c token rng3 = Some (Completed out, rng3)"
    and facts: "bo_challenge out = c" "bo_token out = token" "bo_valid out \<and> bo_redeem1 out \<and> replayed (bo_redeem2 out)
      \<and> parse_authorization (bo_auth_header out) = Ok token
      \<and> (\<exists>h. ChallengeHeader_parse (bo_www_auth out) = Ok h
           \<and> decode_challenge h = Ok (c\<lparr>tc_cached_digest := None\<rparr>) \<and> ch_max_age h = Some 600)" by blast
  have "basic_flow_main L time1 time2 rng = Some (Completed out, rng3)"
    by (simp add: basic_flow_main_def basic_setup_def basic_issuance_def gen1 key id ch digest out Let_def
        run [unfolded exchange_run_def] main_simps del: BLIND_RSA_def)
  then show ?thesis using facts by fastforce
qed

subsection \<open>The relay\<close>

lemma PublicOrigin_verify_same:
  "TokenChallenge_digest L c = (Ok dg, c) \<Longrightarrow> snd (Origin_verify L origin token c) = c"
  using PublicOrigin_verify_challenge [of L c dg] by (auto simp: Origin_verify_def split: option.splits)

lemma check_token_challenge:
  assumes "TokenChallenge_digest L c = (Ok dg, c)"
  shows "snd (check_token L origin token c) = c"
proof -
  have "c' = c" if "Origin_verify L origin token c = (r, c')" for r c'
    using PublicOrigin_verify_same [OF assms, of origin token] by (simp add: that)
  then show ?thesis by (auto simp: check_token_def assms split: sum.splits prod.splits)
qed

lemma redeem_challenge:
  assumes "TokenChallenge_digest L c = (Ok dg, c)"
  shows "snd (fst (TokenAuthenticator_validate_and_redeem L now token c auth)) = c"
  using check_token_challenge [OF assms, of "ta_origin auth" token]
  by (auto simp: TokenAuthenticator_validate_and_redeem_def split: prod.splits)

lemma relay_challenge_kept:
  assumes "TokenChallenge_digest L c = (Ok dg, c)"
  shows "snd (MoqRelay_verify_token L token c relay) = c"
    and "snd (fst (MoqRelay_verify_and_authorize L now token c action ns track relay)) = c"
proof -
  show "snd (MoqRelay_verify_token L token c relay) = c"
    using check_token_challenge [OF assms, of "ta_origin (mr_authenticator relay)" token]
    by (auto simp: MoqRelay_verify_token_def TokenAuthenticator_validate_def split: prod.splits)
  show "snd (fst (MoqRelay_verify_and_authorize L now token c action ns track relay)) = c"
    using redeem_challenge [OF assms, of now token "mr_authenticator relay"]
    by (auto simp: MoqRelay_verify_and_authorize_def split: prod.splits)
qed

text \<open>After any request the nonce of a token that verifies is redeemed, and then it is a replay.\<close>

lemma redeemed_after_use:
  assumes "fst (Origin_verify L (ta_origin (mr_authenticator relay)) token c) = Ok True"
  shows "tok_nonce token \<in> ta_redeemed_nonces
    (mr_authenticator (snd (MoqRelay_verify_and_authorize L now token c action ns track relay)))"
  using assms by (auto simp: relay_state relay_spends_def check_and_add_nonce_def Let_def split: prod.splits)

lemma redeemed_refused:
  assumes "tok_nonce token \<in> ta_redeemed_nonces (mr_authenticator relay)"
  shows "MoqRelay_verify_and_authorize L now token c action ns track relay =
    ((MoqVerificationResult_failure MOQ_TOKEN_REPLAYED ''Token has already been redeemed'', c), relay)"
  using assms
  by (simp add: MoqRelay_verify_and_authorize_def TokenAuthenticator_validate_and_redeem_def ValidationResult_failure_def
      validation_message_def)

lemma unauthorized_refused:
  assumes "granted c = Some i" "\<not> info_authorizes i action ns track"
  shows "\<not> mv_valid (fst (fst (MoqRelay_verify_and_authorize L now token c action ns track relay)))"
proof -
  have info: "tc_origin_info c' = tc_origin_info c"
    if "TokenAuthenticator_validate_and_redeem L now token c auth = ((r, c'), auth')" for r c' auth auth'
    using check_token_origin_info [of L "ta_origin auth" token c] that
    by (auto simp: TokenAuthenticator_validate_and_redeem_def split: prod.splits if_splits)
  show ?thesis using assms
    by (auto simp: MoqRelay_verify_and_authorize_def granted_def Let_def dest!: info
        split: prod.splits list.splits sum.splits)
qed

lemma authenticator_single_key:
  assumes "BlindRsaPublicKey_to_spki L key = Ok spki" "BlindRsaPublicKey_from_spki L spki = Ok key"
  shows "or_public_origin (ta_origin (TokenAuthenticator_add_trusted_rsa_key L name key (TokenAuthenticator_new config)))
      = Some (PublicOrigin_new L (authenticator_origin_config config) [key])"
    and "ta_redeemed_nonces (TokenAuthenticator_add_trusted_rsa_key L name key (TokenAuthenticator_new config)) = {}"
  using assms
  by (simp_all add: TokenAuthenticator_add_trusted_rsa_key_def TokenAuthenticator_new_def Origin_add_blind_rsa_key_def
      copy_rsa_key_def Origin_new_def)

lemma verify_token_valid:
  assumes "fst (Origin_verify L (ta_origin (mr_authenticator relay)) token c) = Ok True" "granted c = Some i"
  shows "fst (MoqRelay_verify_token L token c relay) = MoqVerificationResult_success i"
proof -
  obtain r c' where ck: "check_token L (ta_origin (mr_authenticator relay)) token c = (r, c')" by (metis prod.collapse)
  have "vr_valid r" "tc_origin_info c' = tc_origin_info c"
    using check_token_valid_iff [of L "ta_origin (mr_authenticator relay)" token c] assms(1)
      check_token_origin_info [of L "ta_origin (mr_authenticator relay)" token c] by (simp_all add: ck)
  then show ?thesis using assms(2)
    by (auto simp: MoqRelay_verify_token_def TokenAuthenticator_validate_def ck granted_def
        split: list.splits sum.splits)
qed

definition example_relay :: "('m, 'd, 'r, 'p, 'k, 'b, 'z) rsa_api_scheme \<Rightarrow> 'p BlindRsaPublicKey \<Rightarrow> ('p, 't) MoqRelay" where
  "example_relay L key = MoqRelay_add_trusted_issuer L key (MoqRelay_new ''relay.example.com'' ''issuer.example.com'')"

lemma publisher_grant_wf: "info_wf (for_publisher relay_pub_ns)"
  by (simp add: preset_defs relay_pub_ns_def info_wf_def scope_wf_def namespace_match_wf_def track_match_wf_def
      elem_ok_def scope_bytes_def namespace_match_bytes_def track_match_bytes_def elem_bytes_def str_bytes_def)

lemma example_relay_challenge:
  "\<exists>c. MoqRelay_create_challenge (example_relay L key :: ('p, 't) MoqRelay) (for_publisher relay_pub_ns) = Ok c \<and> challenge_fits c"
proof -
  have "ta_config (mr_authenticator (example_relay L key :: ('p, 't) MoqRelay)) =
      \<lparr>ac_issuer_name = ''issuer.example.com'', ac_origin_names = [''relay.example.com''], ac_redemption_window = 3600,
       ac_replay_window = 3600, ac_require_redemption_context = False, ac_max_replay_cache_size = 100000\<rparr>"
    by (auto simp: example_relay_def MoqRelay_new_def MoqRelay_add_trusted_issuer_def
        TokenAuthenticator_add_trusted_rsa_key_def TokenAuthenticator_new_def Let_def split: sum.splits)
  then show ?thesis
    by (simp add: relay_challenge challenge_fits_def TokenChallenge_create_def length_b64_encode preset_defs
        info_bytes_def framed_scope_def scope_bytes_def namespace_match_bytes_def track_match_bytes_def
        elem_bytes_def relay_pub_ns_def str_bytes_def)
qed

lemma relay_redemption_runs:
  assumes bn: "bn_documented L" and evp: "evp_documented L H"
    and iss: "issues_for L H em_ok issuer pkey kid"
    and key: "BlindRsaPublicKey_from_spki L spki = Ok key" "bpk_pkey key = Some pkey"
      "BlindRsaPublicKey_key_id L ckey = (Ok kid, ckey)" "bpk_pkey ckey = Some pkey"
    and inv: "cache_inv w m t (mr_authenticator relay)" and new: "ta_redeemed_nonces (mr_authenticator relay) = {}"
    and origin: "or_public_origin (ta_origin (mr_authenticator relay)) = Some po" "trusted po kid = Some okey"
      "bpk_pkey okey = Some pkey"
    and c: "tc_type c = BLIND_RSA" "TokenChallenge_digest L c = (Ok dg, c)" "length dg = 32"
      "granted c = Some (for_publisher relay_pub_ns)"
    and token: "tok_type token = BLIND_RSA" "fst (PublicOrigin_verify L po token c) = Ok True"
  shows "\<exists>out rng'. relay_redemption L time1 time2 time3 issuer spki relay ckey c token rng = Some (Completed out, rng')
    \<and> ro_verify out = MoqVerificationResult_success (for_publisher relay_pub_ns) \<and> mv_valid (ro_publish out)
    \<and> \<not> mv_valid (ro_subscribe out)
    \<and> ro_replay out = MoqVerificationResult_failure MOQ_TOKEN_REPLAYED ''Token has already been redeemed''"
proof -
  let ?grant = "for_publisher relay_pub_ns"
  have grants: "info_authorizes ?grant PUBLISH relay_pub_ns track" "\<not> info_authorizes ?grant SUBSCRIBE relay_pub_ns track" for track
    by (simp_all add: for_publisher_authorizes_iff)
  have verifies: "fst (Origin_verify L (ta_origin (mr_authenticator r)) tok c) = Ok True"
    if "ta_origin (mr_authenticator r) = ta_origin (mr_authenticator relay)" "tok_type tok = BLIND_RSA"
      "fst (PublicOrigin_verify L po tok c) = Ok True" for r tok
    using that by (simp add: Origin_verify_def origin(1))
  obtain publish relay1 where p: "MoqRelay_verify_and_authorize L time1 token c PUBLISH relay_pub_ns relay_video_track relay
      = ((publish, c), relay1)"
    using relay_challenge_kept(2) [OF c(2)] by (metis prod.collapse)
  have "mv_valid publish"
    using relay_grants(1) [OF inv, of L time1 token c PUBLISH relay_pub_ns relay_video_track]
      verifies [OF refl token] new c(4) grants(1) by (simp add: p relay_spends_def)
  obtain res rng' resp rsa tok2 where
    run: "PublicClient_create_token_request L c ckey rng = Some ((Ok res, c, ckey), rng')"
      "PublicIssuer_issue L issuer (trr_request res) = Ok resp"
      "PublicClient_finalize L resp (trr_finalization_data res) key = Ok tok2"
    and tok2: "tok_type tok2 = BLIND_RSA" "fst (PublicOrigin_verify L po tok2 c) = Ok True"
    using token_exchange [OF bn evp iss key(3,4,2) c(1-3), of rng] origin(2,3) by blast
  have same: "ta_origin (mr_authenticator relay1) = ta_origin (mr_authenticator relay)"
    using relay_state [of L time1 token c PUBLISH relay_pub_ns relay_video_track relay]
    by (auto simp: p check_and_add_nonce_def Let_def split: prod.splits)
  obtain subscribe relay2 where s: "MoqRelay_verify_and_authorize L time2 tok2 c SUBSCRIBE relay_pub_ns relay_video_track relay1
      = ((subscribe, c), relay2)"
    using relay_challenge_kept(2) [OF c(2)] by (metis prod.collapse)
  have "\<not> mv_valid subscribe"
    using unauthorized_refused [OF c(4) grants(2) [of relay_video_track], where L = L and now = time2 and token = tok2 and relay = relay1]
    by (simp add: s)
  moreover have "tok_nonce tok2 \<in> ta_redeemed_nonces (mr_authenticator relay2)"
    using redeemed_after_use [OF verifies [OF same tok2], of time2 SUBSCRIBE relay_pub_ns relay_video_track] by (simp add: s)
  note r = redeemed_refused [OF this, of L time3 c PUBLISH relay_pub_ns relay_video_track]
  obtain verify where "MoqRelay_verify_token L token c relay = (verify, c)" "verify = MoqVerificationResult_success ?grant"
    using verify_token_valid [OF verifies [OF refl token] c(4)] relay_challenge_kept(1) [OF c(2)] by (metis prod.collapse)
  ultimately show ?thesis using \<open>mv_valid publish\<close>
    by (simp add: relay_redemption_def p run s r key(1) main_simps)
qed

lemma cached_key_id:
  "BlindRsaPublicKey_key_id L (key\<lparr>bpk_cached_key_id := kid, bpk_key_id_computed := True\<rparr>)
     = (Ok kid, key\<lparr>bpk_cached_key_id := kid, bpk_key_id_computed := True\<rparr>)"
  by (simp add: BlindRsaPublicKey_key_id_def)

theorem relay_main_runs:
  fixes L :: "('m, 'd, 'r, 'p, 'k, 'b, 't, 'z) ossl_scheme"
  assumes bn: "bn_documented L" and evp: "evp_documented L H" and gen: "keygen_documented L H em_ok"
  shows "\<exists>out rng'. relay_main L time1 time2 time3 rng = Some (Completed out, rng')
    \<and> ro_verify out = MoqVerificationResult_success (for_publisher relay_pub_ns) \<and> mv_valid (ro_publish out)
    \<and> \<not> mv_valid (ro_subscribe out)
    \<and> ro_replay out = MoqVerificationResult_failure MOQ_TOKEN_REPLAYED ''Token has already been redeemed''"
proof -
  obtain issuer rng1 key spki pkey kid where gen1: "PublicIssuer_generate L rng = Some (Ok issuer, rng1)"
    and key: "PublicIssuer_public_key L issuer = Ok key" "BlindRsaPublicKey_to_spki L key = Ok spki"
      "BlindRsaPublicKey_from_spki L spki = Ok key" "bpk_pkey key = Some pkey"
    and id: "BlindRsaPublicKey_key_id L key = (Ok kid, key\<lparr>bpk_cached_key_id := kid, bpk_key_id_computed := True\<rparr>)"
      (is "_ = (_, ?key')")
    and iss: "issues_for L H em_ok issuer pkey kid"
    using generated_issuer [OF evp gen, of rng] by blast
  let ?relay = "example_relay L key :: ('p, 't) MoqRelay"
  note parts = authenticator_single_key [OF key(2,3)]
  obtain conf where auth: "mr_authenticator ?relay
      = TokenAuthenticator_add_trusted_rsa_key L ''issuer.example.com'' key (TokenAuthenticator_new conf)"
    by (simp add: example_relay_def MoqRelay_add_trusted_issuer_def MoqRelay_new_def)
  obtain c0 where c0: "MoqRelay_create_challenge ?relay (for_publisher relay_pub_ns) = Ok c0" "challenge_fits c0"
    using example_relay_challenge by blast
  note ch = relay_challenge_granted [OF publisher_grant_wf c0(1)]
  obtain dg c where c: "c = c0\<lparr>tc_cached_digest := Some dg\<rparr>" "length dg = 32"
    and dg: "TokenChallenge_digest L c0 = (Ok dg, c)" "TokenChallenge_digest L c = (Ok dg, c)"
    and ex: "\<And>start rng. start = c0 \<or> start = c \<Longrightarrow>
       \<exists>res rng' resp rsa token. exchange_run L issuer key ?key' c start rng res rng' resp rsa token"
    by (rule main_exchange [OF bn evp iss id key(4) c0(2) ch(3,2)]) (rule that; assumption)
  obtain res rng2 resp rsa token where run: "exchange_run L issuer key ?key' c c0 rng1 res rng2 resp rsa token"
    using ex [of c0 rng1] by blast
  have granted: "tc_type c = BLIND_RSA" "granted c = Some (for_publisher relay_pub_ns)"
    using ch by (simp_all add: c(1) granted_def)
  let ?po = "PublicOrigin_new L (authenticator_origin_config conf) [key]"
  have po: "or_public_origin (ta_origin (mr_authenticator ?relay)) = Some ?po" "trusted ?po kid = Some ?key'"
    using parts(1) [of "''issuer.example.com''" conf] single_key_trusted [OF id] by (simp_all add: auth)
  have new: "ta_redeemed_nonces (mr_authenticator ?relay) = {}"
    using parts(2) [of "''issuer.example.com''" conf] by (simp add: auth)
  have "auth_reach L conf 0 (mr_authenticator ?relay)" unfolding auth by (intro auth_reach.intros)
  note inv = auth_reach_inv [OF this]
  have ok: "tok_type token = BLIND_RSA" "fst (PublicOrigin_verify L ?po token c) = Ok True"
    using run by (simp_all add: exchange_run_def)
  from relay_redemption_runs [OF bn evp iss key(3,4) cached_key_id [of L kid key] _ inv new po _ granted(1) dg(2) c(2) granted(2) ok,
      where ?time1.0 = time1 and ?time2.0 = time2 and ?time3.0 = time3 and rng = rng2] key(4)
  obtain out rng' where out: "relay_redemption L time1 time2 time3 issuer spki ?relay ?key' c token rng2 = Some (Completed out, rng')"
    "ro_verify out = MoqVerificationResult_success (for_publisher relay_pub_ns)" "mv_valid (ro_publish out)"
    "\<not> mv_valid (ro_subscribe out)"
    "ro_replay out = MoqVerificationResult_failure MOQ_TOKEN_REPLAYED ''Token has already been redeemed''" by auto
  have "relay_main L time1 time2 time3 rng = Some (Completed out, rng')"
    using c0(1) out(1)
    by (simp add: relay_main_def relay_issuance_def gen1 key run [unfolded exchange_run_def] Let_def main_simps
        flip: example_relay_def)
  then show ?thesis using out by blast
qed

subsection \<open>The client\<close>

text \<open>The client program cannot get past the check of the origin, whatever the keys are.\<close>

lemma subscriber_grant_wf: "info_wf (for_subscriber client_test_ns client_test_track)"
  by (simp add: preset_defs client_test_ns_def client_test_track_def info_wf_def scope_wf_def namespace_match_wf_def
      track_match_wf_def elem_ok_def scope_bytes_def namespace_match_bytes_def track_match_bytes_def elem_bytes_def
      str_bytes_def)

theorem client_main_fails:
  assumes evp: "evp_documented L H" and gen: "keygen_documented L H em_ok"
  shows "\<exists>rng'. client_main L issuers rng = Some (Failed
    ''Failed to prepare request: Challenge origin_info does not include current origin'', rng')"
proof -
  obtain issuer rng1 key spki kid where gen1: "PublicIssuer_generate L rng = Some (Ok issuer, rng1)"
    and key: "PublicIssuer_public_key L issuer = Ok key" "BlindRsaPublicKey_to_spki L key = Ok spki"
    and id: "BlindRsaPublicKey_key_id L key = (Ok kid, key\<lparr>bpk_cached_key_id := kid, bpk_key_id_computed := True\<rparr>)"
    using generated_issuer [OF evp gen, of rng] by blast
  let ?pub = "\<lparr>pk_type = BLIND_RSA, pk_data = spki, pk_key_id = kid\<rparr>"
  obtain c where c: "moq_client_challenge client_test_ns client_test_track = Ok c"
    by (simp add: moq_client_challenge_def encode_for_origin_info_def AuthorizationInfo_serialize_eq Let_def)
  have "decode_from_origin_info (tc_origin_info c ! 0) = Ok (for_subscriber client_test_ns client_test_track)"
    "tc_origin_info c \<noteq> []"
    using c origin_info_round_trip [OF subscriber_grant_wf]
    by (auto simp: moq_client_challenge_def encode_for_origin_info_def AuthorizationInfo_serialize_eq
        TokenChallenge_create_def)
  then have parse: "MoqClient_parse_auth_info c = Ok (for_subscriber client_test_ns client_test_track)"
    by (simp add: MoqClient_parse_auth_info_def)
  have "MoqClient_prepare_request L (MoqClient_add_issuer ''issuer.example.com'' ?pub MoqClient_new) c rng1
      = Some ((Err INVALID_CHALLENGE ''Challenge origin_info does not include current origin'', c), rng1)"
    using example_client_refuses [OF c, of L "[(''issuer.example.com'', ?pub)]" rng1] by simp
  then show ?thesis
    by (simp add: client_main_def gen1 key id c parse Let_def main_simps checked_def [of "Inl e" for e] del: BLIND_RSA_def)
qed

subsection \<open>The authorization flow\<close>

lemma auth_grant_wf: "info_wf auth_main_info"
  by (simp add: auth_main_info_def auth_stream_ns_def scope_builder_defs info_wf_def scope_wf_def
      namespace_match_wf_def track_match_wf_def elem_ok_def scope_bytes_def namespace_match_bytes_def
      track_match_bytes_def elem_bytes_def str_bytes_def)

lemma auth_grant_decides:
  "info_authorizes auth_main_info action ns track \<longleftrightarrow>
     action \<in> {SUBSCRIBE, PUBLISH} \<and> (\<exists>rest. ns = auth_stream_ns @ rest)"
  by (auto simp: auth_main_info_def scope_builder_defs info_authorizes_iff scope_authorizes_iff namespace_matches_def
      track_matches_def namespace_rule_matches_iff prefix_def)

lemma first_redemption:
  assumes "fst (Origin_verify L (ta_origin auth) token c) = Ok True" "ta_redeemed_nonces auth = {}"
    and "cache_inv w m t auth" and c: "TokenChallenge_digest L c = (Ok dg, c)"
  shows "\<exists>r auth'. TokenAuthenticator_validate_and_redeem L now token c auth = ((r, c), auth') \<and> vr_valid r
    \<and> tok_nonce token \<in> ta_redeemed_nonces auth'"
proof -
  obtain r where ck: "check_token L (ta_origin auth) token c = (r, c)" "vr_valid r"
    using check_token_challenge [OF c, of "ta_origin auth" token] check_token_valid_iff [of L "ta_origin auth" token c]
      assms(1) by (metis prod.collapse)
  have "ta_nonce_entries auth = []" using assms(2,3) by (auto simp: cache_inv_def entries_ok_def)
  then have "kept_entries now auth = []" using kept_entries_ok(4) [OF assms(3), of now] by simp
  then have "fst (check_and_add_nonce now (tok_nonce token) auth)"
    by (simp add: check_and_add_nonce_parts(1) [OF assms(3)])
  then obtain auth' where add: "check_and_add_nonce now (tok_nonce token) auth = (True, auth')"
    by (metis prod.collapse)
  then have "tok_nonce token \<in> ta_redeemed_nonces auth'"
    by (auto simp: check_and_add_nonce_def Let_def split: prod.splits if_splits)
  then show ?thesis using assms(2) by (simp add: TokenAuthenticator_validate_and_redeem_def ck add)
qed

lemma auth_challenge:
  "\<exists>c. encode_for_origin_info auth_main_info = Ok (b64_encode (info_bytes auth_main_info))
    \<and> c = TokenChallenge_create BLIND_RSA ''issuer.example.com'' None [b64_encode (info_bytes auth_main_info), ''relay.example.com'']
    \<and> challenge_fits c \<and> tc_cached_digest c = None \<and> tc_type c = BLIND_RSA
    \<and> decode_from_origin_info (tc_origin_info c ! 0) = Ok auth_main_info"
  using origin_info_round_trip [OF auth_grant_wf]
  by (simp add: encode_for_origin_info_def AuthorizationInfo_serialize_eq TokenChallenge_create_def)
    (simp add: challenge_fits_def length_b64_encode auth_main_info_def auth_stream_ns_def scope_builder_defs
        info_bytes_def framed_scope_def scope_bytes_def namespace_match_bytes_def track_match_bytes_def
        elem_bytes_def str_bytes_def)

theorem auth_main_runs:
  fixes L :: "('m, 'd, 'r, 'p, 'k, 'b, 't, 'z) ossl_scheme"
  assumes bn: "bn_documented L" and evp: "evp_documented L H" and gen: "keygen_documented L H em_ok"
  shows "\<exists>rng'. auth_main L time1 time2 rng = Some (Completed
    \<lparr>ao_valid = True,
     ao_decisions = Some \<lparr>ad_can_subscribe = True, ad_publish_audio = True, ad_fetch_video = False,
       ad_subscribe_other = False\<rparr>,
     ao_replay_valid = False\<rparr>, rng')"
proof -
  obtain issuer rng1 key spki pkey kid where gen1: "PublicIssuer_generate L rng = Some (Ok issuer, rng1)"
    and key: "PublicIssuer_public_key L issuer = Ok key" "BlindRsaPublicKey_to_spki L key = Ok spki"
      "BlindRsaPublicKey_from_spki L spki = Ok key" "bpk_pkey key = Some pkey"
    and id: "BlindRsaPublicKey_key_id L key = (Ok kid, key\<lparr>bpk_cached_key_id := kid, bpk_key_id_computed := True\<rparr>)"
      (is "_ = (_, ?key')")
    and iss: "issues_for L H em_ok issuer pkey kid"
    using generated_issuer [OF evp gen, of rng] by blast
  let ?relay = "TokenAuthenticator_add_trusted_rsa_key L ''issuer.example.com'' key (TokenAuthenticator_new auth_relay_config)
    :: ('p, 't) TokenAuthenticator"
  note parts = authenticator_single_key [OF key(2,3), of "''issuer.example.com''" auth_relay_config]
  obtain c0 where enc: "encode_for_origin_info auth_main_info = Ok (b64_encode (info_bytes auth_main_info))"
    and c0_eq: "TokenChallenge_create BLIND_RSA ''issuer.example.com'' None
      [b64_encode (info_bytes auth_main_info), ''relay.example.com''] = c0"
    and c0: "challenge_fits c0" "tc_cached_digest c0 = None" "tc_type c0 = BLIND_RSA"
      "decode_from_origin_info (tc_origin_info c0 ! 0) = Ok auth_main_info"
    using auth_challenge by blast
  obtain dg c where c: "c = c0\<lparr>tc_cached_digest := Some dg\<rparr>"
    and dg: "TokenChallenge_digest L c0 = (Ok dg, c)" "TokenChallenge_digest L c = (Ok dg, c)"
    and ex: "\<And>start rng. start = c0 \<or> start = c \<Longrightarrow>
       \<exists>res rng' resp rsa token. exchange_run L issuer key ?key' c start rng res rng' resp rsa token"
    by (rule main_exchange [OF bn evp iss id key(4) c0(1-3)]) (rule that; assumption)
  obtain res rng2 resp rsa token where run: "exchange_run L issuer key ?key' c c rng1 res rng2 resp rsa token"
    using ex [of c rng1] by blast
  then have ok: "fst (Origin_verify L (ta_origin ?relay) token c) = Ok True"
    by (simp add: Origin_verify_def parts(1) exchange_run_def)
  have "auth_reach L auth_relay_config 0 ?relay" by (intro auth_reach.intros)
  note inv = auth_reach_inv [OF this]
  obtain r relay1 where first: "TokenAuthenticator_validate_and_redeem L time1 token c ?relay = ((r, c), relay1)" "vr_valid r"
    "tok_nonce token \<in> ta_redeemed_nonces relay1"
    using first_redemption [OF ok parts(2) inv dg(2)] by blast
  have second: "TokenAuthenticator_validate_and_redeem L time2 token c relay1 =
      ((ValidationResult_failure TOKEN_REPLAYED ''Token has already been redeemed'', c), relay1)"
    using first(3) by (simp add: TokenAuthenticator_validate_and_redeem_def)
  have info: "tc_origin_info c = tc_origin_info c0" by (simp add: c)
  have "auth_redemption L time1 time2 ?relay c token rng2 = Some (Completed
    \<lparr>ao_valid = True,
     ao_decisions = Some \<lparr>ad_can_subscribe = True, ad_publish_audio = True, ad_fetch_video = False,
       ad_subscribe_other = False\<rparr>,
     ao_replay_valid = False\<rparr>, rng2)"
    using first(2) c0(4)
    by (simp add: auth_redemption_def first(1) second info auth_grant_decides ValidationResult_failure_def main_simps)
      (simp add: auth_other_ns_def auth_stream_ns_def str_bytes_def)
  then show ?thesis
    by (simp add: auth_main_def auth_setup_def auth_issuance_def gen1 key id enc c0_eq dg(1) Let_def
        run [unfolded exchange_run_def] main_simps del: BLIND_RSA_def)
qed

end
