(* ===== verification/PP_Sample_Runs.thy ===== *)
theory PP_Sample_Runs
  imports PP_Example_Runs PP_Sample_Flow
begin

text \<open>The sample library generates the sample key, so that the example programs run on it.\<close>

lemma sample_keygen: "keygen_documented sample_ossl sample_digest (\<lambda>hash em. em = sample_em hash)"
proof -
  have "key_pair_documented sample_ossl sample_digest (\<lambda>hash em. em = sample_em hash) () [1] () sample_n sample_e sample_d"
    using sample_public_key sample_private_key sample_generator
    by (simp add: key_pair_documented_def marshal_public_key_def parse_public_key_spki_def validate_rsa_params_def
        INT_MAX_def sample_n_bits' RSA_BITS_def RSA_PUBLIC_EXPONENT_def sample_e_def digest_ok_def)
  moreover have "generate_rsa_pss_keypair sample_ossl RSA_BITS SALT_LENGTH rng = (Some (), rng)" for rng
    by (simp add: generate_rsa_pss_keypair_def)
  ultimately show ?thesis unfolding keygen_documented_def by blast
qed

end
