(* ===== verification/Spec2Isabelle.thy ===== *)
theory Spec2Isabelle
  imports PP_Sample PP_Replay PP_Auth_Scheme PP_Request PP_Response PP_Byte_Writer
    PP_Moq_Scope PP_Moq_Authorization PP_Sswu PP_Voprf_Protocol PP_Blind_Rsa PP_Origin
    PP_Token_Authenticator PP_Issuer PP_Client PP_Token_Provider PP_Lifecycle PP_Secure_Bytes
    PP_Sample_Flow PP_Sample_Relay PP_Sample_Backends PP_Client_Safety PP_Blindness PP_Sample_Blindness
    PP_Sample_Runs
begin

text \<open>
  A verification development for privacypass-cpp, a C++ library of the Privacy Pass protocols
  (RFC 9576, 9577, 9578, with Blind RSA of RFC 9474 and the VOPRF of RFC 9497 over P-384) and of
  an extension that authorises operations of Media over QUIC (MOQT).

  An origin sends a challenge, a client turns it into a blinded request, an issuer signs or
  evaluates the request blindly, the client unblinds the answer into a token, and the origin
  verifies the token and makes sure that it is redeemed once. The library has these parts in
  include/privacy_pass, src/core, src/crypto and src/http, and the extension in
  extensions/moq; file names below are under src/.

  Theories and what they model

  \<^item> \<open>PP_Prelude\<close>, \<open>PP_Types\<close>: bytes, big-endian words, text as bytes; token types, error codes,
    \<open>Result\<close> as \<open>Error + 'a\<close> (\<open>Ok\<close>, \<open>Err\<close>, \<open>try_bind\<close>), \<open>constant_time_equal\<close>
    (core/types.hpp, core/types.cpp).
  \<^item> \<open>PP_Byte_Reader\<close>, \<open>PP_Byte_Writer\<close>, \<open>PP_Varint\<close>, \<open>PP_Base64url\<close>: core/serialization.hpp and .cpp.
    The reader is the data with a position; the writer has the mode that grows a vector and the
    one that fills a buffer of the caller and sets an overflow flag.
  \<^item> \<open>PP_Wire_Format\<close>: the locales \<open>wire_format\<close>, \<open>strict_wire_format\<close> and \<open>tolerant_wire_format\<close>, the
    contract of a codec. \<open>PP_Token\<close>, \<open>PP_Challenge\<close>, \<open>PP_Request\<close>, \<open>PP_Response\<close> (core/token.cpp,
    token_challenge.cpp, token_request.cpp, token_response.cpp), \<open>PP_Moq_Scope\<close> and
    \<open>PP_Moq_Authorization\<close> (extensions/moq) interpret them for every codec of the code.
  \<^item> \<open>PP_Auth_Scheme\<close>: http/auth_scheme.cpp, the WWW-Authenticate and Authorization headers; the
    parsers recurse over the rest of the text, which gets shorter.
  \<^item> \<open>PP_Hash\<close>: crypto/hash.cpp and crypto/random.cpp. \<open>PP_Ossl\<close>: the interface of OpenSSL.
    \<open>PP_Blind_Rsa\<close>: crypto/blind_rsa.cpp with the OpenSSL 3 branch of crypto/compat.hpp;
    \<open>PP_Compat_Backends\<close>: its BoringSSL and OpenSSL 1.1 branches. \<open>PP_Voprf\<close>, \<open>PP_Sswu\<close>,
    \<open>PP_Voprf_Protocol\<close>: crypto/voprf.cpp.
  \<^item> \<open>PP_Nonce_Store\<close>: the locale \<open>nonce_store\<close>, the contract of a replay cache, and \<open>redeemer\<close>, which
    extends it to an object that redeems tokens. \<open>PP_Replay\<close> interprets the first for the
    \<open>ReplayCache\<close> of core/origin.cpp, \<open>PP_Token_Authenticator\<close> (core/token_authenticator.cpp) for the
    cache of the authenticator; \<open>PP_Origin\<close>, \<open>PP_Token_Authenticator\<close> and \<open>PP_Relay_Flow\<close> interpret the
    second for both origins, the authenticator and the relay.
  \<^item> \<open>PP_Issuer\<close>, \<open>PP_Client\<close>, \<open>PP_Token_Provider\<close>: core/issuer.cpp, client.cpp, token_provider.cpp.
  \<^item> \<open>PP_Lifecycle\<close>: initialize and shutdown as an inductive step relation over threads.
    \<open>PP_Secure_Bytes\<close>: what SecureBytes leaves in the memory it releases.
  \<^item> \<open>PP_Moq_Relay\<close>, \<open>PP_Relay_Flow\<close>: the classes MoqRelay and MoqClient of the examples, which compose
    the authenticator and the provider with the grants.
  \<^item> \<open>PP_Example_Flows\<close>, \<open>PP_Example_Runs\<close>: the main functions of the four example programs, with every
    test, early return and read of a result that was not tested, and how their runs end.
  \<^item> \<open>PP_Field\<close>, \<open>PP_Sswu_Total\<close>, \<open>PP_Liveness\<close>: arithmetic modulo a prime, and the theorems that the map
    to the curve, the loops and the protocols return. \<open>PP_Client_Safety\<close> and \<open>PP_Blindness\<close>: what a
    client may rely on, that its token is valid and that its request hides what it is for.
  \<^item> \<open>PP_Sample\<close>, \<open>PP_Sample_Key\<close>, \<open>PP_Sample_Ossl\<close>, \<open>PP_Sample_Flow\<close>, \<open>PP_Sample_Relay\<close>,
    \<open>PP_Sample_Backends\<close>, \<open>PP_Sample_Blindness\<close> and \<open>PP_Sample_Runs\<close>: concrete values of everything the properties assume, for the witnesses.

  State and effects

  A class is a record with the fields of its Impl, an operation a function that returns the
  object it leaves, with the result where there is one. A mutable cache is a field: an operation
  that computes a key id or a challenge digest returns the key or the challenge with the cache
  filled. A clock reading is an argument. An operation under a mutex is one step. An operation
  that draws random numbers has the type \<open>proc\<close>: it maps the state of the generator to \<open>None\<close>, when it
  does not return, or to the result and the state it leaves; the two rejection loops are
  partial functions, so no fuel is needed and not returning is a value that theorems are about.
  The order in which an unordered map is walked is an argument where it can be seen.

  What is assumed

  OpenSSL is not part of the repository. The record \<open>ossl\<close> of \<open>PP_Ossl\<close> holds the functions the code
  calls, with their return codes, as a parameter of every operation that uses them. What the
  manual pages promise is a named hypothesis: \<open>evp_documented\<close> (the digest of what was fed),
  \<open>bn_documented\<close> and \<open>mont_documented\<close> (arithmetic), \<open>public_key_documented\<close> and
  \<open>private_key_documented\<close> (an RSA key: its numbers, \<open>m ^ (e d) mod n = m\<close>, PSS padding and verification),
  \<open>ec_documented\<close> and \<open>affine_documented\<close> (a cyclic group with its encoding), \<open>sswu_parameters\<close> (the
  constants of RFC 9380), \<open>generator_works\<close> and \<open>scalars_work\<close> (no draw fails and none is rejected
  for ever), \<open>keygen_documented\<close> (key generation succeeds with some key pair). Theorems without such a hypothesis hold for any behaviour of OpenSSL, failures
  included. All the hypotheses hold together in \<open>PP_Sample_Ossl\<close>: a group of order 31, the curve
  y^2 = x^3 + 20 x + 8 modulo 23, and an RSA key of 2048 bits whose law \<open>PP_Sample_Key\<close> proves
  without evaluating the modulus.

  What is shown

  \<^item> The exchanges return and end in a token that is accepted (C1 to C5, C13, C18): for the
    MOQT relay, for a provider with an issuer and an origin, for the VOPRF, and as runs of the
    example programs. A token that a client finalizes is valid, with no assumption about OpenSSL
    or the issuer (C6).
  \<^item> A request does not tell the issuer what is blinded in it (C11, C12).
  \<^item> Redemption (C7 to C10): no nonce is accepted twice in its window, by origin, authenticator
    or relay, whatever is called in between, and a token that does not verify marks no nonce in
    the authenticator; what the relay grants.
  \<^item> Acceptance and keys (C14, C15, C19, C22): when an origin accepts, and that the index
    tables of keys are a map.
  \<^item> Algorithms (C16, C17, C20, C21): the branch-free map to the curve is the map of RFC 9380 and
    always finds a point, message expansion is that of the RFC, the blinding loop returns exactly
    when a draw is accepted.
  \<^item> Wire formats and headers (C23 to C25, C28 to C31): well-formed results, exact acceptance
    of the parsers and round trips, through base64url and HTTP headers.
  \<^item> The rest: bounds of the caches, authorisation decisions, the interleavings of initialize and
    shutdown, released memory, the backends compared, and the behaviour that is not what
    the code means to do, which the findings of the manifest list. The section of further facts
    holds properties that did not fit the list.

  Bounds: 255 blocks of 48 bytes in message expansion, 16-bit lengths in wire formats and the limits
  of the batch codecs are those of the code. The properties about redemption hold below the
  capacity of the cache and inside its window, and say so: past them the code forgets. Windows are
  unbounded integers of nanoseconds, exact while the 64-bit durations of the code do not overflow,
  for windows of less than 292 years. Released memory is shown to be zero for buffers that never
  shrink and never grow past their block; past it the old block goes back uncleared (C35).

  Not modelled: what the example programs print; the RAII wrappers of crypto/common.hpp; logging; the static group object, whose creation is a flag of
  the parameter; the frees on error paths of compat.hpp; hash functions of unordered maps; time as
  such, and threads other than those of the lifecycle, since every other shared object takes a mutex
  for the whole of an operation or has none.
\<close>


section \<open>Further facts\<close>

text \<open>
  A nonce that the replay cache of an origin accepts at some tick is rejected by every later
  check, whatever nonces are added in between and however the ticks advance, as long as the window
  has not passed since and the cache stays within its capacity.
\<close>

theorem replay_accepted_once:
  assumes "rc_inv w m t0 c" "t0 \<le> t" "fst (check_and_add_at t n c)" "in_order t adds"
    and "rc_size c + 1 + length adds \<le> Suc m" "\<forall>(t', x) \<in> set adds. \<not> rc_expired w t t'"
    and "i < length adds" "snd (adds ! i) = n"
  shows "\<not> fst (run_adds check_and_add_at adds (snd (check_and_add_at t n c))) ! i"
  using replay.accepted_once [OF assms(1-6)] assms(7,8) by blast

theorem replay_accepted_once_witness:
  "\<not> fst (run_adds check_and_add_at [(5, [2]), (6, [1])]
       (snd (check_and_add_at 4 [1] (ReplayCache_new 10 7)))) ! 1"
proof (rule replay_accepted_once [where w = "word_of_int 10" and m = 7 and ?t0.0 = 0])
  show "rc_inv (word_of_int 10) 7 0 (ReplayCache_new 10 7)" by (rule rc_inv_new)
  show "fst (check_and_add_at 4 [1] (ReplayCache_new 10 7))"
    by (simp add: fst_check_and_add_at prune_expired_def ReplayCache_new_def)
  show "\<forall>(t', x) \<in> set [(5, [2]), (6, [1 :: byte])]. \<not> rc_expired (word_of_int 10) 4 t'"
    by (simp add: rc_expired_def)
qed (simp_all add: rc_size_def ReplayCache_new_def)

text \<open>
  While the cache is below its capacity, check_and_add accepts a nonce exactly when it is not
  recorded or its record has left the window, and an accepted nonce is recorded with the tick of
  the call.
\<close>

theorem replay_decision:
  assumes "rc_inv w m t c" "t \<le> t'" "rc_size c < Suc m"
  shows "(fst (check_and_add_at t' n c) \<longleftrightarrow>
      (case rc_recorded c n of None \<Rightarrow> True | Some u \<Rightarrow> rc_expired w u t'))
    \<and> (fst (check_and_add_at t' n c) \<longrightarrow> rc_recorded (snd (check_and_add_at t' n c)) n = Some t')"
  using replay.add_decision [OF assms] replay.add_records [OF assms(1,2)] by blast

theorem replay_decision_witness:
  "fst (check_and_add_at 3 [1] (ReplayCache_new 10 7)) \<longleftrightarrow>
     (case rc_recorded (ReplayCache_new 10 7) [1] of None \<Rightarrow> True
      | Some u \<Rightarrow> rc_expired (word_of_int 10) u 3)"
  using replay_decision [OF rc_inv_new [of 10 7 0], of 3 "[1]"]
  by (simp add: rc_size_def ReplayCache_new_def)

text \<open>
  Before the first window has passed, pruning returns at once: every new nonce is accepted and the
  cache grows past max_size by one with every call, whatever max_size is.
\<close>

theorem replay_unbounded_in_first_window:
  assumes "t < w" "in_order t0 adds" "\<forall>a \<in> set adds. fst a \<le> t" "distinct (map snd adds)"
    and "rc_inv w m t0 c" "\<forall>a \<in> set adds. snd a \<notin> rc_all_nonces c"
  shows "rc_size (snd (run_adds check_and_add_at adds c)) = rc_size c + length adds"
  using assms(2-6)
proof (induction adds arbitrary: c t0)
  case (Cons a adds)
  obtain t1 n where a: "a = (t1, n)" by (cases a)
  have lt: "t1 < rc_window_seconds c" and t1: "t0 \<le> t1"
    using Cons.prems assms(1) by (auto simp: a rc_inv_def)
  obtain b s' where step: "check_and_add_at t1 n c = (b, s')" by (cases "check_and_add_at t1 n c")
  have p: "prune_expired t1 c = c" using lt by (simp add: prune_expired_def)
  have inv: "rc_inv w m t1 s'" using rc_inv_check_and_add_at [OF Cons.prems(4) t1, of n] step by simp
  have size: "rc_size s' = Suc (rc_size c)"
    using rc_unbounded_before_window [OF lt, of n] Cons.prems step finite_all_nonces [OF rc_inv_ok]
    by (auto simp: a)
  have all: "rc_all_nonces s' = insert n (rc_all_nonces c)"
    using step Cons.prems by (auto simp: a check_and_add_at_def p Let_def split: if_splits)
  have "rc_size (snd (run_adds check_and_add_at adds s')) = rc_size s' + length adds"
    using Cons.prems inv by (intro Cons.IH [of t1]) (auto simp: a all)
  then show ?case by (simp add: a step size case_prod_beta)
qed simp

theorem replay_unbounded_in_first_window_witness:
  "rc_size (snd (run_adds check_and_add_at [(1, [1]), (1, [2]), (2, [3])] (ReplayCache_new 10 0)))
     = rc_size (ReplayCache_new 10 0) + length [(1, [1]), (1, [2]), (2 :: u64, [3 :: byte])]"
  by (rule replay_unbounded_in_first_window [OF _ _ _ _ rc_inv_new [of 10 0 0], where t = 3])
    (simp_all add: ReplayCache_new_def)

text \<open>
  Whatever bytes the challenge parser accepts, the challenge it returns serialises, and parsing
  that serialisation gives the same challenge again.
\<close>

theorem challenge_normalised:
  assumes "TokenChallenge_deserialize bs = Ok c"
  shows "\<exists>cs. TokenChallenge_serialize c = Ok cs \<and> TokenChallenge_deserialize cs = Ok c"
  using TokenChallenge_reencodes [OF assms] .

theorem challenge_normalised_witness:
  "\<exists>cs. TokenChallenge_serialize sample_challenge = Ok cs
    \<and> TokenChallenge_deserialize cs = Ok sample_challenge"
proof -
  have "TokenChallenge_deserialize (challenge_bytes sample_challenge)
      = Ok (sample_challenge\<lparr>tc_cached_digest := None\<rparr>)"
    by (rule TokenChallenge_deserialize_serialize [OF sample_challenge_wf(1)])
  moreover have "sample_challenge\<lparr>tc_cached_digest := None\<rparr> = sample_challenge"
    by (simp add: sample_challenge_def)
  ultimately show ?thesis using challenge_normalised by metis
qed

text \<open>
  Under the documented behaviour of the digest functions, the digest of a challenge without a
  cached one is SHA-256 of exactly the bytes that serialize writes, it is cached, and a second
  call returns the cached value whatever issuer name or origins are assigned in between.
\<close>

theorem challenge_digest_documented:
  assumes "evp_documented L H" "tc_cached_digest c = None" "TokenChallenge_serialize c = Ok bs"
  shows "TokenChallenge_digest L c =
      (Ok (H EVP_sha256 bs), c\<lparr>tc_cached_digest := Some (H EVP_sha256 bs)\<rparr>)
    \<and> fst (TokenChallenge_digest L (snd (TokenChallenge_digest L c)
        \<lparr>tc_issuer_name := name, tc_origin_info := origins\<rparr>)) = Ok (H EVP_sha256 bs)"
proof -
  have fits: "challenge_fits c" and bs: "bs = challenge_bytes c"
    using assms(3) by (simp_all add: TokenChallenge_serialize_Ok_iff)
  note digest = TokenChallenge_digest_documented [OF assms(1) fits assms(2)]
  show ?thesis
    unfolding digest bs by (simp add: TokenChallenge_digest_stale [where d = "H EVP_sha256 (challenge_bytes c)"])
qed

theorem challenge_digest_documented_witness:
  "fst (TokenChallenge_digest sample_hash sample_challenge)
     = Ok (sample_digest EVP_sha256 (challenge_bytes sample_challenge))"
  using challenge_digest_documented [OF sample_hash_documented sample_challenge_wf(2),
      of "challenge_bytes sample_challenge"]
    sample_challenge_wf(1)
  by (simp add: TokenChallenge_serialize_Ok_iff challenge_wf_def)

text \<open>
  Decoding inverts encoding for every byte string, with no, one or two padding characters appended
  and with the padding that encode_padded chooses; encoded text uses only the alphabet and its
  length is never 1 modulo 4.
\<close>

theorem base64url_decodes_any_padding:
  "(k \<le> 2 \<longrightarrow> b64_decode (b64_encode data @ replicate k (CHR ''='')) = Ok data)
    \<and> b64_decode (b64_encode_padded data) = Ok data
    \<and> set (b64_encode data) \<subseteq> set ENCODE_TABLE \<and> length (b64_encode_padded data) mod 4 = 0"
  using decode_encode_padding [of k data] set_b64_encode [of data] length_b64_encode_padded [of data]
  by simp

theorem base64url_decodes_any_padding_witness:
  "b64_decode (b64_encode [1, 2, 3, 255] @ ''=='') = Ok [1, 2, 3, 255]"
proof -
  have two: "replicate 2 (CHR ''='') = ''==''" by (simp add: numeral_2_eq_2)
  show ?thesis
    using conjunct1 [OF base64url_decodes_any_padding [of 2 "[1, 2, 3, 255]"]] unfolding two
    by (rule mp) (rule order_refl)
qed

text \<open>
  A variable-length integer written at the end of any bytes is read back with its top two bits
  cleared, leaving the reader right behind it; so exactly the values below 2^62 survive, and
  larger ones are silently truncated.
\<close>

theorem varint_keeps_62_bits:
  "read_varint (reader_at pre (writer_take (put (write_varint v) ByteWriter_new) @ ys))
     = (Some (take_bit 62 v),
        reader_at (pre @ writer_take (put (write_varint v) ByteWriter_new)) ys)
   \<and> length (writer_take (put (write_varint v) ByteWriter_new)) = varint_size v"
  by (simp add: writer_simps reader_simps length_varint_bytes)

text \<open>
  The reader of token requests accepts exactly the serialisations of requests whose blinded
  message has the length of their token type, and returns that request.
\<close>

theorem request_wire_exact:
  "TokenRequest_deserialize bs = Ok r \<longleftrightarrow>
     length (req_blinded_msg r) = blinded_element_size (for_type (req_type r)) \<and> TokenRequest_serialize r = Ok bs"
  using request_wire.des_Ok_iff [of bs r] by (simp add: request_wf_def)

text \<open>
  The reader of responses for a token type accepts exactly the serialisations of responses of that
  type with the sizes of the type, and returns them.
\<close>

theorem response_wire_exact:
  "TokenResponse_deserialize t bs = Ok r \<longleftrightarrow>
     (response_wf r \<and> resp_type r = t) \<and> TokenResponse_serialize r = Ok bs"
  by (rule response_wire.des_Ok_iff)

text \<open>
  Under the documented behaviour of the digest functions, feeding a message in any pieces to the
  incremental SHA-256 and SHA-384 hashers and finalising gives the result of the one-shot hash of
  the concatenation.
\<close>

theorem incremental_hash_is_one_shot:
  assumes "evp_documented L H"
  shows "Sha256Hasher_finalize L (foldl (Sha256Hasher_update L) (Sha256Hasher_new L) pieces)
      = sha256 L (concat pieces)
    \<and> Sha384Hasher_finalize L (foldl (Sha384Hasher_update L) (Sha384Hasher_new L) pieces)
      = sha384 L (concat pieces)"
  using assms by (simp add: Sha256Hasher_foldl Sha384Hasher_foldl sha256_documented sha384_documented)

theorem incremental_hash_is_one_shot_witness:
  "Sha256Hasher_finalize sample_hash (foldl (Sha256Hasher_update sample_hash)
      (Sha256Hasher_new sample_hash) [[1], [], [2, 3]]) = sha256 sample_hash [1, 2, 3]"
  using incremental_hash_is_one_shot [OF sample_hash_documented, of "[[1], [], [2, 3]]"] by simp

text \<open>
  The reader of scopes accepts a byte string exactly when it starts with the encoding of a scope
  with at most 255 actions, at most 255 namespace elements and elements of at most 65535 bytes,
  and returns that scope.
\<close>

theorem moq_scope_wire_exact:
  "AuthScope_deserialize bs = Ok s \<longleftrightarrow>
     scope_wf s \<and> (\<exists>enc ys. AuthScope_serialize s = Ok enc \<and> bs = enc @ ys)"
  by (rule scope_wire.des_prefix)

text \<open>
  A grant encoded for the origin info of a challenge is an entry a challenge can carry: the
  challenge round-trips with it as its only origin, and the entry decodes to the grant.
\<close>

theorem moq_origin_info_in_challenge:
  assumes "info_wf i" "encode_for_origin_info i = Ok entry" "length entry \<le> 65535"
    and "challenge_wf c" "tc_cached_digest c = None"
  shows "try_bind (TokenChallenge_serialize (c\<lparr>tc_origin_info := [entry]\<rparr>)) TokenChallenge_deserialize
      = Ok (c\<lparr>tc_origin_info := [entry]\<rparr>) \<and> decode_from_origin_info entry = Ok i"
proof -
  have "challenge_wf (c\<lparr>tc_origin_info := [entry]\<rparr>)"
    using assms origin_info_entry [OF assms(2)]
    by (simp add: challenge_wf_def challenge_fits_def origin_ok_def MAX_ORIGIN_ENTRIES_def)
  then show ?thesis
    using challenge_wire.round_trip [of "c\<lparr>tc_origin_info := [entry]\<rparr>"] assms(2,5)
      origin_info_round_trip [OF assms(1)]
    by simp
qed

theorem moq_origin_info_in_challenge_witness:
  "decode_from_origin_info (b64_encode [0]) = Ok \<lparr>info_scopes = []\<rparr>"
  using moq_origin_info_in_challenge [of "\<lparr>info_scopes = []\<rparr>" "b64_encode [0]" sample_challenge]
    sample_challenge_wf
  by (simp add: info_wf_def encode_for_origin_info_def AuthorizationInfo_serialize_eq info_bytes_def
      length_b64_encode)

text \<open>
  The three ready-made grants authorise what their names promise: a subscriber its four actions on
  one namespace and track, a publisher its three actions on every track of one namespace, a relay
  everything.
\<close>

theorem moq_presets:
  "(info_authorizes (for_subscriber ns track) action ns' track' \<longleftrightarrow>
      action \<in> {CLIENT_SETUP, SUBSCRIBE, FETCH, TRACK_STATUS} \<and> ns' = ns \<and> track' = track)
   \<and> (info_authorizes (for_publisher ns) action ns' track' \<longleftrightarrow>
      action \<in> {CLIENT_SETUP, PUBLISH_NAMESPACE, PUBLISH} \<and> ns' = ns)
   \<and> info_authorizes for_relay action ns' track'"
  by (simp only: for_subscriber_authorizes_iff for_publisher_authorizes_iff for_relay_authorizes simp_thms)

text \<open>
  When a PrivateIssuer answers a request made of a blinded element, the VOPRF client finalizes the
  answer, and the issuer verifies the token that carries the output as its authenticator.
\<close>

theorem private_issuance_verifies:
  assumes "ec_documented L q pt" "evp_documented L H"
    and "0 < k" "k < q" "vpk_point public_key = Some (pt k)"
    and "vi_server issuer = Some \<lparr>vsk_scalar = Some k\<rparr>"
    and "tok_type token = VOPRF_P384_SHA384"
      "AuthenticatorInput_serialize (authenticator_input token) = Ok input" "length input \<le> 0xFFFF"
    and "req_type request = VOPRF_P384_SHA384"
      "req_truncated_token_key_id request = vi_truncated_key_id issuer"
      "req_blinded_msg request = vfd_blinded_element fin"
    and "VoprfClient_blind L input rng = Some (Ok fin, rng1)"
    and "PrivateIssuer_issue L issuer request rng2 = Some (Ok resp, rng3)"
  shows "\<exists>v out. as_voprf resp = Some v
    \<and> VoprfClient_finalize L public_key fin
        \<lparr>ve_evaluated_element = voprf_evaluate_msg v, ve_proof = voprf_evaluate_proof v\<rparr> = Ok out
    \<and> PrivateIssuer_verify L issuer (token\<lparr>tok_authenticator := out\<rparr>) = Ok True"
  using assms by (rule private_issuer_complete)

theorem private_issuance_verifies_witness:
  defines "issuer \<equiv> \<lparr>vi_private_key = \<lparr>vsk_scalar = Some 5\<rparr>, vi_server = Some \<lparr>vsk_scalar = Some 5\<rparr>,
      vi_key_id = replicate 32 0, vi_truncated_key_id = 9\<rparr>"
    and "token \<equiv> sample_token\<lparr>tok_type := VOPRF_P384_SHA384\<rparr>"
  shows "\<exists>fin resp v out. as_voprf resp = Some v
    \<and> PrivateIssuer_issue sample_ossl issuer (TokenRequest_create VOPRF_P384_SHA384 9 (vfd_blinded_element fin)) ()
        = Some (Ok resp, ())
    \<and> VoprfClient_finalize sample_ossl (VoprfPublicKey_new\<lparr>vpk_point := Some (sample_pt 5)\<rparr>) fin
        \<lparr>ve_evaluated_element = voprf_evaluate_msg v, ve_proof = voprf_evaluate_proof v\<rparr> = Ok out
    \<and> PrivateIssuer_verify sample_ossl issuer (token\<lparr>tok_authenticator := out\<rparr>) = Ok True"
proof -
  obtain input where input: "AuthenticatorInput_serialize (authenticator_input token) = Ok input"
    and len: "length input \<le> 0xFFFF"
    by (simp add: AuthenticatorInput_serialize_eq authenticator_input_def token_def sample_token_def)
  obtain fin ev rng3 where fin: "VoprfClient_blind sample_ossl input () = Some (Ok fin, ())"
    and ev: "VoprfServer_blind_evaluate sample_ossl \<lparr>vsk_scalar = Some 5\<rparr> (vfd_blinded_element fin) ()
      = Some (Ok ev, rng3)"
    using voprf_issued [OF sample_ec sample_evp sample_scalars sample_affine_documented sample_sswu, of 5
        "VoprfPublicKey_new\<lparr>vpk_point := Some (sample_pt 5)\<rparr>" input "()" 1 1 "()" "()"] len sample_hash_finite
    by auto
  have issue: "PrivateIssuer_issue sample_ossl issuer (TokenRequest_create VOPRF_P384_SHA384 9 (vfd_blinded_element fin)) ()
      = Some (Ok (create_voprf (ve_evaluated_element ev) (ve_proof ev)), ())"
    using ev by (simp add: PrivateIssuer_issue_def TokenRequest_create_def issuer_def tryM_def liftM_def)
  show ?thesis
    using private_issuance_verifies [OF sample_ec sample_evp, of 5
        "VoprfPublicKey_new\<lparr>vpk_point := Some (sample_pt 5)\<rparr>" issuer token input
        "TokenRequest_create VOPRF_P384_SHA384 9 (vfd_blinded_element fin)" fin "()" "()" "()"] input len fin issue
    by (auto simp: issuer_def token_def TokenRequest_create_def)
qed

text \<open>
  After the removal of a key id a PublicOrigin accepts no token with that id, whatever keys were
  added before, and whatever is added and removed after, until a key with that id is added again.
\<close>

theorem removed_key_never_accepted:
  assumes "\<forall>key. Add_key key \<in> set after \<longrightarrow> fst (BlindRsaPublicKey_key_id L key) \<noteq> Ok (tok_key_id token)"
  shows "fst (PublicOrigin_verify L
      (run_key_ops L (before @ Remove_key (tok_key_id token) # after) (PublicOrigin_new L config keys))
      token challenge) \<noteq> Ok True"
  using assms
  by (simp add: PublicOrigin_accepts_iff PublicOrigin_new_ops run_key_ops_trusted run_key_ops_ok keys_ok_empty
      trust_removed)

theorem removed_key_never_accepted_witness:
  "fst (PublicOrigin_verify sample_ossl
      (run_key_ops sample_ossl ([] @ Remove_key (tok_key_id sample_token) # [Add_key sample_rsa_key])
        (PublicOrigin_new sample_ossl sample_config [sample_rsa_key]))
      sample_token sample_challenge) \<noteq> Ok True"
proof (rule removed_key_never_accepted)
  have "sample_key_id ! 0 \<noteq> tok_key_id sample_token ! 0"
    by (simp add: sample_key_id_def sample_digest_def sample_token_def)
  then have "sample_key_id \<noteq> tok_key_id sample_token" by metis
  then show "\<forall>key. Add_key key \<in> set [Add_key sample_rsa_key] \<longrightarrow>
      fst (BlindRsaPublicKey_key_id sample_ossl key) \<noteq> Ok (tok_key_id sample_token)"
    by (simp add: sample_key_identified)
qed

text \<open>
  TokenAuthenticator::validate reports success exactly when the origin accepts the token, and then
  reports the digest the token carries; a failure carries an error code and no digest.
\<close>

theorem authenticator_validates_iff:
  "(vr_valid (fst (TokenAuthenticator_validate L auth token challenge)) \<longleftrightarrow>
      fst (Origin_verify L (ta_origin auth) token challenge) = Ok True)
    \<and> (let result = fst (TokenAuthenticator_validate L auth token challenge)
       in if vr_valid result then result = ValidationResult_success (tok_challenge_digest token)
          else vr_error_code result \<noteq> None \<and> vr_challenge_digest result = None)"
  unfolding TokenAuthenticator_validate_def Let_def
  using check_token_valid_iff [of L "ta_origin auth" token challenge]
    check_token_digest [of L "ta_origin auth" token challenge]
    check_token_failure [of L "ta_origin auth" token challenge] by simp

text \<open>
  No sequence of stores, fetches and clears takes the tokens cached for one challenge over the
  configured maximum.
\<close>

theorem provider_cache_stays_bounded:
  "length (cached_tokens (snd (run_cache ops (TokenProvider_new config))) d) \<le> pc_max_cached_tokens config"
  using cache_bounded [of "TokenProvider_new config" ops d] by (simp add: cached_tokens_def TokenProvider_new_def)

text \<open>
  The example client of the MOQT extension answers no challenge of the form its own main program
  builds: it is configured for origin.example.com and the challenge names relay.example.com, so
  preparing a request fails whatever issuers were added.
\<close>

theorem example_client_always_refuses:
  assumes "moq_client_challenge test_ns test_track = Ok challenge"
  shows "MoqClient_prepare_request L (foldl (\<lambda>c (name, key). MoqClient_add_issuer name key c) MoqClient_new keys)
      challenge rng
    = Some ((Err INVALID_CHALLENGE ''Challenge origin_info does not include current origin'', challenge), rng)"
  using assms by (rule example_client_refuses)

theorem example_client_always_refuses_witness:
  "\<exists>challenge. moq_client_challenge [[1]] [2] = Ok challenge
    \<and> MoqClient_prepare_request sample_ossl (MoqClient_add_issuer ''issuer.example.com'' sample_public_key MoqClient_new)
        challenge ()
      = Some ((Err INVALID_CHALLENGE ''Challenge origin_info does not include current origin'', challenge), ())"
proof -
  obtain challenge where made: "moq_client_challenge [[1]] [2] = Ok challenge"
    by (simp add: moq_client_challenge_def encode_for_origin_info_def AuthorizationInfo_serialize_eq)
  show ?thesis
    using example_client_always_refuses [OF made, of sample_ossl "[(''issuer.example.com'', sample_public_key)]" "()"] made
    by simp
qed

section \<open>The properties\<close>

text \<open>
  C1. The whole system. Take a MOQT relay whose authenticator was reached from its constructor and
  trusts the Blind RSA key of the issuer, and a grant that is well-formed (at most 255 scopes,
  actions and namespace elements, and patterns and encoded scopes that fit their length fields)
  for which the relay makes a challenge that serialises. Then a client creates a request with the
  key, the issuer that holds the private key under the truncated key id signs it and the client
  finalizes a token with the same key, all returning; and presented with that token the relay
  grants a request exactly when the grant authorises the action on the namespace and the track,
  unless the nonce is in its replay cache. It assumes that OpenSSL behaves as documented and that
  its generator does not fail.
\<close>

theorem relay_grants_issued_token:
  assumes "bn_documented L" "evp_documented L H"
    and "public_key_documented L H em_ok pkey n e" "bpk_pkey key = Some pkey"
    and "private_key_documented L skey n e d" "bsk_pkey (pi_private_key issuer) = Some skey"
    and "fst (BlindRsaPublicKey_key_id L key) = Ok key_id" "pi_truncated_key_id issuer = key_id ! 31"
    and "generator_works L pkey n"
    and "or_public_origin (ta_origin (mr_authenticator relay)) = Some origin"
      "trusted origin key_id = Some okey" "bpk_pkey okey = Some pkey"
    and "auth_reach L config t (mr_authenticator relay)"
    and "info_wf grant" "MoqRelay_create_challenge relay grant = Ok challenge"
      "TokenChallenge_serialize challenge = Ok bs"
    and "bpk_pkey fkey = Some pkey"
  shows "\<exists>res challenge' key' rng' resp token.
    PublicClient_create_token_request L challenge key rng = Some ((Ok res, challenge', key'), rng')
    \<and> PublicIssuer_issue L issuer (trr_request res) = Ok resp
    \<and> PublicClient_finalize L resp (trr_finalization_data res) fkey = Ok token
    \<and> (tok_nonce token \<notin> ta_redeemed_nonces (mr_authenticator relay) \<longrightarrow>
       (mv_valid (fst (fst (MoqRelay_verify_and_authorize L now token challenge action ns track relay)))
         \<longleftrightarrow> info_authorizes grant action ns track))"
  using assms(1-12) auth_reach_inv [OF assms(13)] assms(14-17) by (rule relay_token_issued)

theorem relay_grants_issued_token_witness:
  "\<exists>token. mv_valid (fst (fst (MoqRelay_verify_and_authorize sample_ossl 5 token sample_relay_challenge
        FETCH [[1]] [2] sample_relay)))"
  using relay_grants_issued_token [OF sample_bn sample_evp sample_public_key sample_rsa_pkey sample_private_key
      sample_issuer_key(1) _ sample_issuer_key(2) sample_generator sample_relay_parts(1) sample_trusts _
      sample_relay_reach sample_grant_wf sample_relay_challenge_made sample_relay_challenge_fits sample_rsa_pkey,
      of "()" 5 FETCH "[[1]]" "[2]"]
  by (simp add: sample_key_identified sample_rsa_pkey sample_relay_parts sample_grant_def
      for_subscriber_authorizes_iff) blast

text \<open>
  C2. The example program basic_flow ends with status 0: issuer, origin and client run the whole
  exchange, the origin verifies the token, the first redemption succeeds and the second is
  rejected as a replay while the window of an hour lasts, the Authorization header parses to the
  token and the WWW-Authenticate header to the challenge. It assumes that OpenSSL behaves as
  documented and generates keys.
\<close>

theorem basic_flow_completes:
  assumes "bn_documented L" "evp_documented L H" "keygen_documented L H em_ok"
    and "current_tick time1 \<le> current_tick time2" "\<not> rc_expired 3600 (current_tick time1) (current_tick time2)"
  shows "\<exists>out rng'. basic_flow_main L time1 time2 rng = Some (Completed out, rng')
    \<and> bo_valid out \<and> bo_redeem1 out \<and> replayed (bo_redeem2 out)
    \<and> parse_authorization (bo_auth_header out) = Ok (bo_token out)
    \<and> (\<exists>h. ChallengeHeader_parse (bo_www_auth out) = Ok h
         \<and> decode_challenge h = Ok ((bo_challenge out)\<lparr>tc_cached_digest := None\<rparr>) \<and> ch_max_age h = Some 600)"
  using assms by (rule basic_flow_runs)

theorem basic_flow_completes_witness:
  "\<exists>out. basic_flow_main sample_ossl 3 5 () = Some (Completed out, ())
    \<and> bo_valid out \<and> bo_redeem1 out \<and> replayed (bo_redeem2 out)"
  using basic_flow_completes [OF sample_bn sample_evp sample_keygen, of 3 5 "()"]
  by (auto simp: current_tick_def rc_expired_def)

text \<open>
  C3. The two MOQT example programs end with status 0 and decide what they announce. The relay
  verifies the token of a publisher, lets it publish, denies to subscribe with a second token, and
  turns that token away as a replay afterwards, because the denied request used it up. The
  authorization flow grants to subscribe and to publish under its namespace, denies fetching and
  another namespace, and rejects the replay. No clock reading matters.
\<close>

theorem moq_examples_complete:
  assumes "bn_documented L" "evp_documented L H" "keygen_documented L H em_ok"
  shows "(\<exists>out rng'. relay_main L time1 time2 time3 rng = Some (Completed out, rng')
      \<and> ro_verify out = MoqVerificationResult_success (for_publisher relay_pub_ns) \<and> mv_valid (ro_publish out)
      \<and> \<not> mv_valid (ro_subscribe out)
      \<and> ro_replay out = MoqVerificationResult_failure MOQ_TOKEN_REPLAYED ''Token has already been redeemed'')
    \<and> (\<exists>rng'. auth_main L time1 time2 rng = Some (Completed
        \<lparr>ao_valid = True,
         ao_decisions = Some \<lparr>ad_can_subscribe = True, ad_publish_audio = True, ad_fetch_video = False,
           ad_subscribe_other = False\<rparr>,
         ao_replay_valid = False\<rparr>, rng'))"
  by (rule conjI [OF relay_main_runs [OF assms] auth_main_runs [OF assms]])

theorem moq_examples_complete_witness:
  "(\<exists>out. relay_main sample_ossl 1 2 3 () = Some (Completed out, ()) \<and> mv_valid (ro_publish out))
    \<and> (\<exists>out. auth_main sample_ossl 1 2 () = Some (Completed out, ()) \<and> ao_valid out)"
  using moq_examples_complete [OF sample_bn sample_evp sample_keygen, of 1 2 3 "()"] by auto

text \<open>
  C4. The exchange of a token of the plain Blind RSA type returns and succeeds. The hypotheses on the
  provider: it lists, for the issuer name of the challenge and the plain Blind RSA type, a key
  that parses and has the recorded id; the issuers searched at finalization include that name; and
  every plain Blind RSA key listed for them with that id has the same data. The hypotheses on the
  rest: the issuer signs with the matching private key under the truncated id, the challenge is of
  the plain Blind RSA type, its digest computes and it allows the origin name of the provider, the
  verifying origin trusts the key under its id, OpenSSL behaves as documented and its generator
  does not fail. Then preparing a request, issuing, finalizing with a key looked up again and
  verifying all return, and the origin accepts the token for the challenge.
\<close>

theorem provider_issues_token:
  assumes "bn_documented L" "evp_documented L H"
    and "find_key provider (tc_issuer_name challenge) BLIND_RSA = Some key"
      "BlindRsaPublicKey_from_spki L (pk_data key) = Ok rsa_key" "bpk_pkey rsa_key = Some pkey"
      "fst (BlindRsaPublicKey_key_id L rsa_key) = Ok (pk_key_id key)"
    and "tc_issuer_name challenge \<in> set issuers"
      "\<forall>k \<in> set (listed_keys provider issuers).
         pk_type k = BLIND_RSA \<and> pk_key_id k = pk_key_id key \<longrightarrow> pk_data k = pk_data key"
    and "public_key_documented L H em_ok pkey n e"
      "private_key_documented L skey n e d" "bsk_pkey (pi_private_key issuer) = Some skey"
      "pi_truncated_key_id issuer = pk_key_id key ! 31"
    and "tc_type challenge = BLIND_RSA" "fst (TokenChallenge_digest L challenge) = Ok dg"
      "origin_info_allows (pc_origin_name (tp_config provider)) (tc_origin_info challenge)"
    and "trusted origin (pk_key_id key) = Some okey" "bpk_pkey okey = Some pkey"
    and "generator_works L pkey n"
  shows "\<exists>ctx challenge' rng' resp token.
    TokenProvider_prepare_request L provider challenge rng = Some ((Ok ctx, challenge'), rng')
    \<and> PublicIssuer_issue L issuer (trc_request ctx) = Ok resp
    \<and> TokenProvider_finalize L issuers provider resp ctx = Ok token
    \<and> fst (PublicOrigin_verify L origin token challenge) = Ok True"
  using assms by (rule provider_token_issued)

theorem provider_issues_token_witness:
  "\<exists>ctx challenge' rng' resp token.
    TokenProvider_prepare_request sample_ossl sample_provider sample_challenge () = Some ((Ok ctx, challenge'), rng')
    \<and> PublicIssuer_issue sample_ossl sample_issuer (trc_request ctx) = Ok resp
    \<and> TokenProvider_finalize sample_ossl [''issuer.example''] sample_provider resp ctx = Ok token
    \<and> fst (PublicOrigin_verify sample_ossl sample_origin token sample_challenge) = Ok True"
proof (rule provider_issues_token [OF sample_bn sample_evp, where key = sample_public_key])
  show "find_key sample_provider (tc_issuer_name sample_challenge) BLIND_RSA = Some sample_public_key"
    using sample_find_key by (simp add: sample_challenge_def)
  show "BlindRsaPublicKey_from_spki sample_ossl (pk_data sample_public_key) = Ok sample_rsa_key"
    by (simp add: sample_public_key_def sample_parses)
  show "public_key_documented sample_ossl sample_digest (\<lambda>hash em. em = sample_em hash) () sample_n sample_e"
    by (rule sample_public_key)
  show "private_key_documented sample_ossl () sample_n sample_e sample_d" by (rule sample_private_key)
  show "fst (TokenChallenge_digest sample_ossl sample_challenge)
      = Ok (sample_digest EVP_sha256 (challenge_bytes sample_challenge))"
    by (simp add: sample_challenge_digest)
  show "origin_info_allows (pc_origin_name (tp_config sample_provider)) (tc_origin_info sample_challenge)"
    using sample_allowed by (simp add: sample_provider_eq)
  show "trusted sample_origin (pk_key_id sample_public_key)
      = Some (sample_rsa_key\<lparr>bpk_cached_key_id := sample_key_id, bpk_key_id_computed := True\<rparr>)"
    by (simp add: sample_public_key_def sample_trusted)
  show "generator_works sample_ossl () sample_n" by (rule sample_generator)
qed (simp_all add: sample_listed_keys sample_public_key_def sample_challenge_def sample_key_identified
    sample_rsa_pkey sample_issuer_key)

text \<open>
  C5. The exchange of the VOPRF returns and succeeds for every input of at most 65535 bytes that does
  not hash to the point at infinity: the client blinds, the server evaluates and proves, the
  client accepts the proof and unblinds, and the server confirms the 48 bytes of output for the
  input. It assumes that OpenSSL behaves as documented, that the constants of the map to the curve
  are those RFC 9380 asks for, that the key of the server is a scalar from 1 to the order less 1
  with the public key of the client, that the first draw of the client succeeds and is not zero,
  and that the draws of the server succeed and every rejected one is followed, at some later draw,
  by an accepted one.
\<close>

theorem voprf_exchange_verifies:
  assumes "ec_documented L q pt" "evp_documented L H" "scalars_work L q"
    and "affine_documented L p A B" "sswu_parameters p A B"
    and "0 < k" "k < q" "vpk_point public_key = Some (pt k)" "length input \<le> 0xFFFF"
    and "\<forall>h. hash_to_curve L input = Ok h \<longrightarrow> EC_POINT_is_at_infinity L h \<noteq> 1"
    and "BN_rand_range L rng q = ((ok, r), rng1)" "ok \<noteq> 0" "r \<noteq> 0"
  shows "\<exists>fin ev rng3 out. VoprfClient_blind L input rng = Some (Ok fin, rng1)
    \<and> VoprfServer_blind_evaluate L \<lparr>vsk_scalar = Some k\<rparr> (vfd_blinded_element fin) rng2 = Some (Ok ev, rng3)
    \<and> VoprfClient_finalize L public_key fin ev = Ok out
    \<and> VoprfServer_verify_finalize L \<lparr>vsk_scalar = Some k\<rparr> input out = Ok True \<and> length out = 48"
  using assms by (rule voprf_issued)

theorem voprf_exchange_verifies_witness:
  "\<exists>fin ev rng3 out. VoprfClient_blind sample_ossl [1, 2, 3] () = Some (Ok fin, ())
    \<and> VoprfServer_blind_evaluate sample_ossl \<lparr>vsk_scalar = Some 5\<rparr> (vfd_blinded_element fin) () = Some (Ok ev, rng3)
    \<and> VoprfClient_finalize sample_ossl (VoprfPublicKey_new\<lparr>vpk_point := Some (sample_pt 5)\<rparr>) fin ev = Ok out
    \<and> VoprfServer_verify_finalize sample_ossl \<lparr>vsk_scalar = Some 5\<rparr> [1, 2, 3] out = Ok True \<and> length out = 48"
proof (rule voprf_exchange_verifies [OF sample_ec sample_evp sample_scalars sample_affine_documented sample_sswu])
  show "\<forall>h. hash_to_curve sample_ossl [1, 2, 3] = Ok h \<longrightarrow> EC_POINT_is_at_infinity sample_ossl h \<noteq> 1"
    using sample_hash_finite by blast
  show "BN_rand_range sample_ossl () 31 = ((1, 1), ())" by simp
qed simp_all

text \<open>
  C6. A token that a provider finalizes is valid, whatever the issuer answered and whatever OpenSSL
  does: it carries the nonce, the digest and the key id of the request, and a listed key with that
  id and the type of the response verifies its authenticator, or, for the VOPRF, verified the
  proof that the issuer evaluated the blinded element with it.
\<close>

theorem finalized_token_verifies:
  assumes "TokenProvider_finalize L issuers provider response ctx = Ok token"
  shows "authenticator_input token =
      \<lparr>ai_token_type = fd_token_type (trc_finalization_data ctx), ai_nonce = fd_nonce (trc_finalization_data ctx),
       ai_challenge_digest = fd_challenge_digest (trc_finalization_data ctx),
       ai_token_key_id = fd_token_key_id (trc_finalization_data ctx)\<rparr>
    \<and> (\<exists>key \<in> set (listed_keys provider issuers).
      pk_type key = resp_type response \<and> pk_key_id key = tok_key_id token \<and>
      (if resp_type response = VOPRF_P384_SHA384 then
         \<exists>resp data k bytes copy. as_voprf response = Some resp
           \<and> fd_data (trc_finalization_data ctx) = VoprfDataVariant data
           \<and> VoprfPublicKey_from_bytes L (pk_data key) = Ok k \<and> VoprfPublicKey_to_bytes L k = Ok bytes
           \<and> VoprfPublicKey_from_bytes L bytes = Ok copy
           \<and> evaluation_proved L copy data
               \<lparr>ve_evaluated_element = voprf_evaluate_msg resp, ve_proof = voprf_evaluate_proof resp\<rparr>
       else
         \<exists>k input. BlindRsaPublicKey_from_spki L (pk_data key) = Ok k
           \<and> AuthenticatorInput_serialize (authenticator_input token) = Ok input
           \<and> BlindRsaPublicKey_verify L k input (tok_authenticator token) = Ok True))"
  by (rule provider_token_valid [OF assms])

theorem finalized_token_verifies_witness:
  "\<exists>token k input. BlindRsaPublicKey_from_spki sample_ossl [1] = Ok k
    \<and> AuthenticatorInput_serialize (authenticator_input token) = Ok input
    \<and> BlindRsaPublicKey_verify sample_ossl k input (tok_authenticator token) = Ok True"
proof -
  obtain resp ctx token where
    "TokenProvider_finalize sample_ossl [''issuer.example''] sample_provider resp ctx = Ok token"
    using sample_exchange [OF sample_trusts [of sample_config]] sample_rsa_pkey by auto
  from conjunct2 [OF finalized_token_verifies [OF this]] have "\<exists>k input. BlindRsaPublicKey_from_spki sample_ossl [1] = Ok k
      \<and> AuthenticatorInput_serialize (authenticator_input token) = Ok input
      \<and> BlindRsaPublicKey_verify sample_ossl k input (tok_authenticator token) = Ok True"
    by (auto simp: sample_listed_keys sample_public_key_def split: if_splits)
  then show ?thesis by blast
qed

text \<open>
  C7. Origin::verify_and_redeem is the gate of double spending: after a call that was not turned away
  as a replay, every later call with the same nonce is turned away, whatever calls come in
  between, while the redemption window lasts and the cache stays within its capacity.
\<close>

theorem origin_redeems_once:
  assumes "rc_inv w m t (or_replay_cache origin)" "t \<le> call_tick c"
    and "\<not> replayed (fst (origin_redeem L c origin))"
    and "in_order (call_tick c) (map (\<lambda>c. (call_tick c, call_nonce c)) cs)"
    and "rc_size (or_replay_cache origin) + 1 + length cs \<le> Suc m"
    and "\<forall>c' \<in> set cs. \<not> rc_expired w (call_tick c) (call_tick c')"
    and "i < length cs" "call_nonce (cs ! i) = call_nonce c"
  shows "replayed (fst (run_redeems (origin_redeem L) cs (snd (origin_redeem L c origin))) ! i)"
  using origin_redeemer.redeemed_once [OF assms(1-6)] assms(7,8) by blast

theorem origin_redeems_once_witness:
  "replayed (fst (run_redeems (origin_redeem sample_ossl)
      [\<lparr>rd_elapsed = 5, rd_token = sample_token, rd_challenge = sample_challenge\<rparr>]
      (snd (origin_redeem sample_ossl \<lparr>rd_elapsed = 3, rd_token = sample_token, rd_challenge = sample_challenge\<rparr>
        (Origin_new sample_config)))) ! 0)"
proof (rule origin_redeems_once [where w = "word_of_int 10" and m = 7 and t = 0])
  show "rc_inv (word_of_int 10) 7 0 (or_replay_cache (Origin_new sample_config))"
    using rc_inv_new [of 10 7 0] by (simp add: Origin_new_def sample_config_def)
  have "fst (check_and_add_at (current_tick 3) (tok_nonce sample_token) (ReplayCache_new 10 7))"
    by (simp add: fst_check_and_add_at prune_expired_def ReplayCache_new_def current_tick_def)
  then show "\<not> replayed (fst (origin_redeem sample_ossl
      \<lparr>rd_elapsed = 3, rd_token = sample_token, rd_challenge = sample_challenge\<rparr> (Origin_new sample_config)))"
    by (auto simp: origin_redeem_eq call_tick_def call_nonce_def Origin_new_def sample_config_def replayed_def
        Origin_verify_def split: prod.splits sum.splits)
qed (simp_all add: call_tick_def call_nonce_def rc_size_def Origin_new_def sample_config_def ReplayCache_new_def
    rc_expired_def current_tick_def)

text \<open>
  C8. A redemption by the token authenticator whose token does not verify changes nothing of the
  authenticator, in any state, so a nonce is marked only after its token verified. After a
  redemption that is valid no later redemption of the nonce is valid, whatever is redeemed in
  between, while the replay window lasts and the cache stays within its capacity.
\<close>

theorem authenticator_redeems_once:
  assumes "cache_inv w m t auth" "t \<le> int (rd_elapsed c)"
    and "vr_valid (fst (authenticator_redeem L c auth))"
    and "in_order (int (rd_elapsed c)) (map (\<lambda>c. (int (rd_elapsed c), call_nonce c)) cs)"
    and "TokenAuthenticator_redemption_cache_size auth + 1 + length cs \<le> m"
    and "\<forall>c' \<in> set cs. \<not> nonce_expired w (int (rd_elapsed c)) (int (rd_elapsed c'))"
    and "i < length cs" "call_nonce (cs ! i) = call_nonce c"
  shows "(\<forall>x state. fst (Origin_verify L (ta_origin state) (rd_token x) (rd_challenge x)) \<noteq> Ok True \<longrightarrow>
      snd (authenticator_redeem L x state) = state)
    \<and> \<not> vr_valid (fst (run_redeems (authenticator_redeem L) cs (snd (authenticator_redeem L c auth))) ! i)"
  using authenticator_redeemer.redeemed_once [OF assms(1-6)] assms(7,8) redeem_unverified by blast

theorem authenticator_redeems_once_witness:
  "\<exists>token. \<not> vr_valid (fst (run_redeems (authenticator_redeem sample_ossl)
      [\<lparr>rd_elapsed = 5, rd_token = token, rd_challenge = sample_challenge\<rparr>]
      (snd (authenticator_redeem sample_ossl \<lparr>rd_elapsed = 3, rd_token = token, rd_challenge = sample_challenge\<rparr>
        sample_authenticator))) ! 0)"
proof -
  obtain token where token:
    "fst (Origin_verify sample_ossl (ta_origin sample_authenticator) token sample_challenge) = Ok True"
    using sample_valid_token ..
  note inv = auth_reach_inv [OF sample_authenticator_reach]
  have none: "redeemed_at sample_authenticator n = None" for n
    using inv by (auto simp: redeemed_at_def cache_inv_def entries_ok_def sample_authenticator_empty)
  have "fst (check_and_add_nonce 3 (tok_nonce token) sample_authenticator)"
    by (rule authenticator.add_accepts [OF inv]) (simp_all add: none)
  then have "vr_valid (fst (authenticator_redeem sample_ossl
      \<lparr>rd_elapsed = 3, rd_token = token, rd_challenge = sample_challenge\<rparr> sample_authenticator))"
    using token by (auto simp: authenticator_redeem_eq call_nonce_def sample_authenticator_empty
        ValidationResult_success_def split: prod.splits)
  from conjunct2 [OF authenticator_redeems_once [OF inv _ this,
      of "[\<lparr>rd_elapsed = 5, rd_token = token, rd_challenge = sample_challenge\<rparr>]" 0]]
  show ?thesis
    by (intro exI [of _ token]) (simp add: call_nonce_def nonce_expired_def replay_window_ns_def sample_ac_config_def
        authenticator_max_size_def TokenAuthenticator_redemption_cache_size_def sample_authenticator_empty)
qed

text \<open>
  C9. A relay that granted a request with a token grants no later request with the same nonce,
  whatever is asked in between and for whatever action, while the replay window lasts and the
  cache stays within its capacity.
\<close>

theorem relay_grants_once:
  assumes "auth_reach L config t (mr_authenticator relay)" "t \<le> rl_now c"
    and "mv_valid (fst (relay_request L c relay))"
    and "in_order (rl_now c) (map (\<lambda>c. (rl_now c, tok_nonce (rl_token c))) cs)"
    and "TokenAuthenticator_redemption_cache_size (mr_authenticator relay) + 1 + length cs
      \<le> authenticator_max_size config"
    and "\<forall>c' \<in> set cs. rl_now c' - replay_window_ns config \<le> rl_now c"
    and "i < length cs" "tok_nonce (rl_token (cs ! i)) = tok_nonce (rl_token c)"
  shows "\<not> mv_valid (fst (run_redeems (relay_request L) cs (snd (relay_request L c relay))) ! i)"
  using relay_redeemer.redeemed_once [OF auth_reach_inv [OF assms(1)] assms(2-5)] assms(6-8)
  by (simp add: nonce_expired_def not_less)

theorem relay_grants_once_witness:
  "\<exists>token. \<not> mv_valid (fst (run_redeems (relay_request sample_ossl)
      [\<lparr>rl_now = 6, rl_token = token, rl_challenge = sample_relay_challenge, rl_action = SUBSCRIBE,
        rl_namespace = [[1]], rl_track = [2]\<rparr>]
      (snd (relay_request sample_ossl \<lparr>rl_now = 5, rl_token = token, rl_challenge = sample_relay_challenge,
        rl_action = FETCH, rl_namespace = [[1]], rl_track = [2]\<rparr> sample_relay))) ! 0)"
proof -
  obtain token where token: "mv_valid (fst (fst (MoqRelay_verify_and_authorize sample_ossl 5 token
      sample_relay_challenge FETCH [[1]] [2] sample_relay)))"
    using sample_relay_grants ..
  let ?c = "\<lparr>rl_now = 5, rl_token = token, rl_challenge = sample_relay_challenge,
      rl_action = FETCH, rl_namespace = [[1]], rl_track = [2]\<rparr>"
  have "mv_valid (fst (relay_request sample_ossl ?c sample_relay))" using token by (simp add: relay_request_parts)
  from relay_grants_once [OF sample_relay_reach _ this, of "[?c\<lparr>rl_now := 6, rl_action := SUBSCRIBE\<rparr>]" 0]
  show ?thesis
    by (intro exI [of _ token]) (simp add: sample_relay_parts TokenAuthenticator_redemption_cache_size_def
        authenticator_max_size_def replay_window_ns_def sample_relay_config_def)
qed

text \<open>
  C10. A relay grants a request exactly when the nonce of the token is not redeemed, the token verifies
  for the challenge, and the grant in the first origin entry of the challenge authorises the
  action; it then reports that grant. A token that verified is used up whatever the decision about
  the request was, and any other token leaves the relay as it is.
\<close>

theorem relay_decides:
  assumes "auth_reach L config t (mr_authenticator relay)"
    and "MoqRelay_verify_and_authorize L now token challenge action ns track relay = ((v, challenge'), relay')"
  shows "(mv_valid v \<longleftrightarrow>
      tok_nonce token \<notin> ta_redeemed_nonces (mr_authenticator relay)
      \<and> fst (Origin_verify L (ta_origin (mr_authenticator relay)) token challenge) = Ok True
      \<and> (\<exists>i. granted challenge = Some i \<and> info_authorizes i action ns track))
    \<and> (mv_valid v \<longrightarrow> mv_auth_info v = granted challenge)
    \<and> relay' =
      (if tok_nonce token \<notin> ta_redeemed_nonces (mr_authenticator relay)
          \<and> fst (Origin_verify L (ta_origin (mr_authenticator relay)) token challenge) = Ok True
       then relay\<lparr>mr_authenticator := snd (check_and_add_nonce now (tok_nonce token) (mr_authenticator relay))\<rparr>
       else relay)"
  using relay_grants(1,2) [OF auth_reach_inv [OF assms(1)], of L now token challenge action ns track]
    relay_state [of L now token challenge action ns track relay]
  by (simp add: assms(2) relay_spends_def)

theorem relay_decides_witness:
  "\<exists>token v challenge' relay'.
    MoqRelay_verify_and_authorize sample_ossl 5 token sample_relay_challenge FETCH [[1]] [2] sample_relay
      = ((v, challenge'), relay') \<and> mv_auth_info v = Some sample_grant"
proof -
  obtain token where token: "mv_valid (fst (fst (MoqRelay_verify_and_authorize sample_ossl 5 token
      sample_relay_challenge FETCH [[1]] [2] sample_relay)))"
    using sample_relay_grants ..
  obtain v challenge' relay' where run: "MoqRelay_verify_and_authorize sample_ossl 5 token sample_relay_challenge
      FETCH [[1]] [2] sample_relay = ((v, challenge'), relay')" by (metis prod.collapse)
  have "mv_auth_info v = Some sample_grant"
    using relay_decides [OF sample_relay_reach run] token
      relay_challenge_granted(1) [OF sample_grant_wf sample_relay_challenge_made]
    by (simp add: run)
  then show ?thesis using run by blast
qed

text \<open>
  C11. An issuer learns nothing from a Blind RSA request: for the blinded message that was sent and any
  other message, exactly one blinding factor below the modulus blinds the other message to the
  same bytes. It assumes encodings that are invertible modulo the key; with_draw r L is OpenSSL
  with a generator that draws r.
\<close>

theorem rsa_blinding_hides_message:
  assumes "bn_documented L" "evp_documented L H"
    and "public_key_documented L H em_ok pkey n e" "bpk_pkey key = Some pkey"
    and "\<forall>m < n. m ^ (e * d) mod n = m"
    and "BlindRsaPublicKey_blind L key msg rng = Some (Ok bd, rng')" "coprime (be_val (bd_blinded_msg bd)) n"
    and "do_emsa_pss_encode L pkey msg' rng0 = Some (Ok em', rng1)" "coprime (be_val em') n"
  shows "\<exists>!r. r < n \<and> (\<exists>bd'. BlindRsaPublicKey_blind (with_draw r L) key msg' rng0 = Some (Ok bd', rng1)
    \<and> bd_blinded_msg bd' = bd_blinded_msg bd)"
  using assms by (rule blinding_hides_message)

theorem rsa_blinding_hides_message_witness:
  "\<exists>bd. fst (the (BlindRsaPublicKey_blind sample_ossl sample_rsa_key [] ())) = Ok bd
    \<and> (\<exists>!r. r < sample_n \<and> (\<exists>bd'. BlindRsaPublicKey_blind (with_draw r sample_ossl) sample_rsa_key sample_message ()
        = Some (Ok bd', ()) \<and> bd_blinded_msg bd' = bd_blinded_msg bd))"
proof -
  obtain bd where sent: "BlindRsaPublicKey_blind sample_ossl sample_rsa_key [] () = Some (Ok bd, ())"
    "be_val (bd_blinded_msg bd) = 188" using sample_sent by blast
  have law: "\<forall>m < sample_n. m ^ (sample_e * sample_d) mod sample_n = m" using sample_key_law by blast
  show ?thesis
    using rsa_blinding_hides_message [OF sample_bn sample_evp sample_public_key sample_rsa_pkey law sent(1) _
        sample_encodes, of sample_message] sent sample_coprime by (simp add: sample_em_values)
qed

text \<open>
  C12. An issuer learns nothing from a VOPRF request: for the blinded element that was sent and any
  other input there is exactly one blinding scalar that sends the other input to the same element,
  unless an input hashes to the point at infinity.
\<close>

theorem voprf_blinding_hides_input:
  assumes "ec_documented L q pt"
    and "hash_to_curve L input = Ok h" "EC_POINT_is_at_infinity L h \<noteq> 1"
    and "hash_to_curve L input' = Ok h'" "EC_POINT_is_at_infinity L h' \<noteq> 1"
    and "VoprfClient_blind L input rng = Some (Ok fin, rng')"
  shows "\<exists>r0. 0 < r0 \<and> r0 < q \<and> (\<forall>rng0 ok r rng1. BN_rand_range L rng0 q = ((ok, r), rng1) \<longrightarrow> ok \<noteq> 0 \<longrightarrow> r \<noteq> 0 \<longrightarrow>
    (\<exists>fin'. VoprfClient_blind L input' rng0 = Some (Ok fin', rng1)
      \<and> (vfd_blinded_element fin' = vfd_blinded_element fin \<longleftrightarrow> r = r0)))"
  using assms(1-3,6,4,5) by (rule voprf_request_hides_input)

theorem voprf_blinding_hides_input_witness:
  "\<exists>fin r0. fst (the (VoprfClient_blind sample_ossl [1] ())) = Ok fin \<and> 0 < r0 \<and> r0 < (31 :: nat)
    \<and> (\<exists>fin'. VoprfClient_blind sample_ossl [2] () = Some (Ok fin', ())
      \<and> (vfd_blinded_element fin' = vfd_blinded_element fin \<longleftrightarrow> 1 = r0))"
proof -
  obtain fin where fin: "VoprfClient_blind sample_ossl [1] () = Some (Ok fin, ())"
    using sample_voprf_blind [of "[1]"] by auto
  obtain fin2 where "VoprfClient_blind sample_ossl [2] () = Some (Ok fin2, ())"
    using sample_voprf_blind [of "[2]"] by auto
  then obtain h h2 where h: "hash_to_curve sample_ossl [1] = Ok h" "hash_to_curve sample_ossl [2] = Ok h2"
    using fin by (auto simp: VoprfClient_blind_def tryM_def liftM_def split: sum.splits)
  from voprf_blinding_hides_input [OF sample_ec h(1) sample_hash_finite [OF h(1)] h(2) sample_hash_finite [OF h(2)] fin]
  obtain r0 :: nat where "0 < r0" "r0 < 31"
    "\<exists>fin'. VoprfClient_blind sample_ossl [2] () = Some (Ok fin', ())
      \<and> (vfd_blinded_element fin' = vfd_blinded_element fin \<longleftrightarrow> 1 = r0)" by auto
  then show ?thesis using fin by auto
qed

text \<open>
  C13. Blinding a message, signing the blinded message with the private key and finalizing the answer
  return, and the 256-byte signature verifies for the message under the public key; the inverse of
  the blinding factor is gone from the blinding data afterwards.
\<close>

theorem blind_signature_verifies:
  assumes "bn_documented L" "evp_documented L H"
    and "public_key_documented L H em_ok pkey n e" "bpk_pkey key = Some pkey"
    and "private_key_documented L skey n e d" "bsk_pkey sk = Some skey"
    and "generator_works L pkey n"
  shows "\<exists>bd rng' bs sig. BlindRsaPublicKey_blind L key msg rng = Some (Ok bd, rng')
    \<and> BlindRsaPrivateKey_blind_sign L sk (bd_blinded_msg bd) = Ok bs
    \<and> BlindRsaPublicKey_finalize L key bs bd msg = (Ok sig, bd\<lparr>bd_inverse := []\<rparr>)
    \<and> length sig = 256 \<and> BlindRsaPublicKey_verify L key msg sig = Ok True"
  using assms by (rule blind_signature_issued)

theorem blind_signature_verifies_witness:
  "\<exists>bd rng' bs sig. BlindRsaPublicKey_blind sample_ossl sample_rsa_key [1, 2] () = Some (Ok bd, rng')
    \<and> BlindRsaPrivateKey_blind_sign sample_ossl sample_private_key (bd_blinded_msg bd) = Ok bs
    \<and> BlindRsaPublicKey_finalize sample_ossl sample_rsa_key bs bd [1, 2] = (Ok sig, bd\<lparr>bd_inverse := []\<rparr>)
    \<and> length sig = 256 \<and> BlindRsaPublicKey_verify sample_ossl sample_rsa_key [1, 2] sig = Ok True"
  by (rule blind_signature_verifies [OF sample_bn sample_evp sample_public_key sample_rsa_pkey sample_private_key
        _ sample_generator]) (simp add: sample_private_key_def)

text \<open>
  C14. A PublicOrigin accepts a token for a challenge exactly when the token is well formed, of one of
  the two Blind RSA types, carries the digest of the challenge, names a key the origin trusts, and
  its authenticator verifies under that key over its other fields.
\<close>

theorem public_origin_accepts_iff:
  "fst (PublicOrigin_verify L origin token challenge) = Ok True \<longleftrightarrow>
     Token_validate token = Ok () \<and>
     (tok_type token = BLIND_RSA \<or> tok_type token = PARTIALLY_BLIND_RSA) \<and>
     fst (TokenChallenge_digest L challenge) = Ok (tok_challenge_digest token) \<and>
     (\<exists>key input. trusted origin (tok_key_id token) = Some key \<and>
        AuthenticatorInput_serialize (authenticator_input token) = Ok input \<and>
        BlindRsaPublicKey_verify L key input (tok_authenticator token) = Ok True)"
  by (rule PublicOrigin_accepts_iff)

text \<open>
  C15. Whatever keys are added to and removed from a PublicOrigin after its construction, its vector of
  keys with the two index tables implements a finite map from key ids to keys: adding a key whose
  id can be computed updates the map, removing an id deletes it, and the tables stay consistent.
\<close>

theorem issuer_keys_refine_map:
  "trusted (run_key_ops L ops (PublicOrigin_new L config keys))
      = foldl (trust_step L) Map.empty (map Add_key keys @ ops)
    \<and> keys_ok (run_key_ops L ops (PublicOrigin_new L config keys))"
  by (simp add: PublicOrigin_new_ops run_key_ops_trusted run_key_ops_ok keys_ok_empty)

text \<open>
  C16. For constants as RFC 9380 asks for them (p a prime that is 3 modulo 4, Z = -12 not a square, g(B
  / (Z A)) a square) the map to the curve never fails: it makes a point from a pair of coordinates
  that satisfy the equation of the curve, for every u.
\<close>

theorem map_to_curve_finds_a_point:
  assumes "ec_documented L q pt" "affine_documented L p A B" "sswu_parameters p A B"
  shows "\<exists>x y. y ^ 2 mod p = (x ^ 3 + A * x + B) mod p
    \<and> map_to_curve_sswu L u = Ok (snd (EC_POINT_set_affine_coordinates L x y))"
  using map_to_curve_total [OF assms, of u] by (simp only: swu_g_def)

theorem map_to_curve_finds_a_point_witness:
  "\<exists>x y. y ^ 2 mod 23 = (x ^ 3 + 20 * x + 8) mod 23
    \<and> map_to_curve_sswu sample_ossl 7 = Ok (snd (EC_POINT_set_affine_coordinates sample_ossl x y))"
  by (rule map_to_curve_finds_a_point [OF sample_ec sample_affine_documented sample_sswu])

text \<open>
  C17. The straight-line code of the map to the curve, with its ignored return codes and its branch-
  free selections by byte masks, computes the simplified SWU map of RFC 9380 for Z = -12 over the
  integers modulo p.
\<close>

theorem map_to_curve_is_sswu:
  assumes "ec_documented L q pt" "EC_GROUP_get_curve L = (p, A, B)" "12 < p" "A \<le> p"
  shows "map_to_curve_sswu L u =
    (case sswu_reference (\<lambda>a. BN_mod_inverse L a p) p A B u of
       None \<Rightarrow> Err CRYPTO_ERROR ''Failed to compute inverse''
     | Some (x, y) \<Rightarrow>
         (case EC_POINT_set_affine_coordinates L x y of (ok, point) \<Rightarrow>
            if ok \<noteq> 1 then Err CRYPTO_ERROR ''Failed to create point'' else Ok point))"
  using assms by (rule map_to_curve_sswu_reference)

theorem map_to_curve_is_sswu_witness:
  "map_to_curve_sswu sample_ossl 3 =
    (case sswu_reference (\<lambda>a. BN_mod_inverse sample_ossl a 23) 23 20 8 3 of
       None \<Rightarrow> Err CRYPTO_ERROR ''Failed to compute inverse''
     | Some (x, y) \<Rightarrow>
         (case EC_POINT_set_affine_coordinates sample_ossl x y of (ok, point) \<Rightarrow>
            if ok \<noteq> 1 then Err CRYPTO_ERROR ''Failed to create point'' else Ok point))"
  by (rule map_to_curve_is_sswu [OF sample_ec]) simp_all

text \<open>
  C18. The proof of a VOPRF evaluation returns, has 96 bytes, and is accepted for the key, the blinded
  element and the evaluated element it was made for.
\<close>

theorem evaluation_proof_verifies:
  assumes "ec_documented L q pt" "evp_documented L H" "scalars_work L q"
  shows "\<exists>pi rng'. generate_dleq_proof L k (pt k) (pt r) (pt (r * k)) rng = Some (Ok pi, rng')
    \<and> verify_dleq_proof L (pt k) (pt r) (pt (r * k)) pi = Ok True \<and> length pi = P384_PROOF_SIZE"
  using generate_dleq_total [OF assms, of k r "r * k" rng] dleq_complete [OF assms(1)] by blast

theorem evaluation_proof_verifies_witness:
  "\<exists>pi rng'. generate_dleq_proof sample_ossl 5 (sample_pt 5) (sample_pt 3) (sample_pt 15) () = Some (Ok pi, rng')
    \<and> verify_dleq_proof sample_ossl (sample_pt 5) (sample_pt 3) (sample_pt 15) pi = Ok True
    \<and> length pi = P384_PROOF_SIZE"
  using evaluation_proof_verifies [OF sample_ec sample_evp sample_scalars, of 5 3 "()"] by simp

text \<open>
  C19. In every state a MultiKeyIssuer can reach, removing a truncated key id makes it refuse every
  request for that id, with the error of an unknown key or, when the type is not supported, of an
  unsupported type, and leaves its answers to all other requests as they were.
\<close>

theorem removed_issuer_keys_stay_silent:
  assumes "multi_reach L m"
  shows "MultiKeyIssuer_issue L (MultiKeyIssuer_remove_key b m) request rng =
    (if req_truncated_token_key_id request = b then
       (if req_type request = BLIND_RSA \<or> req_type request = PARTIALLY_BLIND_RSA then
          Some (Err ISSUER_UNKNOWN ''Unknown RSA key ID'', rng)
        else if req_type request = VOPRF_P384_SHA384 then
          Some (Err ISSUER_UNKNOWN ''Unknown VOPRF key ID'', rng)
        else Some (Err UNSUPPORTED_TOKEN_TYPE ''Unsupported token type'', rng))
     else MultiKeyIssuer_issue L m request rng)"
  by (rule issue_after_remove [OF multi_reach_ok [OF assms]])

theorem removed_issuer_keys_stay_silent_witness:
  "MultiKeyIssuer_issue sample_ossl
      (MultiKeyIssuer_remove_key 9 (snd (MultiKeyIssuer_add_blind_rsa_key sample_ossl sample_private_key MultiKeyIssuer_new)))
      (TokenRequest_create BLIND_RSA 9 [1]) ()
    = Some (Err ISSUER_UNKNOWN ''Unknown RSA key ID'', ())"
  using removed_issuer_keys_stay_silent [OF multi_reach.add_rsa [OF multi_reach.start, of sample_ossl sample_private_key],
      of 9 "TokenRequest_create BLIND_RSA 9 [1]" "()"]
  by (simp add: TokenRequest_create_def)

text \<open>
  C20. For every output length from 1 byte to 255 blocks and every tag up to 255 bytes, the expansion
  of a message succeeds and is the chain of SHA-384 hashes that RFC 9380 defines, cut to the
  length.
\<close>

theorem expand_message_is_rfc9380:
  assumes "evp_documented L H" "0 < len" "len \<le> 255 * 48" "length dst \<le> 255"
  shows "expand_message_xmd L msg dst len = Ok (xmd_reference (H EVP_sha384) msg dst len)
    \<and> length (xmd_reference (H EVP_sha384) msg dst len) = len"
  using assms by (rule expand_message_xmd_reference)

theorem expand_message_is_rfc9380_witness:
  "expand_message_xmd sample_ossl [1] DST_H2S 72 = Ok (xmd_reference (sample_digest EVP_sha384) [1] DST_H2S 72)
    \<and> length (xmd_reference (sample_digest EVP_sha384) [1] DST_H2S 72) = 72"
  by (rule expand_message_is_rfc9380 [OF sample_evp]) (simp_all add: DST_H2S_def str_bytes_def)

text \<open>
  C21. The rejection loop that draws the blinding factor returns exactly when, after some number of
  draws, a draw fails or gives a number that is not zero and has an inverse modulo n; with a
  generator that never does, it runs for ever.
\<close>

theorem blinding_loop_returns_iff:
  "(\<exists>result rng'. blind_factor L n rng = Some (result, rng')) \<longleftrightarrow>
     (\<exists>k. draw_stops L n (after_draws L n k rng))"
  using blind_factor_returns [of L n _ rng] blind_factor_loops [of L n rng] by fastforce

text \<open>
  C22. In every state a TokenAuthenticator can reach by adding and removing issuers, redeeming, marking
  and pruning as time goes on, the set of redeemed nonces is exactly the nonces of the entry
  queue, which has no duplicate and is in the order of its timestamps, and holds at most the
  configured number of nonces.
\<close>

theorem authenticator_cache_consistent:
  assumes "auth_reach L config t auth"
  shows "ta_redeemed_nonces auth = set (map ne_nonce (ta_nonce_entries auth))
    \<and> distinct (map ne_nonce (ta_nonce_entries auth)) \<and> sorted (map ne_timestamp (ta_nonce_entries auth))
    \<and> TokenAuthenticator_redemption_cache_size auth \<le> authenticator_max_size config"
  using auth_reach_inv [OF assms]
  unfolding cache_inv_def entries_ok_def TokenAuthenticator_redemption_cache_size_def by blast

theorem authenticator_cache_consistent_witness:
  "ta_redeemed_nonces (TokenAuthenticator_mark_redeemed 4 sample_token sample_authenticator)
      = set (map ne_nonce (ta_nonce_entries (TokenAuthenticator_mark_redeemed 4 sample_token sample_authenticator)))
    \<and> distinct (map ne_nonce (ta_nonce_entries (TokenAuthenticator_mark_redeemed 4 sample_token sample_authenticator)))
    \<and> sorted (map ne_timestamp (ta_nonce_entries (TokenAuthenticator_mark_redeemed 4 sample_token sample_authenticator)))
    \<and> TokenAuthenticator_redemption_cache_size (TokenAuthenticator_mark_redeemed 4 sample_token sample_authenticator)
        \<le> authenticator_max_size sample_ac_config"
  by (rule authenticator_cache_consistent [OF auth_reach.mark [OF sample_authenticator_reach]]) simp

text \<open>
  C23. What a parser accepts is well-formed, whatever the bytes: tokens from headers have the sizes of
  their type, challenges their limits and arrays, requests and responses the sizes of their type,
  batches payloads of at most 65535 bytes and complete entries, grants counts and lengths that fit
  their fields.
\<close>

theorem parsers_return_well_formed:
  "(parse_authorization header = Ok t \<longrightarrow> token_wf t)
    \<and> (TokenChallenge_deserialize bs = Ok c \<longrightarrow> challenge_wf c \<and> tc_cached_digest c = None)
    \<and> (TokenRequest_deserialize bs = Ok r \<longrightarrow> request_wf r)
    \<and> (BatchedTokenRequest_deserialize bs = Ok rs \<longrightarrow> batch_wf rs)
    \<and> (TokenResponse_deserialize ty bs = Ok s \<longrightarrow> response_wf s \<and> resp_type s = ty)
    \<and> (BatchedTokenResponse_deserialize bs = Ok ss \<longrightarrow> response_batch_wf ss)
    \<and> (AuthorizationInfo_deserialize bs = Ok i \<longrightarrow> info_wf i)"
  by (auto simp: parse_authorization_def decode_token_def try_bind_Ok_iff request_wire.des_Ok_iff
      TokenResponse_deserialize_Ok_iff token_wire.des_Ok_iff
      intro: BatchedTokenRequest_deserialize_wf BatchedTokenResponse_deserialize_wf AuthorizationInfo_deserialize_wf
      dest: TokenChallenge_deserialize_wf)

theorem parsers_return_well_formed_witness:
  "\<exists>header t bs c i. parse_authorization header = Ok t \<and> token_wf t
    \<and> TokenChallenge_deserialize bs = Ok c \<and> challenge_wf c"
proof -
  obtain header where h: "build_authorization sample_token = Ok header"
    "parse_authorization header = Ok sample_token"
    using authorization_round_trip [OF sample_token_wf] by (auto simp: try_bind_Ok_iff)
  obtain bs where "TokenChallenge_deserialize bs = Ok sample_challenge"
    using challenge_wire.transmits [of sample_challenge] sample_challenge_wf by auto
  then show ?thesis using h parsers_return_well_formed [of header sample_token bs sample_challenge] by blast
qed

text \<open>
  C24. The reader of tokens accepts a byte string exactly when it is the serialisation of a well-formed
  token (known type, 32-byte nonce, digest and key id, authenticator of the size of its type), and
  returns that token: one encoding per token, nothing accepted beyond it.
\<close>

theorem token_wire_exact:
  "Token_deserialize bs = Ok t \<longleftrightarrow> token_wf t \<and> Token_serialize t = Ok bs"
  by (rule token_wire.des_Ok_iff)

text \<open>
  C25. A challenge survives serialisation and parsing unchanged exactly when its issuer name is not
  empty, both names fit 16-bit lengths, the context has 32 bytes, the at most 100 origins are not
  empty and hold no comma, and no digest is cached.
\<close>

theorem challenge_wire_exact:
  "try_bind (TokenChallenge_serialize c) TokenChallenge_deserialize = Ok c
     \<longleftrightarrow> challenge_wf c \<and> tc_cached_digest c = None"
proof
  assume "challenge_wf c \<and> tc_cached_digest c = None"
  then show "try_bind (TokenChallenge_serialize c) TokenChallenge_deserialize = Ok c"
    by (rule challenge_wire.round_trip)
qed (auto simp: try_bind_Ok_iff dest: TokenChallenge_deserialize_wf)

text \<open>
  C26. Once the clock has passed the first window, no check leaves more than max_size + 1 nonces in the
  cache, and the representation invariant (buckets disjoint, not empty, exactly the queued ones,
  their union the deduplication set) holds again.
\<close>

theorem replay_size_bounded:
  assumes "rc_inv w m t c" "t \<le> t'" "w \<le> t'"
  shows "rc_size (snd (check_and_add_at t' n c)) \<le> Suc m
    \<and> rc_inv w m t' (snd (check_and_add_at t' n c))"
  using rc_size_bound [OF assms] rc_inv_check_and_add_at [OF assms(1,2)] by blast

theorem replay_size_bounded_witness:
  "rc_size (snd (check_and_add_at 20 [1] (ReplayCache_new 10 0))) \<le> Suc 0
    \<and> rc_inv (word_of_int 10) 0 20 (snd (check_and_add_at 20 [1] (ReplayCache_new 10 0)))"
  by (rule replay_size_bounded [OF rc_inv_new [of 10 0 0]]) simp_all

text \<open>
  C27. A MOQT grant authorises an action on a namespace and a track exactly when one of its scopes
  lists the action and its namespace and track rules match, where the rules compute equality,
  prefix, suffix and sublist of their patterns, except that a track rule does not find the empty
  pattern contained in the empty track name.
\<close>

theorem moq_authorizes_iff:
  "info_authorizes i action ns track \<longleftrightarrow>
     (\<exists>s \<in> set (info_scopes i). action \<in> set (scope_actions s)
        \<and> (case scope_namespace_match s of AnyNamespace \<Rightarrow> True
           | NamespaceRule r \<Rightarrow>
               (case ns_match_type r of MATCH_EXACT \<Rightarrow> ns = ns_pattern r
                | MATCH_PREFIX \<Rightarrow> prefix (ns_pattern r) ns | MATCH_SUFFIX \<Rightarrow> suffix (ns_pattern r) ns
                | MATCH_CONTAINS \<Rightarrow> sublist (ns_pattern r) ns))
        \<and> (case scope_track_name_match s of AnyTrack \<Rightarrow> True
           | TrackRule r \<Rightarrow>
               (case track_match_type r of MATCH_EXACT \<Rightarrow> track = track_pattern r
                | MATCH_PREFIX \<Rightarrow> prefix (track_pattern r) track
                | MATCH_SUFFIX \<Rightarrow> suffix (track_pattern r) track
                | MATCH_CONTAINS \<Rightarrow> sublist (track_pattern r) track
                    \<and> \<not> (track = [] \<and> track_pattern r = []))))"
  by (simp add: info_authorizes_iff scope_authorizes_iff namespace_matches_def track_matches_def
      namespace_rule_matches_iff track_rule_matches_iff cong: NamespaceMatch.case_cong TrackNameMatch.case_cong)

text \<open>
  C28. The Authorization header built for a well-formed token parses back to that token: serialisation,
  padded base64url, the quoted token parameter and their parsers compose to the identity.
\<close>

theorem authorization_header_round_trip:
  assumes "token_wf t"
  shows "try_bind (build_authorization t) parse_authorization = Ok t"
  by (rule authorization_round_trip [OF assms])

theorem authorization_header_round_trip_witness:
  "try_bind (build_authorization sample_token) parse_authorization = Ok sample_token"
  by (rule authorization_header_round_trip [OF sample_token_wf])

text \<open>
  C29. For a challenge that is well-formed (a non-empty issuer name and joined origins of at most 65535
  bytes each, a redemption context of 32 bytes if there is one, and at most 100 origins, none
  empty or with a comma) and has no cached digest, a token key given as any bytes and an optional
  max-age, the WWW-Authenticate header is built and parses, and the parsed header decodes to the
  same challenge, key and max-age.
\<close>

theorem www_authenticate_header_round_trip:
  assumes "challenge_wf c" "tc_cached_digest c = None"
  shows "\<exists>header h. build_www_authenticate c key max_age = Ok header
    \<and> ChallengeHeader_parse header = Ok h \<and> decode_challenge h = Ok c
    \<and> decode_token_key h = Ok key \<and> ch_max_age h = max_age"
  by (rule www_authenticate_round_trip [OF assms])

theorem www_authenticate_header_round_trip_witness:
  "\<exists>header h. build_www_authenticate sample_challenge [1, 2] (Some 30) = Ok header
    \<and> ChallengeHeader_parse header = Ok h \<and> decode_challenge h = Ok sample_challenge
    \<and> decode_token_key h = Ok [1, 2] \<and> ch_max_age h = Some 30"
  by (rule www_authenticate_header_round_trip [OF sample_challenge_wf])

text \<open>
  C30. Any positive number of formatted challenges, joined with a comma and a space as a server sends
  them in one WWW-Authenticate field, is split by the quote-aware scanner into exactly those
  challenges, in order, when no challenge is empty and no challenge or token key has a quote or a
  backslash in it.
\<close>

theorem challenge_headers_split_exactly:
  assumes "\<forall>h \<in> set hs. header_ok h" "hs \<noteq> []"
  shows "parse_all (join_headers (map ChallengeHeader_format hs)) = Ok hs"
  by (rule parse_all_join [OF assms])

theorem challenge_headers_split_exactly_witness:
  "parse_all (join_headers (map ChallengeHeader_format
      [\<lparr>ch_challenge = ''AAIA'', ch_token_key = None, ch_max_age = Some 7\<rparr>,
       \<lparr>ch_challenge = ''x, PrivateToken '', ch_token_key = Some ''a,b'', ch_max_age = None\<rparr>]))
   = Ok [\<lparr>ch_challenge = ''AAIA'', ch_token_key = None, ch_max_age = Some 7\<rparr>,
         \<lparr>ch_challenge = ''x, PrivateToken '', ch_token_key = Some ''a,b'', ch_max_age = None\<rparr>]"
  by (rule challenge_headers_split_exactly) (simp_all add: header_ok_def quotable_def)

text \<open>
  C31. A batch of requests of known types whose blinded messages have the size of their type, and whose
  payload is at most 65535 bytes, parses back from its serialisation, and never reaches the count
  limit of the parser. A batch of optional responses parses back as well when each is absent, or
  present with a type and fields of the sizes of its variant, there are at most 10000 of them, and
  their payload is at most 65535 bytes.
\<close>

theorem batches_round_trip:
  "(list_all batchable (batch_requests b) \<and> length (payload_bytes (batch_requests b)) \<le> 65535 \<longrightarrow>
      try_bind (BatchedTokenRequest_serialize b) BatchedTokenRequest_deserialize = Ok b
      \<and> length (batch_requests b) < MAX_BATCH_SIZE)
    \<and> (response_batch_wf rs \<longrightarrow> try_bind (BatchedTokenResponse_serialize rs) BatchedTokenResponse_deserialize = Ok rs)"
proof (intro conjI impI)
  assume b: "list_all batchable (batch_requests b) \<and> length (payload_bytes (batch_requests b)) \<le> 65535"
  then show "try_bind (BatchedTokenRequest_serialize b) BatchedTokenRequest_deserialize = Ok b"
    by (intro batch_wire.round_trip) (simp add: batch_wf_def)
  show "length (batch_requests b) < MAX_BATCH_SIZE"
    using b length_payload_ge [of "batch_requests b"] by (simp add: MAX_BATCH_SIZE_def)
qed (rule response_batch_wire.round_trip)

theorem batches_round_trip_witness:
  "try_bind (BatchedTokenRequest_serialize
      \<lparr>batch_requests = [\<lparr>req_type = VOPRF_RISTRETTO255_SHA512, req_truncated_token_key_id = 3,
                          req_blinded_msg = replicate 32 1\<rparr>]\<rparr>) BatchedTokenRequest_deserialize
    = Ok \<lparr>batch_requests = [\<lparr>req_type = VOPRF_RISTRETTO255_SHA512, req_truncated_token_key_id = 3,
                          req_blinded_msg = replicate 32 1\<rparr>]\<rparr>
   \<and> try_bind (BatchedTokenResponse_serialize
      \<lparr>batch_responses = [\<lparr>opt_present = False, opt_response = None\<rparr>]\<rparr>) BatchedTokenResponse_deserialize
    = Ok \<lparr>batch_responses = [\<lparr>opt_present = False, opt_response = None\<rparr>]\<rparr>"
  using batches_round_trip
    [of "\<lparr>batch_requests = [\<lparr>req_type = VOPRF_RISTRETTO255_SHA512, req_truncated_token_key_id = 3,
                          req_blinded_msg = replicate 32 1\<rparr>]\<rparr>"
      "\<lparr>batch_responses = [\<lparr>opt_present = False, opt_response = None\<rparr>]\<rparr>"]
  by (simp add: batchable_def request_wf_def for_type_def payload_bytes_def request_bytes_def
      response_batch_wf_def optional_response_wf_def MAX_RESPONSE_BATCH_SIZE_def responses_payload_def
      optional_bytes_def)

text \<open>
  C32. Whatever the threads that call initialize and shutdown do and however their atomic steps
  interleave, the backend is initialized at most once and shut down at most once, never shut down
  before it was initialized, and once it was shut down no later call initializes it again.
\<close>

theorem backend_starts_and_stops_once:
  assumes "lifecycle_reach s"
  shows "lc_inits s \<le> 1 \<and> lc_shutdowns s \<le> lc_inits s
    \<and> (lc_initialized s \<longrightarrow> lc_inits s = 1 \<and> lc_shutdowns s = 0)
    \<and> (lc_shutdowns s = 1 \<longrightarrow> (\<forall>s'. lifecycle_step\<^sup>*\<^sup>* s s' \<longrightarrow> \<not> lc_initialized s' \<and> lc_inits s' = 1))"
proof -
  have inv: "starting s \<or> started s" by (rule lifecycle_inv [OF assms])
  have "\<not> lc_initialized s' \<and> lc_inits s' = 1" if "lc_shutdowns s = 1" "lifecycle_step\<^sup>*\<^sup>* s s'" for s'
  proof -
    have "finished s" using inv that(1) by (auto simp: finished_def starting_def)
    then have "finished s'" by (rule finished_steps [OF that(2)])
    then show ?thesis by (auto simp: finished_def started_def flag_ok_def)
  qed
  moreover have "lc_inits s \<le> 1 \<and> lc_shutdowns s \<le> lc_inits s
      \<and> (lc_initialized s \<longrightarrow> lc_inits s = 1 \<and> lc_shutdowns s = 0)"
    using inv
  proof
    assume "starting s"
    then show ?thesis unfolding starting_def by (elim conjE disjE exE) simp_all
  next
    assume "started s"
    then show ?thesis unfolding started_def flag_ok_def by (elim conjE disjE) simp_all
  qed
  ultimately show ?thesis by blast
qed

theorem backend_starts_and_stops_once_witness:
  "lc_inits (move_to (0 :: nat) At_flag_store
      ((move_to 0 At_backend_init Lifecycle_start)\<lparr>lc_once := Once_running\<rparr>)\<lparr>lc_inits := Suc 0\<rparr>) \<le> 1"
proof -
  let ?s1 = "(move_to (0 :: nat) At_backend_init Lifecycle_start)\<lparr>lc_once := Once_running\<rparr>"
  let ?s2 = "(move_to 0 At_flag_store ?s1)\<lparr>lc_inits := Suc (lc_inits ?s1)\<rparr>"
  have "lifecycle_step Lifecycle_start ?s1" by (rule enter_once) (simp_all add: Lifecycle_start_def)
  moreover have "lifecycle_step ?s1 ?s2" by (rule backend_init) (simp add: move_to_def)
  ultimately have "lifecycle_reach ?s2" unfolding lifecycle_reach_def
    by (rule converse_rtranclp_into_rtranclp [OF _ r_into_rtranclp])
  from backend_starts_and_stops_once [OF this] show ?thesis by (simp add: move_to_def Lifecycle_start_def)
qed

text \<open>
  C33. The token cache of a provider neither invents nor duplicates a token: in any sequence of stores,
  fetches and clears, the tokens handed out for a challenge together with those still cached for
  it are a part of those stored for it, each at most as often as it was stored.
\<close>

theorem provider_hands_out_stored_tokens:
  "mset (handed_out digest (fst (run_cache ops p))) + mset (cached_tokens (snd (run_cache ops p)) digest)
   \<subseteq># mset (stored_for digest ops) + mset (cached_tokens p digest)"
  by (rule cache_conserves_tokens)

text \<open>
  C34. The defect of the private client: the blinded element is moved into the request, and finalizing
  reads it again from the finalization data, so whatever the issuer answers, finalize returns an
  error for every request that create_token_request makes.
\<close>

theorem private_client_never_finalizes:
  assumes "PrivateClient_create_token_request L challenge key rng = Some ((Ok res, challenge', key'), rng')"
  shows "\<exists>e. PrivateClient_finalize L response (trr_finalization_data res) issuer_key = Inl e"
  using PrivateClient_create_moved [OF assms] PrivateClient_finalize_moved by blast

theorem private_client_never_finalizes_witness:
  "\<exists>res c k e. PrivateClient_create_token_request sample_ossl sample_challenge sample_voprf_key ()
       = Some ((Ok res, c, k), ())
    \<and> PrivateClient_finalize sample_ossl (create_voprf [1] [2]) (trr_finalization_data res) sample_voprf_key = Inl e"
  using sample_private_request private_client_never_finalizes [where rng' = "()" and L = sample_ossl
      and challenge = sample_challenge and key = sample_voprf_key and rng = "()"
      and response = "create_voprf [1] [2]" and issuer_key = sample_voprf_key]
  by metis

text \<open>
  C35. A SecureBytes that comes from the constructors by stores to its elements, clears, moves and
  assignments, and by resizes that stay inside its block and do not shrink, gives back only memory
  that is zero when it is destroyed and when something is assigned to it, and a clear leaves its
  whole block zero; this covers what a move or an assignment leaves on either side. Any resize
  keeps the elements up to the new size and fills up with zeros, and it gives memory back exactly
  when the new size is past the block: the old block, uncleared.
\<close>

theorem secure_bytes_released_clear:
  assumes "sb_reach s"
  shows "(\<forall>b \<in> set (SecureBytes_destroy s @ snd (SecureBytes_move_assign s other)). all_zero b)
    \<and> all_zero (sb_block (SecureBytes_clear s))
    \<and> SecureBytes_view (fst (SecureBytes_resize fresh n s)) = take n (SecureBytes_view s) @ replicate (n - sb_size s) 0
    \<and> snd (SecureBytes_resize fresh n s) = (if n \<le> length (sb_block s) then [] else [sb_block s])"
  using released_zero [OF sb_reach_ok [OF assms]] clear_ok [OF sb_reach_ok [OF assms]]
    resize_view [of s] sb_reach_ok [OF assms]
  by (auto simp: resize_releases sb_ok_def)

theorem secure_bytes_released_clear_witness:
  "list_all all_zero (SecureBytes_destroy (SecureBytes_store 1 9 (SecureBytes_from_view [7, 8]))
     @ snd (SecureBytes_move_assign (SecureBytes_store 1 9 (SecureBytes_from_view [7, 8])) SecureBytes_default))
   \<and> snd (SecureBytes_resize (\<lambda>_ _. []) 3 (SecureBytes_store 1 9 (SecureBytes_from_view [7, 8]))) = [[7, 9]]"
  using secure_bytes_released_clear [OF sb_reach.store [OF sb_reach.from_view [of "[7, 8]"], of 1 9],
      of SecureBytes_default "\<lambda>_ _. []" 3]
  by (simp add: SecureBytes_from_view_def SecureBytes_store_def list_all_iff)

text \<open>
  C36. A PublicIssuer answers a request of the partially blind type with a response of the plain type,
  so a provider that lists the key of the request under the partially blind type only cannot
  finalize the answer.
\<close>

theorem partially_blind_never_finalized:
  assumes "PublicIssuer_issue L issuer request = Ok resp"
    and "\<forall>k \<in> set (listed_keys provider issuers).
      pk_key_id k = fd_token_key_id (trc_finalization_data ctx) \<longrightarrow> pk_type k = PARTIALLY_BLIND_RSA"
  shows "TokenProvider_finalize L issuers provider resp ctx
    = Err ISSUER_UNKNOWN ''No matching key found for finalization''"
  by (rule partially_blind_unmatched [OF assms(1)]) (use assms(2) in auto)

theorem partially_blind_never_finalized_witness:
  "TokenProvider_finalize sample_ossl [''issuer.example''] sample_partial_provider
      (create_blind_rsa (be_bytes 256 1)) sample_context
    = Err ISSUER_UNKNOWN ''No matching key found for finalization''"
  by (rule partially_blind_never_finalized [OF sample_partial_issue]) (simp add: sample_partial_keys)

text \<open>
  C37. The example program moq_client always ends with status 1: whatever the issuer generates, its
  client refuses the challenge the program builds, because the client is configured for
  origin.example.com and the challenge names relay.example.com.
\<close>

theorem client_example_fails:
  assumes "evp_documented L H" "keygen_documented L H em_ok"
  shows "\<exists>rng'. client_main L issuers rng = Some (Failed
    ''Failed to prepare request: Challenge origin_info does not include current origin'', rng')"
  using assms by (rule client_main_fails)

theorem client_example_fails_witness:
  "client_main sample_ossl [''issuer.example.com''] () = Some (Failed
    ''Failed to prepare request: Challenge origin_info does not include current origin'', ())"
  using client_example_fails [OF sample_evp sample_keygen, of "[''issuer.example.com'']" "()"] by simp

text \<open>
  C38. Any sequence of writes into a caller-supplied buffer agrees with the same writes into a growing
  vector: either the written prefix of the buffer is exactly the vector, or the overflow flag is
  set and the vector is longer than the buffer. The buffer never changes its length.
\<close>

theorem fixed_buffer_refines_vector:
  "let e = run_ops ops (ByteWriter_external buffer); i = run_ops ops ByteWriter_new
   in length (w_external e) = length buffer
      \<and> (if has_overflow e then length buffer < length (writer_view i)
         else writer_view e = writer_view i)"
  using mode_rel_run_ops [OF mode_rel_start [of buffer], of ops]
  by (auto simp: mode_rel_def Let_def has_overflow_def writer_view_def)

text \<open>
  C39. For a key that the libraries describe alike, the BoringSSL and the OpenSSL 1.1 build validate it
  alike, and the OpenSSL 3 build accepts it exactly when they do and moreover its type is RSASSA-
  PSS, its salt has 48 bytes and its digests are SHA-384: all that the other builds leave
  unchecked.
\<close>

theorem backends_validate_keys:
  assumes "same_key L pkey"
  shows "validate_rsa_params_boringssl L pkey bits w = validate_rsa_params_openssl11 L pkey bits w
    \<and> (validate_rsa_params L pkey bits w = Ok () \<longleftrightarrow>
      validate_rsa_params_boringssl L pkey bits w = Ok () \<and> EVP_PKEY_base_id L pkey = EVP_PKEY_RSA_PSS L
      \<and> EVP_PKEY_get_saltlen_param L pkey = (1, 48)
      \<and> digest_ok L PARAM_RSA_DIGEST pkey \<and> digest_ok L PARAM_RSA_MGF1_DIGEST pkey)"
  using backends_accept [OF assms] by blast

theorem backends_validate_keys_witness:
  "validate_rsa_params_boringssl sample_low_level () RSA_BITS RSA_PUBLIC_EXPONENT = Ok ()"
proof -
  have "validate_rsa_params sample_low_level () RSA_BITS RSA_PUBLIC_EXPONENT = Ok ()"
    by (simp add: validate_rsa_params_def sample_n_bits' RSA_BITS_def RSA_PUBLIC_EXPONENT_def sample_e_def digest_ok_def)
  then show ?thesis using backends_validate_keys [OF sample_same_key, of "()" RSA_BITS RSA_PUBLIC_EXPONENT] by blast
qed

text \<open>
  C40. A scope with 257 actions that allows SUBSCRIBE on one namespace and one track only serialises
  without an error, and its encoding is read back as a scope that allows SUBSCRIBE on every
  namespace and every track: the count byte is truncated and the actions are parsed as match
  rules.
\<close>

theorem moq_overlong_scope_escalates:
  "length (scope_actions overlong_scope) = 257
    \<and> (scope_authorizes overlong_scope SUBSCRIBE ns track \<longleftrightarrow> ns = [[1]] \<and> track = [1])
    \<and> (\<exists>bs s. AuthScope_serialize overlong_scope = Ok bs \<and> AuthScope_deserialize bs = Ok s
         \<and> scope_authorizes s SUBSCRIBE ns track)"
proof (intro conjI)
  show "length (scope_actions overlong_scope) = 257" by (simp add: scope_builder_defs)
  show "scope_authorizes overlong_scope SUBSCRIBE ns track \<longleftrightarrow> ns = [[1]] \<and> track = [1]"
    by (simp add: scope_authorizes_iff scope_builder_defs namespace_matches_def track_matches_def
        namespace_rule_matches_iff track_rule_matches_iff)
  have "scope_wf widened_scope"
    by (simp add: scope_wf_def scope_builder_defs namespace_match_wf_def track_match_wf_def elem_ok_def)
  then have "AuthScope_deserialize (scope_bytes overlong_scope) = Ok widened_scope"
    using overlong_scope_bytes by (simp add: AuthScope_deserialize_Ok_iff)
  moreover have "scope_authorizes widened_scope SUBSCRIBE ns track"
    by (simp add: scope_authorizes_iff scope_builder_defs namespace_matches_def track_matches_def
        namespace_rule_matches_iff track_rule_matches_iff)
  ultimately show "\<exists>bs s. AuthScope_serialize overlong_scope = Ok bs \<and> AuthScope_deserialize bs = Ok s
      \<and> scope_authorizes s SUBSCRIBE ns track"
    by (auto simp: AuthScope_serialize_eq)
qed

end
